(* ===== verification/Prelude.thy ===== *)
theory Prelude
  imports Main
begin

text \<open>
  What every component shares: the error values of the Go code, the result type of
  fallible operations, the option monad used for code that may panic or not return,
  the collections of facts the component proofs draw on, and lemmas on lists and options.

  A Go function that returns \<open>(x, err)\<close> and leaves \<open>x\<close> at its zero value on an error is
  modelled with result type \<open>goerror + 'a\<close> (\<open>Inl\<close> the error). A function that can panic,
  or a loop that could run forever, has result type \<open>'a option\<close>: \<open>None\<close> says that it does
  not return normally.
\<close>

section \<open>Errors\<close>

text \<open>
  The errors the code makes: the sentinel values that callers compare with
  \<open>errors.Is\<close> or \<open>!=\<close>, and messages. \<open>DbError\<close>, \<open>HttpError\<close> and \<open>XmlError\<close> are errors
  that come from the database driver, the HTTP client and the XML decoder.
\<close>

datatype goerror =
    ErrMsg string
  | ErrShardNotFound
  | ErrFreecacheNotFound
  | ErrCacheMiss
  | ErrCacheNotFound
  | ErrUnknownVid
  | ErrCamundaDeploymentUnknown
  | ErrAccessDenied
  | ErrXml
  | ErrPath string
  | DbError string
  | HttpError string
  | XmlError string
  | JsonError string

type_synonym 'a res = "goerror + 'a"

section \<open>Collections of facts\<close>

named_theorems queue_simps \<open>what the operations of a queue do to its contents\<close>
named_theorems tree_simps \<open>addresses and contents of element trees\<close>
named_theorems sql_simps \<open>what a statement does to the tables\<close>

section \<open>Options\<close>

lemma bind_SomeI: "m = Some x \<Longrightarrow> Option.bind m f = f x"
  by simp

lemma bind_eq_SomeE:
  assumes "Option.bind m f = Some y"
  obtains x where "m = Some x" and "f x = Some y"
  using assms by (cases m) auto

text \<open>Running a fallible step on every element of a list, from the left.\<close>

fun map_opt :: "('a \<Rightarrow> 'b option) \<Rightarrow> 'a list \<Rightarrow> 'b list option" where
  "map_opt f [] = Some []"
| "map_opt f (x # xs) = Option.bind (f x) (\<lambda>y. map_option ((#) y) (map_opt f xs))"

lemma map_opt_total: "(\<And>x. x \<in> set xs \<Longrightarrow> f x = Some (g x)) \<Longrightarrow> map_opt f xs = Some (map g xs)"
  by (induction xs) auto

lemma map_opt_append:
  "map_opt f (xs @ ys) =
     Option.bind (map_opt f xs) (\<lambda>us. map_option ((@) us) (map_opt f ys))"
proof (induction xs)
  case (Cons x xs)
  then show ?case
    by (cases "f x"; cases "map_opt f xs"; cases "map_opt f ys") auto
qed (cases "map_opt f ys"; simp)

section \<open>Lists\<close>

text \<open>Keeping the first occurrence of each key, in order.\<close>

fun nub_by :: "('a \<Rightarrow> 'k) \<Rightarrow> 'k list \<Rightarrow> 'a list \<Rightarrow> 'a list" where
  "nub_by k seen [] = []"
| "nub_by k seen (x # xs) =
     (if k x \<in> set seen then nub_by k seen xs else x # nub_by k (k x # seen) xs)"

lemma set_nub_by_subset: "set (nub_by k seen xs) \<subseteq> set xs"
  by (induction k seen xs rule: nub_by.induct) auto

lemma keys_nub_by:
  "k ` set (nub_by k seen xs) = k ` set xs - set seen"
  by (induction k seen xs rule: nub_by.induct) auto

lemma distinct_nub_by: "distinct (map k (nub_by k seen xs))"
  by (induction k seen xs rule: nub_by.induct) (auto simp: keys_nub_by simp flip: image_set)

lemma nub_by_distinct:
  "distinct (map k xs) \<Longrightarrow> k ` set xs \<inter> set seen = {} \<Longrightarrow> nub_by k seen xs = xs"
  by (induction k seen xs rule: nub_by.induct) auto

lemma nub_by_seen_cong: "set s = set s' \<Longrightarrow> nub_by k s xs = nub_by k s' xs"
proof (induction xs arbitrary: s s')
  case (Cons x xs)
  have "set (k x # s) = set (k x # s')" using Cons.prems by simp
  from Cons.IH [OF this] Cons.IH [OF Cons.prems] Cons.prems show ?case by simp
qed simp

lemma nub_by_append:
  "nub_by k seen (xs @ ys) =
     nub_by k seen xs @ nub_by k (map k (nub_by k seen xs) @ seen) ys"
proof (induction k seen xs rule: nub_by.induct)
  case (2 k seen x xs)
  show ?case
  proof (cases "k x \<in> set seen")
    case False
    have "nub_by k (map k (nub_by k (k x # seen) xs) @ k x # seen) ys =
          nub_by k (k x # map k (nub_by k (k x # seen) xs) @ seen) ys"
      by (rule nub_by_seen_cong) auto
    with 2 False show ?thesis by simp
  qed (use 2 in simp)
qed simp

lemma take_drop_hd:
  assumes "i < length xs" and "i < j"
  shows "take (j - i) (drop i xs) = xs ! i # take (j - Suc i) (drop (Suc i) xs)"
proof -
  from assms(2) obtain m where m: "j - i = Suc m" and "j - Suc i = m"
    by (metis Suc_diff_Suc)
  then show ?thesis using assms(1) by (simp add: Cons_nth_drop_Suc [symmetric])
qed

end
