(* ===== verification/Sql.thy ===== *)
theory Sql
  imports Prelude
begin

text \<open>
  A database handle as \<open>database/sql\<close> presents it to \<open>lib/shards\<close> and \<open>lib/vid\<close>: statements on
  the handle itself, which commit at once, and statements in a transaction, which work on a
  copy of the tables until \<open>Commit\<close>. Each call may fail from outside: the state carries the
  schedule of the failures to come, and the theorems quantify over it.
\<close>

section \<open>Handles\<close>

text \<open>
  \<open>Lost\<close>: the call did not reach the database, or was undone. \<open>Unknown\<close>: it took effect, but the
  caller sees an error (the connection broke before the answer).
\<close>

datatype fault = Fine | Lost goerror | Unknown goerror

text \<open>
  \<open>tx\<close> is the working copy of the open transaction, and whether a statement of it has failed:
  PostgreSQL refuses every later statement of such a transaction, and its commit.
\<close>

record 'd sql =
  committed :: 'd
  tx :: "('d \<times> bool) option"
  faults :: "fault list"
  cuts :: "nat option list"

datatype conn = Db | Tx

text \<open>A statement: its result, and the new tables when it has not failed.\<close>

type_synonym ('d, 'a) stmt = "'d \<Rightarrow> ('a \<times> 'd) res"

definition ErrTxDone :: goerror where
  "ErrTxDone = DbError ''sql: transaction has already been committed or rolled back''"

definition ErrTxFailed :: goerror where
  "ErrTxFailed = DbError ''pq: Could not complete operation in a failed transaction''"

definition next_fault :: "'d sql \<Rightarrow> fault \<times> 'd sql" where
  "next_fault s = (case faults s of [] \<Rightarrow> (Fine, s) | f # fs \<Rightarrow> (f, s\<lparr>faults := fs\<rparr>))"

section \<open>Statements\<close>

definition exec_db :: "('d, 'a) stmt \<Rightarrow> 'd sql \<Rightarrow> 'a res \<times> 'd sql" where
  "exec_db q s =
     (case next_fault s of
        (Lost e, s1) \<Rightarrow> (Inl e, s1)
      | (Fine, s1) \<Rightarrow>
          (case q (committed s1) of
             Inl e \<Rightarrow> (Inl e, s1)
           | Inr (a, d) \<Rightarrow> (Inr a, s1\<lparr>committed := d\<rparr>))
      | (Unknown e, s1) \<Rightarrow>
          (case q (committed s1) of
             Inl e' \<Rightarrow> (Inl e, s1)
           | Inr (a, d) \<Rightarrow> (Inl e, s1\<lparr>committed := d\<rparr>)))"

definition exec_tx :: "('d, 'a) stmt \<Rightarrow> 'd sql \<Rightarrow> 'a res \<times> 'd sql" where
  "exec_tx q s =
     (case tx s of
        None \<Rightarrow> (Inl ErrTxDone, s)
      | Some (d, True) \<Rightarrow> (Inl ErrTxFailed, s)
      | Some (d, False) \<Rightarrow>
          (case next_fault s of
             (Lost e, s1) \<Rightarrow> (Inl e, s1\<lparr>tx := Some (d, True)\<rparr>)
           | (Unknown e, s1) \<Rightarrow> (Inl e, s1\<lparr>tx := Some (d, True)\<rparr>)
           | (Fine, s1) \<Rightarrow>
               (case q d of
                  Inl e \<Rightarrow> (Inl e, s1\<lparr>tx := Some (d, True)\<rparr>)
                | Inr (a, d') \<Rightarrow> (Inr a, s1\<lparr>tx := Some (d', False)\<rparr>))))"

definition exec :: "conn \<Rightarrow> ('d, 'a) stmt \<Rightarrow> 'd sql \<Rightarrow> 'a res \<times> 'd sql" where
  "exec c = (case c of Db \<Rightarrow> exec_db | Tx \<Rightarrow> exec_tx)"

text \<open>
  The loop \<open>for rows.Next() { rows.Scan(..) }\<close> over the rows of a query. When the transfer of the
  rows breaks, \<open>Next\<close> answers false as it does after the last row, and the error waits in
  \<open>rows.Err()\<close>, which the code never asks for: the loop has seen a part of the rows.
\<close>

definition fetch :: "'r list \<Rightarrow> 'd sql \<Rightarrow> 'r list res \<times> 'd sql" where
  "fetch rows s =
     (case cuts s of
        [] \<Rightarrow> (Inr rows, s)
      | c # cs \<Rightarrow> (Inr (case c of None \<Rightarrow> rows | Some n \<Rightarrow> take n rows), s\<lparr>cuts := cs\<rparr>))"

section \<open>Transactions\<close>

definition begin_tx :: "'d sql \<Rightarrow> unit res \<times> 'd sql" where
  "begin_tx s =
     (case next_fault s of
        (Fine, s1) \<Rightarrow> (Inr (), s1\<lparr>tx := Some (committed s1, False)\<rparr>)
      | (Lost e, s1) \<Rightarrow> (Inl e, s1)
      | (Unknown e, s1) \<Rightarrow> (Inl e, s1))"

definition commit :: "'d sql \<Rightarrow> unit res \<times> 'd sql" where
  "commit s =
     (case tx s of
        None \<Rightarrow> (Inl ErrTxDone, s)
      | Some (d, failed) \<Rightarrow>
          (case next_fault (s\<lparr>tx := None\<rparr>) of
             (Lost e, s1) \<Rightarrow> (Inl e, s1)
           | (Fine, s1) \<Rightarrow>
               if failed then (Inl ErrTxFailed, s1) else (Inr (), s1\<lparr>committed := d\<rparr>)
           | (Unknown e, s1) \<Rightarrow>
               if failed then (Inl e, s1) else (Inl e, s1\<lparr>committed := d\<rparr>)))"

definition rollback :: "'d sql \<Rightarrow> 'd sql" where
  "rollback s = s\<lparr>tx := None\<rparr>"

text \<open>\<open>x, err := m(); if err != nil { return err }; k(x)\<close>\<close>

definition andThen :: "('s \<Rightarrow> 'a res \<times> 's) \<Rightarrow> ('a \<Rightarrow> 's \<Rightarrow> 'b res \<times> 's) \<Rightarrow> 's \<Rightarrow> 'b res \<times> 's" where
  "andThen m k s = (case m s of (Inl e, s1) \<Rightarrow> (Inl e, s1) | (Inr x, s1) \<Rightarrow> k x s1)"

text \<open>\<open>if err != nil { tx.Rollback(); return err }\<close> after the call.\<close>

definition orRollback :: "('d sql \<Rightarrow> 'a res \<times> 'd sql) \<Rightarrow> 'd sql \<Rightarrow> 'a res \<times> 'd sql" where
  "orRollback m s = (case m s of (Inl e, s1) \<Rightarrow> (Inl e, rollback s1) | (Inr x, s1) \<Rightarrow> (Inr x, s1))"

section \<open>What the calls do to the tables\<close>

text \<open>
  One view for all: the committed tables, and the tables a transaction works on.
\<close>

definition working :: "'d sql \<Rightarrow> 'd option" where
  "working s = (case tx s of Some (d, False) \<Rightarrow> Some d | _ \<Rightarrow> None)"

lemma next_fault_frame [sql_simps]:
  "next_fault s = (f, s1) \<Longrightarrow> committed s1 = committed s \<and> tx s1 = tx s"
  by (auto simp: next_fault_def split: list.splits)

lemma fetch_frame [sql_simps]:
  "fetch rows s = (r, s1) \<Longrightarrow>
   committed s1 = committed s \<and> tx s1 = tx s \<and> (\<exists>n. r = Inr (take n rows))"
  by (auto simp: fetch_def split: list.splits option.splits intro: exI [of _ "length rows"])

lemma exec_db_cases:
  assumes "exec_db q s = (r, s1)"
  shows "tx s1 = tx s"
    and "committed s1 = committed s \<or> (\<exists>a. q (committed s) = Inr (a, committed s1))"
    and "r = Inr a \<Longrightarrow> q (committed s) = Inr (a, committed s1)"
  using assms
  by (auto simp: exec_db_def dest!: next_fault_frame split: prod.splits fault.splits sum.splits)

lemma exec_tx_cases:
  assumes "exec_tx q s = (r, s1)"
  shows "committed s1 = committed s"
    and "r = Inr a \<Longrightarrow> \<exists>d d'. tx s = Some (d, False) \<and> tx s1 = Some (d', False) \<and> q d = Inr (a, d')"
    and "r = Inl e \<Longrightarrow> working s1 = None"
  using assms
  by (auto simp: exec_tx_def working_def dest!: next_fault_frame
      split: prod.splits fault.splits sum.splits option.splits bool.splits)

lemma begin_tx_cases:
  assumes "begin_tx s = (r, s1)"
  shows "committed s1 = committed s"
    and "r = Inr u \<Longrightarrow> tx s1 = Some (committed s, False)"
    and "r = Inl e \<Longrightarrow> tx s1 = tx s"
  using assms
  by (auto simp: begin_tx_def dest!: next_fault_frame split: prod.splits fault.splits)

lemma commit_cases:
  assumes "commit s = (r, s1)"
  shows "committed s1 = committed s \<or> working s = Some (committed s1)"
    and "r = Inr u \<Longrightarrow> working s = Some (committed s1)"
    and "tx s1 = None"
  using assms
  by (auto simp: commit_def working_def dest!: next_fault_frame
      split: prod.splits fault.splits option.splits bool.splits if_splits)

lemma rollback_simps [simp]: "committed (rollback s) = committed s" "tx (rollback s) = None"
  by (simp_all add: rollback_def)

lemma andThen_Inr:
  "andThen m k s = (Inr y, s2) \<longleftrightarrow> (\<exists>x s1. m s = (Inr x, s1) \<and> k x s1 = (Inr y, s2))"
  by (auto simp: andThen_def split: prod.splits sum.splits)

lemma andThen_Inl:
  "andThen m k s = (Inl e, s2) \<longleftrightarrow>
     m s = (Inl e, s2) \<or> (\<exists>x s1. m s = (Inr x, s1) \<and> k x s1 = (Inl e, s2))"
  by (auto simp: andThen_def split: prod.splits sum.splits)

lemma orRollback_Inr: "orRollback m s = (Inr x, s1) \<longleftrightarrow> m s = (Inr x, s1)"
  by (auto simp: orRollback_def split: prod.splits sum.splits)

lemma orRollback_Inl:
  "orRollback m s = (Inl e, s1) \<longleftrightarrow> (\<exists>s0. m s = (Inl e, s0) \<and> s1 = rollback s0)"
  by (auto simp: orRollback_def split: prod.splits sum.splits)

section \<open>Programs over a handle\<close>

text \<open>
  The contract that every operation of a store with tables keeps, whatever fails: committed
  tables that satisfy the invariant stay so. \<open>safe\<close> is closed under the ways the code combines
  calls; a transaction may pass only states whose working copy satisfies it as well.
\<close>

definition tables_ok :: "('d \<Rightarrow> bool) \<Rightarrow> 'd sql \<Rightarrow> bool" where
  "tables_ok I s \<longleftrightarrow> I (committed s) \<and> (\<forall>d b. tx s = Some (d, b) \<longrightarrow> I d)"

definition safe :: "('d \<Rightarrow> bool) \<Rightarrow> ('d sql \<Rightarrow> 'a \<times> 'd sql) \<Rightarrow> bool" where
  "safe I m \<longleftrightarrow> (\<forall>s. tables_ok I s \<longrightarrow> tables_ok I (snd (m s)))"

definition keeps :: "('d \<Rightarrow> bool) \<Rightarrow> ('d, 'a) stmt \<Rightarrow> bool" where
  "keeps I q \<longleftrightarrow> (\<forall>d a d'. I d \<longrightarrow> q d = Inr (a, d') \<longrightarrow> I d')"

named_theorems safe_intros \<open>combinations of calls that keep the invariant of the tables\<close>

lemma safeI:
  "(\<And>s r s1. tables_ok I s \<Longrightarrow> m s = (r, s1) \<Longrightarrow> tables_ok I s1) \<Longrightarrow> safe I m"
  by (metis safe_def prod.collapse)

lemma safeD: "safe I m \<Longrightarrow> tables_ok I s \<Longrightarrow> m s = (r, s1) \<Longrightarrow> tables_ok I s1"
  by (metis safe_def snd_conv)

lemma safe_exec [safe_intros]:
  assumes "keeps I q"
  shows "safe I (exec c q)"
proof (rule safeI)
  fix s r s1 assume s: "tables_ok I s" and m: "exec c q s = (r, s1)"
  show "tables_ok I s1"
  proof (cases c)
    case Db
    with m have "exec_db q s = (r, s1)" by (simp add: exec_def)
    from exec_db_cases(1,2) [OF this] s assms show ?thesis by (auto simp: tables_ok_def keeps_def)
  next
    case Tx
    with m s assms show ?thesis
      by (auto simp: exec_def exec_tx_def tables_ok_def keeps_def dest!: next_fault_frame
          split: prod.splits fault.splits sum.splits option.splits bool.splits)
  qed
qed

lemma safe_fetch [safe_intros]: "safe I (fetch rows)"
  by (auto simp: safe_def tables_ok_def fetch_def split: list.splits)

lemma safe_begin_tx [safe_intros]: "safe I begin_tx"
proof (rule safeI)
  fix s r s1 assume s: "tables_ok I s" and m: "begin_tx s = (r, s1)"
  from begin_tx_cases [OF m] s show "tables_ok I s1" by (cases r) (auto simp: tables_ok_def)
qed

lemma safe_commit [safe_intros]: "safe I commit"
proof (rule safeI)
  fix s r s1 assume s: "tables_ok I s" and m: "commit s = (r, s1)"
  have "working s = Some d \<Longrightarrow> I d" for d
    using s by (auto simp: tables_ok_def working_def split: option.splits bool.splits)
  with commit_cases(1,3) [OF m] s show "tables_ok I s1" by (auto simp: tables_ok_def)
qed

lemma safe_return [safe_intros]: "safe I (\<lambda>s. (r, s))"
  by (simp add: safe_def)

lemma tables_ok_rollback: "tables_ok I s \<Longrightarrow> tables_ok I (rollback s)"
  by (simp add: tables_ok_def)

lemma safe_return_rollback [safe_intros]: "safe I (\<lambda>s. (r, rollback s))"
  by (simp add: safe_def tables_ok_rollback)

lemma safe_andThen [safe_intros]:
  assumes "safe I m" and "\<And>x. safe I (k x)"
  shows "safe I (andThen m k)"
proof (rule safeI)
  fix s r s2 assume s: "tables_ok I s" and "andThen m k s = (r, s2)"
  then show "tables_ok I s2"
    using safeD [OF assms(1) s] safeD [OF assms(2)]
    by (fastforce simp: andThen_def split: prod.splits sum.splits)
qed

lemma safe_orRollback [safe_intros]:
  assumes "safe I m"
  shows "safe I (orRollback m)"
proof (rule safeI)
  fix s r s2 assume s: "tables_ok I s" and "orRollback m s = (r, s2)"
  then show "tables_ok I s2"
    using safeD [OF assms s]
    by (auto simp: orRollback_def tables_ok_rollback split: prod.splits sum.splits)
qed

lemma keeps_query: "(\<And>d a d'. q d = Inr (a, d') \<Longrightarrow> d' = d) \<Longrightarrow> keeps I q"
  by (auto simp: keeps_def)

section \<open>When nothing fails\<close>

text \<open>No call fails any more, and every row arrives.\<close>

definition healthy :: "'d sql \<Rightarrow> bool" where
  "healthy s \<longleftrightarrow> faults s = [] \<and> cuts s = []"

lemma healthy_fetch: "healthy s \<Longrightarrow> fetch rows s = (Inr rows, s)"
  by (simp add: healthy_def fetch_def)

end
