(* ===== verification/GoStrings.thy ===== *)
theory GoStrings
  imports Prelude
begin

text \<open>
  The functions of Go's packages \<open>strings\<close> and \<open>strconv\<close> that the source calls, on byte
  strings: prefix and suffix tests, searching, splitting at one byte, joining, replacing
  single bytes (\<open>strings.NewReplacer\<close> with one-byte keys), replacing one occurrence of a
  text, and decimal conversion. An index that Go reports as \<open>-1\<close> is \<open>None\<close>.
\<close>

section \<open>Prefixes, suffixes, searching\<close>

definition has_prefix :: "string \<Rightarrow> string \<Rightarrow> bool" where
  "has_prefix s p \<longleftrightarrow> take (length p) s = p"

definition has_suffix :: "string \<Rightarrow> string \<Rightarrow> bool" where
  "has_suffix s p \<longleftrightarrow> length p \<le> length s \<and> drop (length s - length p) s = p"

fun index_byte :: "string \<Rightarrow> char \<Rightarrow> nat option" where
  "index_byte [] c = None"
| "index_byte (x # xs) c = (if x = c then Some 0 else map_option Suc (index_byte xs c))"

fun str_index :: "string \<Rightarrow> string \<Rightarrow> nat option" where
  "str_index [] p = (if p = [] then Some 0 else None)"
| "str_index (x # xs) p =
     (if has_prefix (x # xs) p then Some 0 else map_option Suc (str_index xs p))"

lemma has_prefix_iff: "has_prefix s p \<longleftrightarrow> (\<exists>r. s = p @ r)"
  unfolding has_prefix_def
  by (metis append_eq_conv_conj append_take_drop_id)

lemma has_prefix_append [simp]: "has_prefix (p @ r) p"
  by (simp add: has_prefix_def)

lemma has_suffix_iff: "has_suffix s p \<longleftrightarrow> (\<exists>r. s = r @ p)"
proof
  assume "has_suffix s p"
  then have "s = take (length s - length p) s @ p" by (metis append_take_drop_id has_suffix_def)
  then show "\<exists>r. s = r @ p" ..
qed (auto simp: has_suffix_def)

lemma index_byte_None: "index_byte s c = None \<longleftrightarrow> c \<notin> set s"
  by (induction s) auto

lemma index_byte_Some:
  "index_byte s c = Some i \<longleftrightarrow> i < length s \<and> s ! i = c \<and> c \<notin> set (take i s)"
proof (induction s arbitrary: i)
  case (Cons x xs)
  show ?case
  proof (cases "x = c")
    case True
    then show ?thesis by (cases i) auto
  next
    case False
    with Cons show ?thesis by (cases i) auto
  qed
qed simp

lemma str_index_Some:
  "str_index s p = Some i \<Longrightarrow> i + length p \<le> length s \<and> has_prefix (drop i s) p"
proof (induction s arbitrary: i)
  case (Cons x xs)
  show ?case
  proof (cases "has_prefix (x # xs) p")
    case True
    then obtain r where "x # xs = p @ r" by (auto simp: has_prefix_iff)
    then have "length p \<le> length (x # xs)" by simp
    with True Cons.prems show ?thesis by auto
  next
    case False
    with Cons.prems obtain j where "str_index xs p = Some j" and "i = Suc j" by auto
    with Cons.IH show ?thesis by auto
  qed
qed (auto simp: has_prefix_def split: if_splits)

lemma str_index_None: "str_index s p = None \<Longrightarrow> s \<noteq> a @ p @ b"
proof (induction s arbitrary: a)
  case Nil
  then show ?case by (auto split: if_splits)
next
  case (Cons x xs)
  from Cons.prems have np: "\<not> has_prefix (x # xs) p" and no: "str_index xs p = None"
    by (auto split: if_splits)
  show ?case
  proof (cases a)
    case Nil
    with np show ?thesis by (auto simp: has_prefix_iff)
  next
    case (Cons y ys)
    with Cons.IH [OF no] show ?thesis by auto
  qed
qed

section \<open>Splitting and joining\<close>

text \<open>\<open>strings.Split(s, "c")\<close> for a separator of one byte.\<close>

fun split_char :: "char \<Rightarrow> string \<Rightarrow> string list" where
  "split_char c [] = [[]]"
| "split_char c (x # xs) =
     (if x = c then [] # split_char c xs
      else (case split_char c xs of [] \<Rightarrow> [[x]] | y # ys \<Rightarrow> (x # y) # ys))"

text \<open>\<open>strings.Join\<close>.\<close>

fun str_join :: "string list \<Rightarrow> string \<Rightarrow> string" where
  "str_join [] sep = []"
| "str_join [x] sep = x"
| "str_join (x # y # ys) sep = x @ sep @ str_join (y # ys) sep"

lemma split_char_not_Nil [simp]: "split_char c s \<noteq> []"
  by (induction s) (auto split: list.splits)

lemma str_join_Cons: "xs \<noteq> [] \<Longrightarrow> str_join (x # xs) sep = x @ sep @ str_join xs sep"
  by (cases xs) auto

lemma str_join_push: "str_join ((c # y) # ys) sep = c # str_join (y # ys) sep"
  by (cases ys) auto

lemma join_split_char: "str_join (split_char c s) [c] = s"
proof (induction s)
  case (Cons x xs)
  obtain y ys where y: "split_char c xs = y # ys"
    by (cases "split_char c xs") auto
  show ?case
  proof (cases "x = c")
    case False
    with y Cons show ?thesis by (simp add: str_join_push)
  qed (use Cons in \<open>simp add: str_join_Cons\<close>)
qed simp

lemma split_char_no_sep: "y \<in> set (split_char c s) \<Longrightarrow> c \<notin> set y"
  by (induction s arbitrary: y) (auto split: list.splits if_splits)

lemma split_char_single: "c \<notin> set s \<Longrightarrow> split_char c s = [s]"
  by (induction s) auto

lemma split_char_append:
  "c \<notin> set a \<Longrightarrow> split_char c (a @ c # s) = a # split_char c s"
  by (induction a) auto

section \<open>Replacing\<close>

text \<open>\<open>strings.NewReplacer\<close> whose old strings are single bytes: every byte once.\<close>

definition byte_replacer :: "(char \<times> string) list \<Rightarrow> string \<Rightarrow> string" where
  "byte_replacer tab s =
     concat (map (\<lambda>c. case map_of tab c of Some r \<Rightarrow> r | None \<Rightarrow> [c]) s)"

lemma byte_replacer_Nil [simp]: "byte_replacer tab [] = []"
  by (simp add: byte_replacer_def)

lemma byte_replacer_Cons:
  "byte_replacer tab (c # s) =
     (case map_of tab c of Some r \<Rightarrow> r | None \<Rightarrow> [c]) @ byte_replacer tab s"
  by (simp add: byte_replacer_def)

lemma byte_replacer_append [simp]:
  "byte_replacer tab (s @ t) = byte_replacer tab s @ byte_replacer tab t"
  by (simp add: byte_replacer_def)

lemma byte_replacer_id: "\<forall>c \<in> set s. map_of tab c = None \<Longrightarrow> byte_replacer tab s = s"
  by (induction s) (auto simp: byte_replacer_Cons)

lemma set_byte_replacer:
  "set (byte_replacer tab s) \<subseteq> (set s - fst ` set tab) \<union> \<Union> (set ` snd ` set tab)"
proof (induction s)
  case (Cons c s)
  show ?case
  proof (cases "map_of tab c")
    case None
    then have "c \<notin> fst ` set tab" by (simp add: map_of_eq_None_iff)
    with Cons None show ?thesis by (auto simp: byte_replacer_Cons)
  next
    case (Some r)
    then have "r \<in> snd ` set tab" by (metis map_of_SomeD image_eqI snd_conv)
    with Cons Some show ?thesis by (auto simp: byte_replacer_Cons)
  qed
qed simp

text \<open>\<open>strings.Replace(s, old, new, 1)\<close>: the first occurrence only.\<close>

definition replace_first :: "string \<Rightarrow> string \<Rightarrow> string \<Rightarrow> string" where
  "replace_first s old new =
     (case str_index s old of
        None \<Rightarrow> s
      | Some i \<Rightarrow> take i s @ new @ drop (i + length old) s)"

text \<open>\<open>strings.TrimSpace\<close>, for the white space of ASCII.\<close>

definition white_space :: "char \<Rightarrow> bool" where
  "white_space c \<longleftrightarrow> c = CHR '' '' \<or> c \<in> set [CHR 0x09, CHR 0x0A, CHR 0x0B, CHR 0x0C, CHR 0x0D]"

definition TrimSpace :: "string \<Rightarrow> string" where
  "TrimSpace s = rev (dropWhile white_space (rev (dropWhile white_space s)))"

section \<open>Numbers\<close>

text \<open>\<open>strconv.Itoa\<close> on a non-negative number.\<close>

fun itoa :: "nat \<Rightarrow> string" where
  "itoa n = (if n < 10 then [char_of (48 + n)] else itoa (n div 10) @ [char_of (48 + n mod 10)])"

declare itoa.simps [simp del]

definition is_digit_char :: "char \<Rightarrow> bool" where
  "is_digit_char c \<longleftrightarrow> (48::nat) \<le> of_char c \<and> of_char c \<le> (57::nat)"

definition digits_value :: "string \<Rightarrow> int" where
  "digits_value s = foldl (\<lambda>v c. 10 * v + (int (of_char c) - 48)) 0 s"

text \<open>
  \<open>n, _ := strconv.Atoi(s)\<close> with the error dropped: 0 on a syntax error, the nearest
  64-bit value when the number does not fit.
\<close>

definition clamp64 :: "int \<Rightarrow> int" where
  "clamp64 v = max (- (2 ^ 63)) (min (2 ^ 63 - 1) v)"

definition atoi :: "string \<Rightarrow> int" where
  "atoi s =
     (let (neg, ds) = (case s of [] \<Rightarrow> (False, [])
                       | c # r \<Rightarrow> if c = CHR ''-'' then (True, r)
                                 else if c = CHR ''+'' then (False, r) else (False, s))
      in if ds = [] \<or> \<not> list_all is_digit_char ds then 0
         else clamp64 (if neg then - digits_value ds else digits_value ds))"

lemma itoa_digits: "list_all is_digit_char (itoa n)"
proof (induction n rule: itoa.induct)
  case (1 n)
  have "is_digit_char (char_of (48 + m))" if "m < 10" for m :: nat
    using that by (simp add: is_digit_char_def)
  with 1 show ?case by (subst itoa.simps) auto
qed

lemma itoa_not_Nil [simp]: "itoa n \<noteq> []"
  by (subst itoa.simps) simp

lemma digits_value_itoa: "digits_value (itoa n) = int n"
proof (induction n rule: itoa.induct)
  case (1 n)
  have d: "int (of_char (char_of (48 + m) :: char)) - 48 = int m" if "m < 10" for m :: nat
    using that by simp
  show ?case
  proof (cases "n < 10")
    case True
    then show ?thesis by (subst itoa.simps) (simp add: digits_value_def d)
  next
    case False
    with 1 have "digits_value (itoa (n div 10)) = int (n div 10)" by simp
    moreover have "digits_value (itoa n) = 10 * digits_value (itoa (n div 10)) + int (n mod 10)"
      using False by (subst itoa.simps) (simp add: digits_value_def d)
    ultimately show ?thesis by (simp add: zdiv_int zmod_int)
  qed
qed

lemma itoa_inj: "itoa m = itoa n \<Longrightarrow> m = n"
  by (metis digits_value_itoa of_nat_eq_iff)

end
