(* ===== verification/GoWeb.thy ===== *)
theory GoWeb
  imports Complex_Main Sql GoStrings "HOL-Library.List_Lexorder" "HOL-Library.Char_ord"
begin

text \<open>
  What the HTTP code uses of Go's standard library: escaping and encoding of URLs
  (\<open>net/url\<close>), JSON values and the decoding of objects into structs (\<open>encoding/json\<close>), requests
  and replies (\<open>net/http\<close>). The network is the environment's; a reply carries its body as text
  and as the JSON value that the text denotes, if it denotes one.
\<close>

section \<open>URLs\<close>

definition hex_digit :: "nat \<Rightarrow> char" where
  "hex_digit n = ''0123456789ABCDEF'' ! n"

definition percent :: "char \<Rightarrow> string" where
  "percent c = [CHR ''%'', hex_digit ((of_char c :: nat) div 16), hex_digit ((of_char c :: nat) mod 16)]"

definition unreserved :: "char \<Rightarrow> bool" where
  "unreserved c \<longleftrightarrow>
     c \<in> set ''abcdefghijklmnopqrstuvwxyzABCDEFGHIJKLMNOPQRSTUVWXYZ0123456789-_.~''"

definition query_char :: "char \<Rightarrow> string" where
  "query_char c = (if unreserved c then [c] else if c = CHR '' '' then ''+'' else percent c)"

definition QueryEscape :: "string \<Rightarrow> string" where
  "QueryEscape s = concat (map query_char s)"

definition PathEscape :: "string \<Rightarrow> string" where
  "PathEscape s = concat (map (\<lambda>c. if unreserved c \<or> c \<in> set ''$&+=:@'' then [c] else percent c) s)"

text \<open>\<open>url.Values\<close>: a map from keys to lists of values; \<open>Encode\<close> sorts by key.\<close>

type_synonym url_values = "(string \<times> string list) list"

definition values_encode :: "url_values \<Rightarrow> string" where
  "values_encode vs =
     str_join (concat (map (\<lambda>(k, xs). map (\<lambda>v. QueryEscape k @ ''='' @ QueryEscape v) xs)
       (sort_key fst vs))) ''&''"

definition values_del :: "string \<Rightarrow> url_values \<Rightarrow> url_values" where
  "values_del key vs = filter (\<lambda>kv. fst kv \<noteq> key) vs"

section \<open>JSON\<close>

text \<open>A number literal is an integer literal or another one.\<close>

datatype json =
    JNull
  | JBool bool
  | JInt int
  | JFloat rat
  | JStr string
  | JArr "json list"
  | JObj "(string \<times> json) list"

definition lower_char :: "char \<Rightarrow> char" where
  "lower_char c = (if 65 \<le> (of_char c :: nat) \<and> (of_char c :: nat) \<le> 90
                   then char_of ((of_char c :: nat) + 32) else c)"

definition to_lower :: "string \<Rightarrow> string" where
  "to_lower = map lower_char"

text \<open>
  Decoding into a struct: each member of the object goes to the field of that name, or failing
  that to a field whose name differs in case only; other members are skipped; members are
  taken in order, so the last one wins; \<open>null\<close> leaves a field, and a struct, as it is.
\<close>

type_synonym 's field_dec = "string \<times> (json \<Rightarrow> 's \<Rightarrow> 's res)"

definition find_field :: "'s field_dec list \<Rightarrow> string \<Rightarrow> (json \<Rightarrow> 's \<Rightarrow> 's res) option" where
  "find_field fs k =
     (case find (\<lambda>f. fst f = k) fs of
        Some f \<Rightarrow> Some (snd f)
      | None \<Rightarrow> map_option snd (find (\<lambda>f. to_lower (fst f) = to_lower k) fs))"

fun decode_members :: "'s field_dec list \<Rightarrow> (string \<times> json) list \<Rightarrow> 's \<Rightarrow> 's res" where
  "decode_members fs [] s = Inr s"
| "decode_members fs ((k, v) # ms) s =
     (case find_field fs k of
        None \<Rightarrow> decode_members fs ms s
      | Some f \<Rightarrow> (case f v s of Inl e \<Rightarrow> Inl e | Inr s' \<Rightarrow> decode_members fs ms s'))"

definition decode_struct :: "'s field_dec list \<Rightarrow> 's \<Rightarrow> json \<Rightarrow> 's res" where
  "decode_struct fs zero j =
     (case j of
        JNull \<Rightarrow> Inr zero
      | JObj ms \<Rightarrow> decode_members fs ms zero
      | _ \<Rightarrow> Inl (JsonError ''json: cannot unmarshal into Go value of type struct''))"

definition string_field :: "((string \<Rightarrow> string) \<Rightarrow> 's \<Rightarrow> 's) \<Rightarrow> json \<Rightarrow> 's \<Rightarrow> 's res" where
  "string_field upd j s =
     (case j of JStr x \<Rightarrow> Inr (upd (\<lambda>_. x) s) | JNull \<Rightarrow> Inr s
      | _ \<Rightarrow> Inl (JsonError ''json: cannot unmarshal into Go struct field of type string''))"

definition bool_field :: "((bool \<Rightarrow> bool) \<Rightarrow> 's \<Rightarrow> 's) \<Rightarrow> json \<Rightarrow> 's \<Rightarrow> 's res" where
  "bool_field upd j s =
     (case j of JBool x \<Rightarrow> Inr (upd (\<lambda>_. x) s) | JNull \<Rightarrow> Inr s
      | _ \<Rightarrow> Inl (JsonError ''json: cannot unmarshal into Go struct field of type bool''))"

definition int_field :: "((int \<Rightarrow> int) \<Rightarrow> 's \<Rightarrow> 's) \<Rightarrow> json \<Rightarrow> 's \<Rightarrow> 's res" where
  "int_field upd j s =
     (case j of
        JInt x \<Rightarrow> if - (2 ^ 63) \<le> x \<and> x < 2 ^ 63 then Inr (upd (\<lambda>_. x) s)
                  else Inl (JsonError ''json: cannot unmarshal number into Go struct field of type int'')
      | JNull \<Rightarrow> Inr s
      | _ \<Rightarrow> Inl (JsonError ''json: cannot unmarshal into Go struct field of type int''))"

definition float_field :: "((rat \<Rightarrow> rat) \<Rightarrow> 's \<Rightarrow> 's) \<Rightarrow> json \<Rightarrow> 's \<Rightarrow> 's res" where
  "float_field upd j s =
     (case j of JInt x \<Rightarrow> Inr (upd (\<lambda>_. of_int x) s) | JFloat x \<Rightarrow> Inr (upd (\<lambda>_. x) s) | JNull \<Rightarrow> Inr s
      | _ \<Rightarrow> Inl (JsonError ''json: cannot unmarshal into Go struct field of type float64''))"

definition any_field :: "((json \<Rightarrow> json) \<Rightarrow> 's \<Rightarrow> 's) \<Rightarrow> json \<Rightarrow> 's \<Rightarrow> 's res" where
  "any_field upd j s = Inr (upd (\<lambda>_. j) s)"

fun decode_elems :: "(json \<Rightarrow> 'a res) \<Rightarrow> json list \<Rightarrow> 'a list res" where
  "decode_elems d [] = Inr []"
| "decode_elems d (j # js) =
     (case d j of Inl e \<Rightarrow> Inl e
      | Inr x \<Rightarrow> (case decode_elems d js of Inl e \<Rightarrow> Inl e | Inr xs \<Rightarrow> Inr (x # xs)))"

definition decode_list :: "(json \<Rightarrow> 'a res) \<Rightarrow> json \<Rightarrow> 'a list res" where
  "decode_list d j =
     (case j of
        JNull \<Rightarrow> Inr []
      | JArr js \<Rightarrow> decode_elems d js
      | _ \<Rightarrow> Inl (JsonError ''json: cannot unmarshal into Go value of type slice''))"

text \<open>A \<open>map[string]interface{}\<close>: the last member of a name counts.\<close>

definition decode_map :: "json \<Rightarrow> (string \<rightharpoonup> json) res" where
  "decode_map j =
     (case j of
        JNull \<Rightarrow> Inr Map.empty
      | JObj ms \<Rightarrow> Inr (map_of (rev ms))
      | _ \<Rightarrow> Inl (JsonError ''json: cannot unmarshal into Go value of type map''))"

section \<open>Requests and replies\<close>

datatype req_body = NoBody | TextBody string | JsonBody json

record request =
  rq_method :: string
  rq_url :: string
  rq_type :: string
  rq_auth :: string
  rq_body :: req_body

text \<open>
  \<open>HttpFail\<close>: \<open>NewRequest\<close> or \<open>Do\<close> returns an error. \<open>Reply\<close>: the status code, the status text, the
  body, and the JSON value of the body or the error of decoding it.
\<close>

datatype reply =
    HttpFail goerror
  | Reply int string string "json res"

definition get_request :: "string \<Rightarrow> request" where
  "get_request url = \<lparr>rq_method = ''GET'', rq_url = url, rq_type = '''', rq_auth = '''', rq_body = NoBody\<rparr>"

definition delete_request :: "string \<Rightarrow> request" where
  "delete_request url =
     \<lparr>rq_method = ''DELETE'', rq_url = url, rq_type = '''', rq_auth = '''', rq_body = NoBody\<rparr>"

definition post_request :: "string \<Rightarrow> string \<Rightarrow> req_body \<Rightarrow> request" where
  "post_request url typ body =
     \<lparr>rq_method = ''POST'', rq_url = url, rq_type = typ, rq_auth = '''', rq_body = body\<rparr>"

section \<open>Escaped values stay in their place\<close>

lemma hex_digit_plain: "n < 16 \<Longrightarrow> hex_digit n \<in> set ''0123456789ABCDEF''"
  unfolding hex_digit_def by (rule nth_mem) simp

lemma QueryEscape_plain:
  "c \<in> set (QueryEscape s) \<Longrightarrow> unreserved c \<or> c = CHR ''%'' \<or> c = CHR ''+''"
proof -
  assume "c \<in> set (QueryEscape s)"
  then obtain x where x: "c \<in> set (query_char x)" by (auto simp: QueryEscape_def)
  have "c = CHR ''%'' \<or> c \<in> set ''0123456789ABCDEF''" if "c \<in> set (percent x)"
  proof -
    have "(of_char x :: nat) div 16 < 16" by (rule less_mult_imp_div_less) (use nat_of_char_less_256 [of x] in linarith)
    from that hex_digit_plain [OF this] hex_digit_plain [of "of_char x mod 16"] show ?thesis
      unfolding percent_def by (simp only: set_simps) (metis empty_iff insert_iff mod_less_divisor zero_less_numeral)
  qed
  moreover have "unreserved d" if "d \<in> set ''0123456789ABCDEF''" for d
    using that by (auto simp: unreserved_def)
  ultimately show ?thesis using x unfolding query_char_def
    by (cases "unreserved x"; cases "x = CHR '' ''") auto
qed

end
