(* ===== verification/Router.thy ===== *)
theory Router
  imports GoWeb
begin

text \<open>
  From a request to its handler: the patterns that the endpoints register (\<open>lib/api\<close>), the
  multiplexer of \<open>net/http\<close> that takes them, and the middleware of \<open>api/util/cors.go\<close>. A request is
  a method and the escaped path as it was received.
\<close>

section \<open>The registered patterns\<close>

datatype endpoint =
    Ep_Deploy | Ep_DeleteDeployment | Ep2_StartProcessDefinition
   | Ep2_StartProcessDefinitionAndGetInstanceId | Ep2_GetDeployment | Ep2_DeploymentExists
   | Ep2_StartDeployment | Ep2_GetDeploymentParameters | Ep2_GetDeploymentDefinition
   | Ep2_GetDeploymentInstances | Ep2_ListDeployments | Ep2_GetProcessDefinition
   | Ep2_GetProcessDefinitionDiagram | Ep2_ListProcessInstances | Ep2_GetProcessInstanceCount
   | Ep2_GetHistoricProcessInstances | Ep2_DeleteHistoricProcessInstance
   | Ep2_DeleteProcessInstance | Ep2_SetProcessInstanceVariable
   | Ep2_DeleteProcessMultipleInstances | Ep2_DeleteMultipleHistoricProcessInstances
   | Ep2_DeleteProcessInstancesByBusinessKey | Ep2_TriggerEvent | Ep1_HealthCheck
   | Ep1_StartProcessDefinition | Ep1_StartProcessDefinitionAndGetInstanceId
   | Ep1_GetDeployment | Ep1_DeploymentExists | Ep1_StartDeployment
   | Ep1_GetDeploymentParameters | Ep1_GetDeploymentDefinition | Ep1_GetDeployments
   | Ep1_GetProcessDefinition | Ep1_GetProcessDefinitionDiagram | Ep1_GetProcessInstances
   | Ep1_GetProcessInstanceCount | Ep1_GetHistoricProcessInstances
   | Ep1_GetFilteredHistoricProcessInstances | Ep1_GetFinishedProcessInstances
   | Ep1_FindFinishedProcessInstances | Ep1_FindUnfinishedProcessInstances
   | Ep1_GetUnfinishedProcessInstances | Ep1_GetHistoricProcessInstancesOfProcessDefinition
   | Ep1_GetFinishedProcessInstancesOfProcessDefinition
   | Ep1_GetUnfinishedProcessInstancesOfProcessDefinition | Ep1_DeleteHistoricPricessInstance
   | Ep1_DeleteProcessInstance | Ep_Swagger

definition deploy_routes :: "(string \<times> endpoint) list" where
  "deploy_routes =
    [(''PUT /process-deployments'', Ep_Deploy),
     (''DELETE /process-deployments/{userid}/{deplid}'', Ep_DeleteDeployment)]"

definition v2_routes :: "(string \<times> endpoint) list" where
  "v2_routes =
    [(''GET /v2/process-definitions/{id}/start'', Ep2_StartProcessDefinition),
     (''GET /v2/process-definitions/{id}/start/id'', Ep2_StartProcessDefinitionAndGetInstanceId),
     (''GET /v2/deployments/{id}'', Ep2_GetDeployment),
     (''GET /v2/deployments/{id}/exists'', Ep2_DeploymentExists),
     (''GET /v2/deployments/{id}/start'', Ep2_StartDeployment),
     (''GET /v2/deployments/{id}/parameter'', Ep2_GetDeploymentParameters),
     (''GET /v2/deployments/{id}/definition'', Ep2_GetDeploymentDefinition),
     (''GET /v2/deployments/{id}/instances'', Ep2_GetDeploymentInstances),
     (''GET /v2/deployments'', Ep2_ListDeployments),
     (''GET /v2/process-definitions/{id}'', Ep2_GetProcessDefinition),
     (''GET /v2/process-definitions/{id}/diagram'', Ep2_GetProcessDefinitionDiagram),
     (''GET /v2/process-instances'', Ep2_ListProcessInstances),
     (''GET /v2/process-instances/count'', Ep2_GetProcessInstanceCount),
     (''GET /v2/history/process-instances'', Ep2_GetHistoricProcessInstances),
     (''DELETE /v2/history/process-instances/{id}'', Ep2_DeleteHistoricProcessInstance),
     (''DELETE /v2/process-instances/{id}'', Ep2_DeleteProcessInstance),
     (''PUT /v2/process-instances/{id}/variables/{variable_name}'', Ep2_SetProcessInstanceVariable),
     (''DELETE /v2/process-instances'', Ep2_DeleteProcessMultipleInstances),
     (''DELETE /v2/history/process-instances'', Ep2_DeleteMultipleHistoricProcessInstances),
     (''DELETE /v2/process-instances-by-business-key/{business_key}'', Ep2_DeleteProcessInstancesByBusinessKey),
     (''POST /v2/event-trigger'', Ep2_TriggerEvent)]"

definition v1_routes :: "(string \<times> endpoint) list" where
  "v1_routes =
    [(''GET /'', Ep1_HealthCheck),
     (''GET /process-definition/{id}/start'', Ep1_StartProcessDefinition),
     (''GET /process-definition/{id}/start/id'', Ep1_StartProcessDefinitionAndGetInstanceId),
     (''GET /deployment/{id}'', Ep1_GetDeployment),
     (''GET /deployment/{id}/exists'', Ep1_DeploymentExists),
     (''GET /deployment/{id}/start'', Ep1_StartDeployment),
     (''GET /deployment/{id}/parameter'', Ep1_GetDeploymentParameters),
     (''GET /deployment/{id}/definition'', Ep1_GetDeploymentDefinition),
     (''GET /deployment'', Ep1_GetDeployments),
     (''GET /process-definition/{id}'', Ep1_GetProcessDefinition),
     (''GET /process-definition/{id}/diagram'', Ep1_GetProcessDefinitionDiagram),
     (''GET /process-instance'', Ep1_GetProcessInstances),
     (''GET /process-instances/count'', Ep1_GetProcessInstanceCount),
     (''GET /history/process-instance'', Ep1_GetHistoricProcessInstances),
     (''GET /history/filtered/process-instance'', Ep1_GetFilteredHistoricProcessInstances),
     (''GET /history/finished/process-instance'', Ep1_GetFinishedProcessInstances),
     (''GET /history/finished/process-instance/{searchtype}/{searchvalue}/{limit}/{offset}/{sortby}/{sortdirection}'', Ep1_FindFinishedProcessInstances),
     (''GET /history/unfinished/process-instance/{searchtype}/{searchvalue}/{limit}/{offset}/{sortby}/{sortdirection}'', Ep1_FindUnfinishedProcessInstances),
     (''GET /history/unfinished/process-instance'', Ep1_GetUnfinishedProcessInstances),
     (''GET /history/process-definition/{id}/process-instance'', Ep1_GetHistoricProcessInstancesOfProcessDefinition),
     (''GET /history/process-definition/{id}/process-instance/finished'', Ep1_GetFinishedProcessInstancesOfProcessDefinition),
     (''GET /history/process-definition/{id}/process-instance/unfinished'', Ep1_GetUnfinishedProcessInstancesOfProcessDefinition),
     (''DELETE /history/process-instance/{id}'', Ep1_DeleteHistoricPricessInstance),
     (''DELETE /process-instance/{id}'', Ep1_DeleteProcessInstance)]"

definition swagger_routes :: "(string \<times> endpoint) list" where
  "swagger_routes = [(''GET /doc'', Ep_Swagger)]"

definition routes :: "(string \<times> endpoint) list" where
  "routes = deploy_routes @ swagger_routes @ v1_routes @ v2_routes"

section \<open>The multiplexer\<close>

text \<open>
  A pattern is a method and segments: literals, wildcards, and at the end of a pattern with a
  trailing slash one for any rest. The names of its wildcards are kept beside.
\<close>

datatype segment = Lit string | Wild | Rest

definition parse_segment :: "string \<Rightarrow> segment" where
  "parse_segment s = (case s of [] \<Rightarrow> Rest | c # cs \<Rightarrow> if c = CHR ''{'' then Wild else Lit s)"

definition wildcard_names :: "string list \<Rightarrow> string list" where
  "wildcard_names ss = map (\<lambda>s. butlast (tl s)) (filter (\<lambda>s. parse_segment s = Wild) ss)"

type_synonym 'e route = "segment list \<times> string list \<times> 'e"

definition pattern_method :: "string \<Rightarrow> string" where
  "pattern_method p = hd (split_char CHR '' '' p)"

definition pattern_segments :: "string \<Rightarrow> string list" where
  "pattern_segments p = tl (split_char CHR ''/'' (last (split_char CHR '' '' p)))"

definition parse_pattern :: "string \<times> 'e \<Rightarrow> 'e route" where
  "parse_pattern r =
     (map parse_segment (pattern_segments (fst r)), wildcard_names (pattern_segments (fst r)), snd r)"

text \<open>\<open>url.PathUnescape\<close>; the multiplexer takes a segment that it refuses as it is.\<close>

definition unhex :: "char \<Rightarrow> nat option" where
  "unhex c =
     (let n = of_char c in
      if 48 \<le> n \<and> n \<le> 57 then Some (n - 48) else if 65 \<le> n \<and> n \<le> 70 then Some (n - 55)
      else if 97 \<le> n \<and> n \<le> 102 then Some (n - 87) else None)"

fun PathUnescape :: "string \<Rightarrow> string option" where
  "PathUnescape [] = Some []"
| "PathUnescape (c # cs) =
     (if c = CHR ''%'' then
        (case cs of
           a # b # ds \<Rightarrow>
             (case (unhex a, unhex b) of
                (Some x, Some y) \<Rightarrow> map_option (Cons (char_of (16 * x + y))) (PathUnescape ds)
              | _ \<Rightarrow> None)
         | _ \<Rightarrow> None)
      else map_option (Cons c) (PathUnescape cs))"

definition unescape_segment :: "string \<Rightarrow> string" where
  "unescape_segment s = (case PathUnescape s of None \<Rightarrow> s | Some t \<Rightarrow> t)"

text \<open>The segments of a path that begins with a slash; a trailing slash is a segment \<open>/\<close> of its own.\<close>

definition path_segments :: "string \<Rightarrow> string list" where
  "path_segments p =
     (let ss = tl (split_char CHR ''/'' p)
      in map unescape_segment (butlast ss) @ [if last ss = [] then ''/'' else unescape_segment (last ss)])"

text \<open>The children of a node of the routing tree, which is given by the patterns below it.\<close>

definition child :: "segment \<Rightarrow> 'e route list \<Rightarrow> 'e route list" where
  "child s rs = map (\<lambda>(ss, e). (tl ss, e)) (filter (\<lambda>r. fst r \<noteq> [] \<and> hd (fst r) = s) rs)"

definition or_else :: "'a option \<Rightarrow> 'a option \<Rightarrow> 'a option" where
  "or_else a b = (case a of None \<Rightarrow> b | Some x \<Rightarrow> Some x)"

definition at_leaf :: "'e route list \<Rightarrow> ((string list \<times> 'e) \<times> string list) option" where
  "at_leaf rs = (case filter (\<lambda>r. fst r = []) rs of [] \<Rightarrow> None | (ss, e) # _ \<Rightarrow> Some (e, []))"

fun matchPath :: "'e route list \<Rightarrow> string list \<Rightarrow> ((string list \<times> 'e) \<times> string list) option" where
  "matchPath rs [] = at_leaf rs"
| "matchPath rs (seg # segs) =
     or_else (matchPath (child (Lit seg) rs) segs)
    (or_else (if seg \<noteq> ''/'' then map_option (\<lambda>(e, vs). (e, seg # vs)) (matchPath (child Wild rs) segs)
              else None)
             (at_leaf (child Rest rs)))"

text \<open>\<open>cleanPath\<close>: without empty and dot segments, but with its trailing slash.\<close>

definition clean_step :: "string list \<Rightarrow> string \<Rightarrow> string list" where
  "clean_step acc s =
     (if s = [] \<or> s = ''.'' then acc else if s = ''..'' then butlast acc else acc @ [s])"

definition cleanPath :: "string \<Rightarrow> string" where
  "cleanPath p =
     (let q = (if p = [] \<or> hd p \<noteq> CHR ''/'' then CHR ''/'' # p else p);
          np = CHR ''/'' # str_join (foldl clean_step [] (split_char CHR ''/'' q)) ''/''
      in if last q = CHR ''/'' \<and> np \<noteq> ''/'' then np @ ''/'' else np)"

datatype routed =
    Served endpoint "(string \<times> string) list"
  | Redirected string
  | MethodNotAllowed
  | NotFound

text \<open>The patterns of a method; those for \<open>GET\<close> take \<open>HEAD\<close> as well, after its own.\<close>

definition routes_for :: "string \<Rightarrow> endpoint route list" where
  "routes_for meth = map parse_pattern (filter (\<lambda>r. pattern_method (fst r) = meth) routes)"

definition match_method :: "string \<Rightarrow> string \<Rightarrow> ((string list \<times> endpoint) \<times> string list) option" where
  "match_method meth path =
     or_else (matchPath (routes_for meth) (path_segments path))
       (if meth = ''HEAD'' then matchPath (routes_for ''GET'') (path_segments path) else None)"

text \<open>
  A path that is not clean is redirected (301) to the clean one. The path is the escaped one of the
  request, and \<open>net/http\<close> makes a \<open>url.URL\<close> with it as its \<open>Path\<close>, whose \<open>String\<close> escapes it again (the
  query stays): a \<open>%\<close> becomes \<open>%25\<close>. The methods of the patterns are four; a path that only another of
  them has is answered by 405.
\<close>

definition path_char :: "char \<Rightarrow> string" where
  "path_char c = (if unreserved c \<or> c \<in> set ''$&+,/:;=@'' then [c] else percent c)"

definition escape_path :: "string \<Rightarrow> string" where
  "escape_path p = concat (map path_char p)"

definition dispatch :: "string \<Rightarrow> string \<Rightarrow> routed" where
  "dispatch meth target =
     (let path = cleanPath target
      in if path \<noteq> target then Redirected (escape_path path)
         else (case match_method meth path of
                 Some ((names, ep), vals) \<Rightarrow> Served ep (zip names vals)
               | None \<Rightarrow>
                   if \<exists>m \<in> set [''GET'', ''PUT'', ''POST'', ''DELETE'']. match_method m path \<noteq> None
                   then MethodNotAllowed else NotFound))"

section \<open>Cross-origin requests\<close>

text \<open>The headers that every answer gets; \<open>OPTIONS\<close> is answered without asking the endpoints.\<close>

definition cors_headers :: "string \<Rightarrow> (string \<times> string) list" where
  "cors_headers origin =
     [(''Access-Control-Allow-Origin'', if origin = '''' then ''*'' else origin),
      (''Access-Control-Allow-Headers'',
         ''Origin, X-Requested-With, Content-Type, Accept, authorization, Authorization''),
      (''Access-Control-Allow-Credentials'', ''true''),
      (''Access-Control-Allow-Methods'', ''POST, GET, OPTIONS, PUT, DELETE'')]"

definition CorsMiddleware :: "string \<Rightarrow> (string \<Rightarrow> 'r) \<Rightarrow> 'r \<Rightarrow> string \<Rightarrow> (string \<times> string) list \<times> 'r" where
  "CorsMiddleware origin handler ok meth =
     (cors_headers origin, if meth = ''OPTIONS'' then ok else handler meth)"

section \<open>Escaping and unescaping\<close>

lemma unhex_digit: "n < 16 \<Longrightarrow> unhex (hex_digit n) = Some n"
proof -
  have "\<forall>n \<in> set [0..<16]. unhex (hex_digit n) = Some n" by code_simp
  then show "n < 16 \<Longrightarrow> unhex (hex_digit n) = Some n" by simp
qed

lemma PathUnescape_percent: "PathUnescape (percent c @ s) = map_option (Cons c) (PathUnescape s)"
proof -
  have "(of_char c :: nat) < 256" by (rule nat_of_char_less_256)
  then have "(of_char c :: nat) div 16 < 16" by (simp add: less_mult_imp_div_less)
  then show ?thesis by (simp add: percent_def unhex_digit)
qed

lemma PathUnescape_PathEscape: "PathUnescape (PathEscape s) = Some s"
proof (induction s)
  case (Cons c s)
  have "PathUnescape (c # t) = map_option (Cons c) (PathUnescape t)"
    if "unreserved c \<or> c \<in> set ''$&+=:@''" for t
  proof -
    have "c \<noteq> CHR ''%''" using that by (cases "c = CHR ''%''") (simp_all add: unreserved_def)
    then show ?thesis by simp
  qed
  with Cons show ?case by (simp add: PathEscape_def PathUnescape_percent)
qed (simp add: PathEscape_def)

lemma PathEscape_no_slash: "CHR ''/'' \<notin> set (PathEscape s)"
proof -
  have h: "CHR ''/'' \<noteq> hex_digit n" if "n < 16" for n
    using hex_digit_plain [OF that] by auto
  have d: "(of_char c :: nat) div 16 < 16" for c
    using nat_of_char_less_256 [of c] by (simp add: less_mult_imp_div_less)
  have p: "CHR ''/'' \<notin> set (percent c)" for c
    using h [OF d] h [of "of_char c mod 16"] by (simp add: percent_def)
  have "CHR ''/'' \<notin> set (if unreserved c \<or> c \<in> set ''$&+=:@'' then [c] else percent c)" for c
    by (cases "c = CHR ''/''") (simp_all add: p unreserved_def)
  then show ?thesis unfolding PathEscape_def set_concat set_map by blast
qed

lemma PathEscape_plain: "c \<in> set (PathEscape s) \<Longrightarrow> unreserved c \<or> c \<in> set ''%$&+=:@''"
proof -
  assume "c \<in> set (PathEscape s)"
  then obtain x where x: "c \<in> set (if unreserved x \<or> x \<in> set ''$&+=:@'' then [x] else percent x)"
    unfolding PathEscape_def set_concat set_map by blast
  have d: "(of_char x :: nat) div 16 < 16"
    using nat_of_char_less_256 [of x] by (simp add: less_mult_imp_div_less)
  have "c \<in> set ''%0123456789ABCDEF''" if "c \<in> set (percent x)"
    using that hex_digit_plain [OF d] hex_digit_plain [of "of_char x mod 16"] by (auto simp: percent_def)
  moreover have "unreserved c \<or> c = CHR ''%''" if "c \<in> set ''%0123456789ABCDEF''"
    using that by (auto simp: unreserved_def)
  ultimately show ?thesis using x by (auto split: if_splits)
qed

text \<open>What can be the value of a wildcard: the other texts are no segment, or one with a meaning.\<close>

definition segment_value :: "string \<Rightarrow> bool" where
  "segment_value v \<longleftrightarrow> v \<notin> set ['''', ''.'', ''..'', ''/'']"

lemma segment_value_escaped:
  assumes "segment_value v"
  shows "PathEscape v \<noteq> ''''" "PathEscape v \<noteq> ''.''" "PathEscape v \<noteq> ''..''"
  using assms PathUnescape_PathEscape [of v] by (auto simp: segment_value_def)

lemma unescape_PathEscape [simp]: "unescape_segment (PathEscape s) = s"
  by (simp add: unescape_segment_def PathUnescape_PathEscape)

section \<open>Paths of segments\<close>

definition path_of :: "string list \<Rightarrow> string" where
  "path_of ss = CHR ''/'' # str_join ss ''/''"

text \<open>Segments as they stand in a clean path.\<close>

definition plain_segment :: "string \<Rightarrow> bool" where
  "plain_segment s \<longleftrightarrow> CHR ''/'' \<notin> set s \<and> s \<notin> set ['''', ''.'', ''..'']"

lemma split_str_join:
  "ss \<noteq> [] \<Longrightarrow> list_all (\<lambda>s. CHR ''/'' \<notin> set s) ss \<Longrightarrow> split_char CHR ''/'' (str_join ss ''/'') = ss"
proof (induction ss)
  case (Cons s ss)
  then show ?case
    by (cases "ss = []") (simp_all add: split_char_single str_join_Cons split_char_append)
qed simp

lemma plain_no_slash: "list_all plain_segment ss \<Longrightarrow> list_all (\<lambda>s. CHR ''/'' \<notin> set s) ss"
  by (auto simp: list_all_iff plain_segment_def)

lemma split_path_of:
  assumes "ss \<noteq> []" and "list_all plain_segment ss"
  shows "split_char CHR ''/'' (path_of ss) = [] # ss"
  using split_char_append [of "CHR ''/''" "[]" "str_join ss ''/''"] split_str_join assms plain_no_slash
  by (simp add: path_of_def)

lemma clean_plain: "list_all plain_segment ss \<Longrightarrow> foldl clean_step acc ss = acc @ ss"
  by (induction ss arbitrary: acc) (auto simp: plain_segment_def clean_step_def)

lemma last_str_join: "ss \<noteq> [] \<Longrightarrow> list_all plain_segment ss \<Longrightarrow>
    str_join ss ''/'' \<noteq> [] \<and> last (str_join ss ''/'') \<noteq> CHR ''/''"
proof (induction ss)
  case (Cons s ss)
  then have "s \<noteq> []" "CHR ''/'' \<notin> set s" by (simp_all add: plain_segment_def)
  moreover from this have "last s \<noteq> CHR ''/''" by (metis last_in_set)
  ultimately show ?case using Cons by (cases "ss = []") (simp_all add: str_join_Cons)
qed simp

lemma cleanPath_path_of:
  assumes "ss \<noteq> []" and "list_all plain_segment ss"
  shows "cleanPath (path_of ss) = path_of ss"
proof -
  have "foldl clean_step [] (split_char CHR ''/'' (path_of ss)) = ss"
    using clean_plain [OF assms(2), of "[]"] by (simp add: split_path_of [OF assms] clean_step_def)
  moreover have "last (path_of ss) \<noteq> CHR ''/''"
    using last_str_join [OF assms] by (simp add: path_of_def)
  ultimately show ?thesis by (simp add: cleanPath_def Let_def path_of_def)
qed

lemma path_segments_path_of:
  assumes "ss \<noteq> []" and "list_all plain_segment ss"
  shows "path_segments (path_of ss) = map unescape_segment ss"
proof -
  have "last ss \<in> set ss" using assms(1) by simp
  with assms(2) have "last ss \<noteq> []" by (auto simp: list_all_iff plain_segment_def)
  moreover have "map unescape_segment (butlast ss) @ [unescape_segment (last ss)] = map unescape_segment ss"
    using assms(1) by (metis append_butlast_last_id list.simps(8,9) map_append)
  ultimately show ?thesis by (simp add: path_segments_def split_path_of [OF assms] Let_def)
qed

section \<open>The routing tree\<close>

text \<open>Reference: a pattern covers the segments one by one, and its rest covers what is left.\<close>

fun covers :: "segment list \<Rightarrow> string list \<Rightarrow> bool" where
  "covers [] segs \<longleftrightarrow> segs = []"
| "covers (Lit l # ss) segs \<longleftrightarrow> (case segs of [] \<Rightarrow> False | x # xs \<Rightarrow> x = l \<and> covers ss xs)"
| "covers (Wild # ss) segs \<longleftrightarrow> (case segs of [] \<Rightarrow> False | x # xs \<Rightarrow> x \<noteq> ''/'' \<and> covers ss xs)"
| "covers (Rest # ss) segs \<longleftrightarrow> ss = [] \<and> segs \<noteq> []"

fun wild_values :: "segment list \<Rightarrow> string list \<Rightarrow> string list" where
  "wild_values (Wild # ss) (x # xs) = x # wild_values ss xs"
| "wild_values (s # ss) (x # xs) = wild_values ss xs"
| "wild_values ss segs = []"

lemma covers_Nil [simp]: "covers ss [] \<longleftrightarrow> ss = []"
proof (cases ss)
  case (Cons s xs)
  then show ?thesis by (cases s) simp_all
qed simp

lemma in_child: "(ss, e) \<in> set (child s rs) \<longleftrightarrow> (s # ss, e) \<in> set rs"
proof -
  have "(ss, e) \<in> set (child s rs) \<longleftrightarrow> (\<exists>r \<in> set rs. fst r \<noteq> [] \<and> hd (fst r) = s \<and> tl (fst r) = ss \<and> snd r = e)"
    by (auto simp: child_def split: prod.splits)
  also have "\<dots> \<longleftrightarrow> (s # ss, e) \<in> set rs"
    by (metis fst_conv list.sel(1,3) list.simps(3) list.exhaust_sel prod.collapse snd_conv)
  finally show ?thesis .
qed

lemma at_leaf_Some: "at_leaf rs = Some (e, vs) \<Longrightarrow> ([], e) \<in> set rs \<and> vs = []"
proof -
  assume a: "at_leaf rs = Some (e, vs)"
  then obtain ss tl where t: "filter (\<lambda>r. fst r = []) rs = (ss, e) # tl" "vs = []"
    by (auto simp: at_leaf_def split: list.splits)
  then have "(ss, e) \<in> set (filter (\<lambda>r. fst r = []) rs)" by simp
  with t(2) show ?thesis by auto
qed

lemma at_leaf_None: "at_leaf rs = None \<longleftrightarrow> (\<forall>e. ([], e) \<notin> set rs)"
proof -
  have "at_leaf rs = None \<longleftrightarrow> filter (\<lambda>r. fst r = []) rs = []"
    by (auto simp: at_leaf_def split: list.split)
  then show ?thesis by (auto simp: filter_empty_conv)
qed

lemma or_else_Some: "or_else a b = Some x \<longleftrightarrow> a = Some x \<or> (a = None \<and> b = Some x)"
  by (auto simp: or_else_def split: option.splits)

lemma or_else_None: "or_else a b = None \<longleftrightarrow> a = None \<and> b = None"
  by (auto simp: or_else_def split: option.splits)

lemma matchPath_sound:
  "matchPath rs segs = Some (e, vs) \<Longrightarrow> \<exists>ss. (ss, e) \<in> set rs \<and> covers ss segs \<and> vs = wild_values ss segs"
proof (induction segs arbitrary: rs e vs)
  case Nil
  then show ?case using at_leaf_Some by fastforce
next
  case (Cons seg segs)
  from Cons.prems consider "matchPath (child (Lit seg) rs) segs = Some (e, vs)"
    | vs' where "seg \<noteq> ''/''" "matchPath (child Wild rs) segs = Some (e, vs')" "vs = seg # vs'"
    | "at_leaf (child Rest rs) = Some (e, vs)"
    by (auto simp: or_else_Some split: if_splits)
  then show ?case
  proof cases
    case 1
    from Cons.IH [OF 1] obtain ss where "(Lit seg # ss, e) \<in> set rs" "covers ss segs" "vs = wild_values ss segs"
      by (auto simp: in_child)
    then show ?thesis by (intro exI [of _ "Lit seg # ss"]) simp
  next
    case 2
    from Cons.IH [OF 2(2)] obtain ss where "(Wild # ss, e) \<in> set rs" "covers ss segs" "vs' = wild_values ss segs"
      by (auto simp: in_child)
    with 2 show ?thesis by (intro exI [of _ "Wild # ss"]) simp
  next
    case 3
    from at_leaf_Some [OF 3] have "([Rest], e) \<in> set rs" "vs = []" by (auto simp: in_child)
    then show ?thesis by (intro exI [of _ "[Rest]"]) (simp add: wild_values.simps)
  qed
qed

lemma matchPath_complete: "(ss, e) \<in> set rs \<Longrightarrow> covers ss segs \<Longrightarrow> matchPath rs segs \<noteq> None"
proof (induction segs arbitrary: rs ss)
  case Nil
  then have "ss = []" by simp
  with Nil have "at_leaf rs \<noteq> None" by (simp only: at_leaf_None) blast
  then show ?case by simp
next
  case (Cons seg segs)
  then obtain s ss' where ss: "ss = s # ss'" by (cases ss) auto
  have c: "(ss', e) \<in> set (child s rs)" using Cons.prems(1) ss by (simp add: in_child)
  show ?case
  proof (cases s)
    case (Lit l)
    with Cons.prems(2) ss have "l = seg" "covers ss' segs" by auto
    with Cons.IH c Lit show ?thesis by (auto simp: or_else_None simp del: not_None_eq)
  next
    case Wild
    with Cons.prems(2) ss have "seg \<noteq> ''/''" "covers ss' segs" by auto
    with Cons.IH c Wild show ?thesis by (auto simp: or_else_None simp del: not_None_eq)
  next
    case Rest
    with Cons.prems(2) ss c have "([], e) \<in> set (child Rest rs)" by simp
    then have "at_leaf (child Rest rs) \<noteq> None" by (simp only: at_leaf_None) blast
    then show ?thesis by (auto simp: or_else_None simp del: not_None_eq)
  qed
qed

text \<open>Of several patterns, a wildcard for the rest of the whole path comes last.\<close>

lemma matchPath_before_rest:
  assumes "(ss, e) \<in> set rs" and "covers ss (seg # segs)" and "ss \<noteq> [Rest]"
  shows "matchPath rs (seg # segs) = matchPath (filter (\<lambda>r. fst r \<noteq> [Rest]) rs) (seg # segs)"
proof -
  let ?rs = "filter (\<lambda>r. fst r \<noteq> [Rest]) rs"
  have c: "child (Lit l) ?rs = child (Lit l) rs" "child Wild ?rs = child Wild rs" for l
    by (simp_all add: child_def filter_filter, (rule arg_cong [of _ _ "map _"], rule filter_cong, auto)+)
  have "(ss, e) \<in> set ?rs" using assms by simp
  then have m: "matchPath ?rs (seg # segs) \<noteq> None" by (rule matchPath_complete [OF _ assms(2)])
  have "at_leaf (child Rest ?rs) = None" by (auto simp: at_leaf_None in_child)
  with m c show ?thesis by (auto simp: or_else_def split: option.splits)
qed

lemma matchPath_unique:
  assumes "(ss, e) \<in> set rs" and "covers ss segs" and "ss \<noteq> [Rest]" and "segs \<noteq> []"
    and "\<And>ss' e'. (ss', e') \<in> set rs \<Longrightarrow> covers ss' segs \<Longrightarrow> ss' = [Rest] \<or> (ss', e') = (ss, e)"
  shows "matchPath rs segs = Some (e, wild_values ss segs)"
proof -
  obtain seg segs' where s: "segs = seg # segs'" using assms(4) by (cases segs) auto
  let ?rs = "filter (\<lambda>r. fst r \<noteq> [Rest]) rs"
  have "(ss, e) \<in> set ?rs" using assms by simp
  from matchPath_complete [OF this assms(2)] obtain e' vs where m: "matchPath ?rs segs = Some (e', vs)"
    by (metis not_None_eq prod.collapse)
  from matchPath_sound [OF this] obtain ss' where
    "(ss', e') \<in> set ?rs" "covers ss' segs" "vs = wild_values ss' segs" by blast
  with assms(5) [of ss' e'] have "e' = e" "vs = wild_values ss segs" by simp_all
  with m matchPath_before_rest [OF assms(1) assms(2) [unfolded s] assms(3)] s show ?thesis by metis
qed

text \<open>Patterns that cover no path together.\<close>

fun overlap :: "segment list \<Rightarrow> segment list \<Rightarrow> bool" where
  "overlap [] [] \<longleftrightarrow> True"
| "overlap (Rest # _) (_ # _) \<longleftrightarrow> True"
| "overlap (_ # _) (Rest # _) \<longleftrightarrow> True"
| "overlap (Lit a # xs) (Lit b # ys) \<longleftrightarrow> a = b \<and> overlap xs ys"
| "overlap (x # xs) (y # ys) \<longleftrightarrow> overlap xs ys"
| "overlap _ _ \<longleftrightarrow> False"

lemma covers_overlap: "covers xs segs \<Longrightarrow> covers ys segs \<Longrightarrow> overlap xs ys"
proof (induction xs ys arbitrary: segs rule: overlap.induct)
qed (auto split: list.splits)

section \<open>Every endpoint can be reached\<close>

text \<open>The path of a pattern with values in the place of its wildcards.\<close>

fun fill :: "segment list \<Rightarrow> string list \<Rightarrow> string list" where
  "fill (Lit l # ss) vs = l # fill ss vs"
| "fill (Wild # ss) (v # vs) = PathEscape v # fill ss vs"
| "fill _ _ = []"

definition path_for :: "string \<Rightarrow> string list \<Rightarrow> string" where
  "path_for pattern vs = path_of (fill (map parse_segment (pattern_segments pattern)) vs)"

fun literal :: "segment \<Rightarrow> bool" where
  "literal (Lit l) \<longleftrightarrow> plain_segment l \<and> unescape_segment l = l"
| "literal Wild \<longleftrightarrow> True"
| "literal Rest \<longleftrightarrow> False"

lemma fill_segments:
  assumes "list_all literal ss" and "length vs = length (filter (\<lambda>s. s = Wild) ss)"
    and "list_all segment_value vs"
  shows "list_all plain_segment (fill ss vs) \<and> covers ss (map unescape_segment (fill ss vs)) \<and>
    wild_values ss (map unescape_segment (fill ss vs)) = vs"
  using assms
proof (induction ss vs rule: fill.induct)
  case (2 ss v vs)
  then have "segment_value v" by simp
  with 2 show ?case using segment_value_escaped [of v] PathEscape_no_slash [of v]
    by (auto simp: plain_segment_def segment_value_def)
qed auto

text \<open>The table of the program: nothing but the health check shares a path with another pattern.\<close>

definition table_ok :: "'e route list \<Rightarrow> bool" where
  "table_ok rs \<longleftrightarrow> list_all (\<lambda>r. fst r = [Rest] \<or> list_all literal (fst r) \<and> fst r \<noteq> []) rs \<and>
     sorted_wrt (\<lambda>r r'. fst r = [Rest] \<or> fst r' = [Rest] \<or> \<not> overlap (fst r) (fst r')) rs"

lemma overlap_Rest [simp]: "overlap (x # xs) (Rest # ys)"
  by (cases x) simp_all

lemma overlap_sym: "overlap xs ys = overlap ys xs"
proof (induction xs ys rule: overlap.induct)
qed (auto elim: overlap.elims)

lemma sorted_wrt_pairs:
  "sorted_wrt P xs \<Longrightarrow> x \<in> set xs \<Longrightarrow> y \<in> set xs \<Longrightarrow> x = y \<or> P x y \<or> P y x"
  by (induction xs) auto

lemma table_ok_apart:
  "table_ok rs \<Longrightarrow> r \<in> set rs \<Longrightarrow> r' \<in> set rs \<Longrightarrow> overlap (fst r) (fst r') \<Longrightarrow>
     fst r = [Rest] \<or> fst r' = [Rest] \<or> r = r'"
  using sorted_wrt_pairs [of _ rs r r'] overlap_sym [of "fst r" "fst r'"]
  unfolding table_ok_def by blast

lemma tables_ok_for:
  "table_ok (routes_for ''GET'')" "table_ok (routes_for ''PUT'')" "table_ok (routes_for ''POST'')"
  "table_ok (routes_for ''DELETE'')"
  by code_simp+

lemma route_methods: "list_all (\<lambda>r. pattern_method (fst r) \<in> set [''GET'', ''PUT'', ''POST'', ''DELETE'']) routes"
  by code_simp

lemma route_shapes:
  "list_all (\<lambda>r. (map parse_segment (pattern_segments (fst r)) = [Rest]) = (fst r = ''GET /'') \<and>
     length (wildcard_names (pattern_segments (fst r))) =
     length (filter (\<lambda>s. s = Wild) (map parse_segment (pattern_segments (fst r))))) routes"
  by code_simp

lemma routes_reached:
  assumes "(pattern, ep) \<in> set routes" and "pattern \<noteq> ''GET /''"
    and "length vs = length (wildcard_names (pattern_segments pattern))" and "list_all segment_value vs"
  shows "dispatch (pattern_method pattern) (path_for pattern vs) =
      Served ep (zip (wildcard_names (pattern_segments pattern)) vs)"
proof -
  let ?meth = "pattern_method pattern"
  obtain ss names where r: "parse_pattern (pattern, ep) = (ss, names, ep)"
    and ss: "ss = map parse_segment (pattern_segments pattern)"
    and names: "names = wildcard_names (pattern_segments pattern)" by (simp add: parse_pattern_def)
  let ?segs = "fill ss vs"
  have shape: "ss \<noteq> [Rest]" "length vs = length (filter (\<lambda>s. s = Wild) ss)"
    using route_shapes assms(1-3) ss by (auto simp: list_all_iff)
  have inr: "(ss, names, ep) \<in> set (routes_for ?meth)"
    using assms(1) r by (force simp: routes_for_def image_iff)
  have t: "table_ok (routes_for ?meth)"
    using route_methods assms(1) tables_ok_for by (fastforce simp: list_all_iff)
  have lit: "list_all literal ss" "ss \<noteq> []" using t inr shape(1) by (auto simp: table_ok_def list_all_iff)
  note f = fill_segments [OF lit(1) shape(2) assms(4)]
  have ne: "?segs \<noteq> []" using f lit(2) by auto
  have "matchPath (routes_for ?meth) (map unescape_segment ?segs) = Some ((names, ep), wild_values ss (map unescape_segment ?segs))"
  proof (rule matchPath_unique [OF inr _ shape(1)])
    fix ss' e' assume "(ss', e') \<in> set (routes_for ?meth)" and "covers ss' (map unescape_segment ?segs)"
    then show "ss' = [Rest] \<or> (ss', e') = (ss, names, ep)"
      using table_ok_apart [OF t inr, of "(ss', e')"] covers_overlap [of ss "map unescape_segment ?segs" ss']
        f shape(1) by auto
  qed (use f ne in auto)
  with f ne have "match_method ?meth (path_of ?segs) = Some ((names, ep), vs)"
    by (simp add: match_method_def or_else_def path_segments_path_of)
  with f ne names ss show ?thesis
    by (simp add: dispatch_def Let_def cleanPath_path_of path_for_def)
qed

text \<open>
  C19: A request with the method of a pattern, and with the path that the pattern makes of any
  values for its wildcards (each escaped by \<open>url.PathEscape\<close>), reaches the endpoint of that
  pattern, which reads exactly these values, whatever bytes they have. Left out are the values that
  are no segment of a path: the empty one, \<open>.\<close>, \<open>..\<close>, and a single slash.
\<close>
theorem routes_reach_their_endpoint:
  assumes "(pattern, ep) \<in> set routes" and "pattern \<noteq> ''GET /''"
    and "length vs = length (wildcard_names (pattern_segments pattern))" and "list_all segment_value vs"
  shows "dispatch (pattern_method pattern) (path_for pattern vs) =
      Served ep (zip (wildcard_names (pattern_segments pattern)) vs)"
  using assms by (rule routes_reached)

text \<open>An id with a slash and a space reaches the endpoint of deployments as it is.\<close>

theorem routes_reach_their_endpoint_witness:
  "path_for ''GET /v2/deployments/{id}'' [''a/b c''] = ''/v2/deployments/a%2Fb%20c'' \<and>
   dispatch ''GET'' (path_for ''GET /v2/deployments/{id}'' [''a/b c'']) =
     Served Ep2_GetDeployment [(''id'', ''a/b c'')]"
proof -
  have r: "(''GET /v2/deployments/{id}'', Ep2_GetDeployment) \<in> set routes"
    by (simp add: routes_def v2_routes_def)
  have w: "wildcard_names (pattern_segments ''GET /v2/deployments/{id}'') = [''id'']"
    and m: "pattern_method ''GET /v2/deployments/{id}'' = ''GET''"
    and p: "path_for ''GET /v2/deployments/{id}'' [''a/b c''] = ''/v2/deployments/a%2Fb%20c''"
    by code_simp+
  show ?thesis
    using routes_reach_their_endpoint [OF r, of "[''a/b c'']"] p unfolding w m by (simp add: segment_value_def)
qed

lemma path_segments_not_Nil [simp]: "path_segments p \<noteq> []"
  by (simp add: path_segments_def Let_def)

lemma health_check_route: "([Rest], [], Ep1_HealthCheck) \<in> set (routes_for ''GET'')"
proof -
  have "(''GET /'', Ep1_HealthCheck) \<in> set v1_routes"
    unfolding v1_routes_def by (rule list.set_intros(1))
  moreover have "pattern_method ''GET /'' = ''GET''" by code_simp
  ultimately have "(''GET /'', Ep1_HealthCheck) \<in> set (filter (\<lambda>r. pattern_method (fst r) = ''GET'') routes)"
    by (simp add: routes_def)
  moreover have p: "parse_pattern (''GET /'', Ep1_HealthCheck) = ([Rest], [], Ep1_HealthCheck)" by code_simp
  ultimately show ?thesis
    using imageI [of "(''GET /'', Ep1_HealthCheck)" _ parse_pattern] unfolding routes_for_def set_map p by blast
qed

text \<open>
  No \<open>GET\<close> request is answered by 404 or 405: a path that no other pattern has is the health
  check's (\<open>GET /\<close>), which answers 200, and a path that is not clean is redirected first.
\<close>
theorem get_is_always_served:
  "dispatch ''GET'' target \<in>
     (if cleanPath target = target then {Served ep vals |ep vals. True}
      else {Redirected (escape_path (cleanPath target))})"
proof -
  have "matchPath (routes_for ''GET'') (path_segments p) \<noteq> None" for p
    by (rule matchPath_complete [OF health_check_route]) simp
  then have "match_method ''GET'' target \<noteq> None"
    unfolding match_method_def or_else_None by blast
  then obtain names ep vals where "match_method ''GET'' target = Some ((names, ep), vals)" by force
  then show ?thesis by (simp add: dispatch_def Let_def)
qed

end
