(* ===== verification/Registration.thy ===== *)
theory Registration
  imports Router "HOL-Library.AList" "HOL-Library.Multiset"
begin

text \<open>
  How the endpoints come to the multiplexer (\<open>lib/api/api.go\<close>): objects that the files of the package
  put into a list, their methods, which reflection finds by type, and the registration of a pattern by
  each, in an order that the iteration over a Go map leaves open. \<open>http.ServeMux\<close> panics when two patterns
  are in conflict.
\<close>

section \<open>Endpoint objects\<close>

datatype gotype = Named string | Ptr gotype

text \<open>The loop of \<open>getTypeName\<close>.\<close>

fun getTypeName :: "gotype \<Rightarrow> string" where
  "getTypeName (Ptr t) = getTypeName t"
| "getTypeName (Named n) = n"

text \<open>A method of the type \<open>EndpointMethod\<close> is what it registers; \<open>None\<close> is a method of another type.\<close>

record endpoint_object =
  ob_type :: gotype
  ob_methods :: "(string \<times> (string \<times> endpoint) option) list"

definition getEndpointMethods :: "endpoint_object \<Rightarrow> (string \<times> string \<times> endpoint) list" where
  "getEndpointMethods e =
     fold (\<lambda>(mname, m) result. case m of
         None \<Rightarrow> result
       | Some f \<Rightarrow> AList.update (getTypeName (ob_type e) @ ''::'' @ mname) f result) (ob_methods e) []"

definition methods :: "string list \<Rightarrow> (string \<times> endpoint) list \<Rightarrow> (string \<times> (string \<times> endpoint) option) list" where
  "methods names rs = zip names (map Some rs)"

definition endpoint_objects :: "endpoint_object list" where
  "endpoint_objects =
    [\<lparr>ob_type = Ptr (Named ''DeployEndpoints''), ob_methods = methods [''Deploy'', ''DeleteDeployment''] deploy_routes\<rparr>,
     \<lparr>ob_type = Ptr (Named ''Swagger''), ob_methods = methods [''Swagger''] swagger_routes\<rparr>,
     \<lparr>ob_type = Ptr (Named ''V1Endpoints''), ob_methods = methods
     [''HealthCheck'', ''StartProcessDefinition'', ''StartProcessDefinitionAndGetInstanceId'',
      ''GetDeployment'', ''DeploymentExists'', ''StartDeployment'', ''GetDeploymentParameters'',
      ''GetDeploymentDefinition'', ''GetDeployments'', ''GetProcessDefinition'',
      ''GetProcessDefinitionDiagram'', ''GetProcessInstances'', ''GetProcessInstanceCount'',
      ''GetHistoricProcessInstances'', ''GetFilteredHistoricProcessInstances'',
      ''GetFinishedProcessInstances'', ''FindFinishedProcessInstances'',
      ''FindUnfinishedProcessInstances'', ''GetUnfinishedProcessInstances'',
      ''GetHistoricProcessInstancesOfProcessDefinition'',
      ''GetFinishedProcessInstancesOfProcessDefinition'',
      ''GetUnfinishedProcessInstancesOfProcessDefinition'', ''DeleteHistoricPricessInstance'',
      ''DeleteProcessInstance'']
       v1_routes\<rparr>,
     \<lparr>ob_type = Ptr (Named ''V2Endpoints''), ob_methods = methods
     [''StartProcessDefinition'', ''StartProcessDefinitionAndGetInstanceId'', ''GetDeployment'',
      ''DeploymentExists'', ''StartDeployment'', ''GetDeploymentParameters'', ''GetDeploymentDefinition'',
      ''GetDeploymentInstances'', ''ListDeployments'', ''GetProcessDefinition'',
      ''GetProcessDefinitionDiagram'', ''ListProcessInstances'', ''GetProcessInstanceCount'',
      ''GetHistoricProcessInstances'', ''DeleteHistoricProcessInstance'', ''DeleteProcessInstance'',
      ''SetProcessInstanceVariable'', ''DeleteProcessMultipleInstances'',
      ''DeleteMultipleHistoricProcessInstances'', ''DeleteProcessInstancesByBusinessKey'', ''TriggerEvent'']
       v2_routes\<rparr>]"

section \<open>Conflicts of patterns\<close>

text \<open>
  The comparison of two patterns in \<open>net/http\<close>: which requests they have in common.
\<close>

datatype relationship = Equivalent | More_General | More_Specific | Disjoint | Overlaps

fun inverse_relationship :: "relationship \<Rightarrow> relationship" where
  "inverse_relationship More_General = More_Specific"
| "inverse_relationship More_Specific = More_General"
| "inverse_relationship r = r"

definition combine :: "relationship \<Rightarrow> relationship \<Rightarrow> relationship" where
  "combine r1 r2 =
     (case r1 of
        Equivalent \<Rightarrow> r2
      | Disjoint \<Rightarrow> Disjoint
      | Overlaps \<Rightarrow> if r2 = Disjoint then Disjoint else Overlaps
      | _ \<Rightarrow> if r2 = Equivalent then r1 else if r2 = inverse_relationship r1 then Overlaps else r2)"

text \<open>The methods of patterns: a pattern for \<open>GET\<close> takes \<open>HEAD\<close> as well.\<close>

definition compareMethods :: "string \<Rightarrow> string \<Rightarrow> relationship" where
  "compareMethods m1 m2 =
     (if m1 = m2 then Equivalent
      else if m1 = ''GET'' \<and> m2 = ''HEAD'' then More_General
      else if m1 = ''HEAD'' \<and> m2 = ''GET'' then More_Specific
      else Disjoint)"

fun compareSegments :: "segment \<Rightarrow> segment \<Rightarrow> relationship" where
  "compareSegments Rest Rest = Equivalent"
| "compareSegments Rest _ = More_General"
| "compareSegments _ Rest = More_Specific"
| "compareSegments Wild Wild = Equivalent"
| "compareSegments Wild (Lit s) = (if s = ''/'' then Disjoint else More_General)"
| "compareSegments (Lit s) Wild = (if s = ''/'' then Disjoint else More_Specific)"
| "compareSegments (Lit s) (Lit t) = (if s = t then Equivalent else Disjoint)"

text \<open>The loop over the segments that both have, and what remains of the longer one.\<close>

fun compareRest :: "relationship \<Rightarrow> bool \<Rightarrow> bool \<Rightarrow> segment list \<Rightarrow> segment list \<Rightarrow> relationship" where
  "compareRest rel multi1 multi2 (s1 # segs1) (s2 # segs2) =
     (let r = combine rel (compareSegments s1 s2)
      in if r = Disjoint then Disjoint else compareRest r multi1 multi2 segs1 segs2)"
| "compareRest rel multi1 multi2 [] [] = rel"
| "compareRest rel multi1 multi2 [] (s # segs2) = (if multi1 then combine rel More_General else Disjoint)"
| "compareRest rel multi1 multi2 (s # segs1) [] = (if multi2 then combine rel More_Specific else Disjoint)"

definition multi :: "segment list \<Rightarrow> bool" where
  "multi ss \<longleftrightarrow> ss \<noteq> [] \<and> last ss = Rest"

definition comparePaths :: "segment list \<Rightarrow> segment list \<Rightarrow> relationship" where
  "comparePaths p1 p2 =
     (if length p1 \<noteq> length p2 \<and> \<not> multi p1 \<and> \<not> multi p2 then Disjoint
      else compareRest Equivalent (multi p1) (multi p2) p1 p2)"

definition segments :: "string \<Rightarrow> segment list" where
  "segments p = map parse_segment (pattern_segments p)"

definition relation_of :: "string \<times> segment list \<Rightarrow> string \<times> segment list \<Rightarrow> relationship" where
  "relation_of p1 p2 =
     (if compareMethods (fst p1) (fst p2) = Disjoint then Disjoint
      else combine (compareMethods (fst p1) (fst p2)) (comparePaths (snd p1) (snd p2)))"

definition conflictsWith :: "string \<Rightarrow> string \<Rightarrow> bool" where
  "conflictsWith p1 p2 \<longleftrightarrow>
     relation_of (pattern_method p1, segments p1) (pattern_method p2, segments p2) \<in> {Equivalent, Overlaps}"

section \<open>Registration\<close>

text \<open>\<open>Handle\<close>: \<open>None\<close> is the panic.\<close>

definition Handle :: "string \<times> endpoint \<Rightarrow> (string \<times> endpoint) list \<Rightarrow> (string \<times> endpoint) list option" where
  "Handle p rs = (if list_ex (\<lambda>q. conflictsWith (fst p) (fst q)) rs then None else Some (rs @ [p]))"

fun handle_all :: "(string \<times> endpoint) list \<Rightarrow> (string \<times> endpoint) list \<Rightarrow> (string \<times> endpoint) list option" where
  "handle_all [] rs = Some rs"
| "handle_all (p # ps) rs = (case Handle p rs of None \<Rightarrow> None | Some rs1 \<Rightarrow> handle_all ps rs1)"

text \<open>The loops of \<open>GetRouter\<close>; \<open>order\<close> is the order in which \<open>range\<close> visits the map of the methods.\<close>

fun register ::
  "((string \<times> string \<times> endpoint) list \<Rightarrow> (string \<times> string \<times> endpoint) list) \<Rightarrow> endpoint_object list \<Rightarrow>
   (string \<times> endpoint) list \<Rightarrow> (string \<times> endpoint) list option" where
  "register order [] rs = Some rs"
| "register order (e # es) rs =
     (case handle_all (map snd (order (getEndpointMethods e))) rs of None \<Rightarrow> None | Some rs1 \<Rightarrow> register order es rs1)"

definition GetRouter ::
  "((string \<times> string \<times> endpoint) list \<Rightarrow> (string \<times> string \<times> endpoint) list) \<Rightarrow> (string \<times> endpoint) list option" where
  "GetRouter order = register order endpoint_objects []"

text \<open>The multiplexer with the patterns \<open>rs\<close>, as \<open>Router.dispatch\<close> for the list \<open>routes\<close>.\<close>

definition routes_of :: "(string \<times> endpoint) list \<Rightarrow> string \<Rightarrow> endpoint route list" where
  "routes_of rs meth = map parse_pattern (filter (\<lambda>r. pattern_method (fst r) = meth) rs)"

definition match_in :: "(string \<times> endpoint) list \<Rightarrow> string \<Rightarrow> string \<Rightarrow> ((string list \<times> endpoint) \<times> string list) option" where
  "match_in rs meth path =
     or_else (matchPath (routes_of rs meth) (path_segments path))
       (if meth = ''HEAD'' then matchPath (routes_of rs ''GET'') (path_segments path) else None)"

definition dispatch_in :: "(string \<times> endpoint) list \<Rightarrow> string \<Rightarrow> string \<Rightarrow> routed" where
  "dispatch_in rs meth target =
     (let path = cleanPath target
      in if path \<noteq> target then Redirected (escape_path path)
         else (case match_in rs meth path of
                 Some ((names, ep), vals) \<Rightarrow> Served ep (zip names vals)
               | None \<Rightarrow>
                   if \<exists>m \<in> set [''GET'', ''PUT'', ''POST'', ''DELETE'']. match_in rs m path \<noteq> None
                   then MethodNotAllowed else NotFound))"

lemma dispatch_in_routes: "dispatch_in routes = dispatch"
proof -
  have "match_in routes = match_method"
    by (intro ext) (simp add: match_in_def match_method_def routes_of_def routes_for_def)
  then show ?thesis by (intro ext) (simp only: dispatch_in_def dispatch_def)
qed

section \<open>The patterns of this program\<close>

text \<open>No two of the registered patterns are in conflict, in either order, and none occurs twice.\<close>

definition parsed_routes :: "(string \<times> segment list) list" where
  "parsed_routes = map (\<lambda>r. (pattern_method (fst r), segments (fst r))) routes"

definition in_conflict :: "string \<times> segment list \<Rightarrow> string \<times> segment list \<Rightarrow> bool" where
  "in_conflict p q \<longleftrightarrow> (case relation_of p q of Equivalent \<Rightarrow> True | Overlaps \<Rightarrow> True | _ \<Rightarrow> False)"

fun pairwise :: "('a \<Rightarrow> 'a \<Rightarrow> bool) \<Rightarrow> 'a list \<Rightarrow> bool" where
  "pairwise P [] \<longleftrightarrow> True"
| "pairwise P (x # xs) \<longleftrightarrow> list_all (P x) xs \<and> pairwise P xs"

lemma routes_peaceful: "pairwise (\<lambda>p q. \<not> in_conflict p q) parsed_routes"
  by code_simp

lemma methods_of_objects:
  "map (\<lambda>e. map snd (getEndpointMethods e)) endpoint_objects = [deploy_routes, swagger_routes, v1_routes, v2_routes]"
  by code_simp

section \<open>The order of registration\<close>

lemma conflicts_parsed:
  "conflictsWith p q = in_conflict (pattern_method p, segments p) (pattern_method q, segments q)"
  by (simp add: conflictsWith_def in_conflict_def split: relationship.split)

lemma pairwise_either: "pairwise P xs \<Longrightarrow> x \<in> set xs \<Longrightarrow> y \<in> set xs \<Longrightarrow> x \<noteq> y \<Longrightarrow> P x y \<or> P y x"
  by (induction xs) (auto simp: list_all_iff)

lemma pairwise_distinct: "pairwise P xs \<Longrightarrow> (\<And>x. x \<in> set xs \<Longrightarrow> \<not> P x x) \<Longrightarrow> distinct xs"
  by (induction xs) (auto simp: list_all_iff)

lemma compareRest_self: "compareRest Equivalent m m ss ss = Equivalent"
proof (induction ss)
  case (Cons s ss)
  then show ?case by (cases s) (simp_all add: combine_def)
qed simp

lemma parsed_distinct: "distinct parsed_routes"
  using routes_peaceful
  by (rule pairwise_distinct)
    (simp add: in_conflict_def relation_of_def compareMethods_def comparePaths_def compareRest_self combine_def)

lemma combine_inverse: "inverse_relationship (combine a b) = combine (inverse_relationship a) (inverse_relationship b)"
  by (cases a; cases b) (simp_all add: combine_def)

lemma compareSegments_inverse: "compareSegments t s = inverse_relationship (compareSegments s t)"
  by (cases s; cases t) auto

lemma compareRest_inverse:
  "compareRest (inverse_relationship rel) m2 m1 ts ss = inverse_relationship (compareRest rel m1 m2 ss ts)"
proof (induction rel m1 m2 ss ts rule: compareRest.induct)
  case (1 rel m1 m2 s ss t ts)
  have d: "combine (inverse_relationship rel) (compareSegments t s) = inverse_relationship (combine rel (compareSegments s t))"
    by (simp add: combine_inverse compareSegments_inverse [of t s])
  have i: "inverse_relationship r = Disjoint \<longleftrightarrow> r = Disjoint" for r by (cases r) auto
  from 1 show ?case by (simp add: Let_def d i)
qed (simp_all add: combine_inverse)

lemma conflicts_symmetric: "conflictsWith p q = conflictsWith q p"
proof -
  have m: "compareMethods b a = inverse_relationship (compareMethods a b)" for a b
    by (simp add: compareMethods_def)
  have "comparePaths b a = inverse_relationship (comparePaths a b)" for a b
    using compareRest_inverse [of Equivalent "multi b" "multi a" b a] by (auto simp: comparePaths_def)
  note paths = this
  have i: "inverse_relationship r = Disjoint \<longleftrightarrow> r = Disjoint" for r by (cases r) auto
  have twice: "inverse_relationship (inverse_relationship r) = r" for r by (cases r) auto
  have "relation_of b a = inverse_relationship (relation_of a b)" for a b
    unfolding relation_of_def m [of "fst a" "fst b"] paths [of "snd a" "snd b"] by (simp add: combine_inverse i twice)
  moreover have "inverse_relationship r \<in> {Equivalent, Overlaps} \<longleftrightarrow> r \<in> {Equivalent, Overlaps}" for r by (cases r) auto
  ultimately show ?thesis unfolding conflictsWith_def by metis
qed

text \<open>A list can be registered when its patterns are not in conflict with each other nor with those before.\<close>

lemma handle_all_peaceful:
  assumes "distinct (rs @ ps)" and "\<forall>p \<in> set (rs @ ps). \<forall>q \<in> set (rs @ ps). p \<noteq> q \<longrightarrow> \<not> conflictsWith (fst p) (fst q)"
  shows "handle_all ps rs = Some (rs @ ps)"
  using assms
proof (induction ps arbitrary: rs)
  case (Cons p ps)
  have "\<not> list_ex (\<lambda>q. conflictsWith (fst p) (fst q)) rs" using Cons.prems by (auto simp: list_ex_iff)
  then have "Handle p rs = Some (rs @ [p])" by (simp add: Handle_def)
  moreover have "handle_all ps (rs @ [p]) = Some ((rs @ [p]) @ ps)"
    using Cons.prems by (intro Cons.IH) auto
  ultimately show ?case by simp
qed simp

lemma routes_in_peace: "p \<in> set routes \<Longrightarrow> q \<in> set routes \<Longrightarrow> p \<noteq> q \<Longrightarrow> \<not> conflictsWith (fst p) (fst q)"
proof
  let ?f = "\<lambda>r :: string \<times> endpoint. (pattern_method (fst r), segments (fst r))"
  assume p: "p \<in> set routes" and q: "q \<in> set routes" and ne: "p \<noteq> q" and c: "conflictsWith (fst p) (fst q)"
  have "inj_on ?f (set routes)" using parsed_distinct by (simp add: parsed_routes_def distinct_map)
  with p q ne have "?f p \<noteq> ?f q" by (metis (no_types, lifting) inj_onD)
  moreover have "?f p \<in> set parsed_routes" "?f q \<in> set parsed_routes" using p q by (auto simp: parsed_routes_def)
  ultimately have "\<not> conflictsWith (fst p) (fst q) \<or> \<not> conflictsWith (fst q) (fst p)"
    using pairwise_either [OF routes_peaceful] by (auto simp: conflicts_parsed)
  with c conflicts_symmetric show False by blast
qed

lemma distinct_routes: "distinct routes"
  using parsed_distinct by (simp add: parsed_routes_def distinct_map)

lemma register_orders:
  assumes order: "\<And>xs. mset (order xs) = mset xs"
    and "distinct (rs @ concat (map (\<lambda>e. map snd (getEndpointMethods e)) es))"
    and "set (rs @ concat (map (\<lambda>e. map snd (getEndpointMethods e)) es)) \<subseteq> set routes"
  shows "\<exists>rs1. register order es rs = Some rs1 \<and>
    mset rs1 = mset (rs @ concat (map (\<lambda>e. map snd (getEndpointMethods e)) es))"
  using assms(2,3)
proof (induction es arbitrary: rs)
  case (Cons e es)
  let ?ps = "map snd (order (getEndpointMethods e))"
  have ps: "mset ?ps = mset (map snd (getEndpointMethods e))" by (simp add: order)
  have "set ?ps = set (map snd (getEndpointMethods e))" using ps by (rule mset_eq_setD)
  moreover have "distinct ?ps" using Cons.prems(1) mset_eq_imp_distinct_iff [OF ps] by simp
  ultimately have d: "distinct (rs @ ?ps)" and sub: "set (rs @ ?ps) \<subseteq> set routes"
    and rest: "distinct ((rs @ ?ps) @ concat (map (\<lambda>e. map snd (getEndpointMethods e)) es))"
      "set ((rs @ ?ps) @ concat (map (\<lambda>e. map snd (getEndpointMethods e)) es)) \<subseteq> set routes"
    using Cons.prems by auto
  have "handle_all ?ps rs = Some (rs @ ?ps)"
    using sub routes_in_peace by (intro handle_all_peaceful [OF d]) blast
  with Cons.IH [OF rest] ps show ?case by simp
qed simp

text \<open>The choice of the multiplexer depends on the set of the patterns only.\<close>

definition functional :: "('a \<times> 'b) list \<Rightarrow> bool" where
  "functional rs \<longleftrightarrow> (\<forall>a b c. (a, b) \<in> set rs \<longrightarrow> (a, c) \<in> set rs \<longrightarrow> b = c)"

lemma child_set: "set rs = set rs' \<Longrightarrow> set (child s rs) = set (child s rs')"
  by (simp add: child_def)

lemma child_functional: "functional rs \<Longrightarrow> functional (child s rs)"
  unfolding functional_def child_def by (auto simp: neq_Nil_conv)

lemma at_leaf_set:
  assumes "functional rs" and "set rs = set rs'"
  shows "at_leaf rs = at_leaf rs'"
proof -
  have eq: "set (filter (\<lambda>r. fst r = []) rs) = set (filter (\<lambda>r. fst r = []) rs')" using assms(2) by auto
  show ?thesis
  proof (cases "filter (\<lambda>r. fst r = []) rs")
    case Nil
    with eq have "filter (\<lambda>r. fst r = []) rs' = []" by (metis set_empty)
    with Nil show ?thesis by (simp add: at_leaf_def)
  next
    case (Cons r xs)
    with eq obtain r' xs' where Cons': "filter (\<lambda>r. fst r = []) rs' = r' # xs'" by (cases "filter (\<lambda>r. fst r = []) rs'") auto
    have "r \<in> set rs" "fst r = []" "r' \<in> set rs'" "fst r' = []"
      using Cons Cons' by (auto dest!: Cons_eq_filterD [OF sym])
    with assms have "snd r = snd r'" unfolding functional_def by (metis prod.collapse)
    with Cons Cons' show ?thesis by (cases r; cases r') (simp add: at_leaf_def)
  qed
qed

lemma matchPath_set: "functional rs \<Longrightarrow> set rs = set rs' \<Longrightarrow> matchPath rs segs = matchPath rs' segs"
proof (induction segs arbitrary: rs rs')
  case (Cons seg segs)
  have "matchPath (child s rs) segs = matchPath (child s rs') segs" for s
    using Cons.IH child_functional child_set Cons.prems by blast
  moreover have "at_leaf (child Rest rs) = at_leaf (child Rest rs')"
    using at_leaf_set child_functional child_set Cons.prems by blast
  ultimately show ?case by simp
qed (simp add: at_leaf_set)

lemma routes_of_functional:
  assumes "set rs \<subseteq> set routes"
  shows "functional (routes_of rs m)"
proof -
  let ?f = "\<lambda>r :: string \<times> endpoint. (pattern_method (fst r), segments (fst r))"
  have inj: "inj_on ?f (set routes)" using parsed_distinct by (simp add: parsed_routes_def distinct_map)
  have "b = c" if "(a, b) \<in> set (routes_of rs m)" "(a, c) \<in> set (routes_of rs m)" for a b c
  proof -
    from that obtain p q where p: "p \<in> set rs" "pattern_method (fst p) = m" "parse_pattern p = (a, b)"
      and q: "q \<in> set rs" "pattern_method (fst q) = m" "parse_pattern q = (a, c)"
      by (auto simp: routes_of_def)
    then have "?f p = ?f q" by (auto simp: parse_pattern_def segments_def)
    with inj assms p(1) q(1) have "p = q" by (meson inj_onD subsetD)
    with p q show ?thesis by simp
  qed
  then show ?thesis unfolding functional_def by blast
qed

lemma match_in_set:
  assumes "set rs = set routes"
  shows "match_in rs = match_in routes"
proof -
  have "set (routes_of rs m) = set (routes_of routes m)" for m using assms by (simp add: routes_of_def)
  then have path: "matchPath (routes_of rs m) segs = matchPath (routes_of routes m) segs" for m segs
    by (intro matchPath_set routes_of_functional) (simp_all add: assms)
  show ?thesis by (intro ext) (simp only: match_in_def path)
qed

text \<open>
  In whatever order Go visits the maps of methods, \<open>GetRouter\<close> registers all patterns without the
  panic of \<open>http.ServeMux\<close> (no two are in conflict), and every request is dispatched as by the
  multiplexer that has them in the order of the source.
\<close>

lemma GetRouter_any_order:
  assumes "\<And>xs. mset (order xs) = mset xs"
  shows "\<exists>rs. GetRouter order = Some rs \<and> mset rs = mset routes \<and> dispatch_in rs = dispatch"
proof -
  have c: "concat (map (\<lambda>e. map snd (getEndpointMethods e)) endpoint_objects) = routes"
    by (simp add: methods_of_objects routes_def)
  from register_orders [OF assms, of "[]" endpoint_objects] c distinct_routes
  obtain rs where rs: "GetRouter order = Some rs" "mset rs = mset routes" by (auto simp: GetRouter_def)
  then have "match_in rs = match_in routes" by (intro match_in_set mset_eq_setD)
  then have "dispatch_in rs = dispatch_in routes" by (intro ext) (simp only: dispatch_in_def)
  with rs show ?thesis by (simp add: dispatch_in_routes)
qed

end
