(* ===== verification/Configuration.thy ===== *)
theory Configuration
  imports GoWeb "HOL-Library.AList"
begin

text \<open>
  The configuration (\<open>lib/configuration\<close>): a file of JSON, then an environment variable for each
  field, whose name is made from the field's. Reflection on the struct is a list of its fields, each
  with its kind and the way to set it. The logger is what it is made from; what it writes is I/O.
\<close>

record Config =
  cf_ServerPort :: string
  cf_MetricsPort :: string
  cf_WrapperDb :: string
  cf_ShardingDb :: string
  cf_Debug :: bool
  cf_HttpClientTimeout :: string
  cf_HttpServerTimeout :: string
  cf_HttpServerReadTimeout :: string
  cf_NotificationUrl :: string
  cf_ProcessIoUrl :: string
  cf_IncidentApiUrl :: string
  cf_AuthEndpoint :: string
  cf_AuthClientId :: string
  cf_AuthClientSecret :: string
  cf_AccessLogTrimFormat :: string
  cf_LogLevel :: string

definition zero_config :: Config where
  "zero_config = \<lparr>cf_ServerPort = '''', cf_MetricsPort = '''', cf_WrapperDb = '''', cf_ShardingDb = '''',
     cf_Debug = False, cf_HttpClientTimeout = '''', cf_HttpServerTimeout = '''',
     cf_HttpServerReadTimeout = '''', cf_NotificationUrl = '''', cf_ProcessIoUrl = '''',
     cf_IncidentApiUrl = '''', cf_AuthEndpoint = '''', cf_AuthClientId = '''', cf_AuthClientSecret = '''',
     cf_AccessLogTrimFormat = '''', cf_LogLevel = ''''\<rparr>"

text \<open>The kinds of fields that the code tells apart; a pointer (the logger) is none of them.\<close>

datatype 'c field =
    StringField "(string \<Rightarrow> string) \<Rightarrow> 'c \<Rightarrow> 'c"
  | BoolField "(bool \<Rightarrow> bool) \<Rightarrow> 'c \<Rightarrow> 'c"
  | Int64Field "(int \<Rightarrow> int) \<Rightarrow> 'c \<Rightarrow> 'c"
  | Float64Field "(rat \<Rightarrow> rat) \<Rightarrow> 'c \<Rightarrow> 'c"
  | SliceField "(string list \<Rightarrow> string list) \<Rightarrow> 'c \<Rightarrow> 'c"
  | MapField "((string \<times> string) list \<Rightarrow> (string \<times> string) list) \<Rightarrow> 'c \<Rightarrow> 'c"
  | OtherField

text \<open>The fields in their order: name, name in JSON, kind.\<close>

definition config_fields :: "(string \<times> string \<times> Config field) list" where
  "config_fields =
    [(''ServerPort'', ''server_port'', StringField cf_ServerPort_update),
     (''MetricsPort'', ''metrics_port'', StringField cf_MetricsPort_update),
     (''WrapperDb'', ''wrapper_db'', StringField cf_WrapperDb_update),
     (''ShardingDb'', ''sharding_db'', StringField cf_ShardingDb_update),
     (''Debug'', ''debug'', BoolField cf_Debug_update),
     (''HttpClientTimeout'', ''http_client_timeout'', StringField cf_HttpClientTimeout_update),
     (''HttpServerTimeout'', ''http_server_timeout'', StringField cf_HttpServerTimeout_update),
     (''HttpServerReadTimeout'', ''http_server_read_timeout'', StringField cf_HttpServerReadTimeout_update),
     (''NotificationUrl'', ''notification_url'', StringField cf_NotificationUrl_update),
     (''ProcessIoUrl'', ''process_io_url'', StringField cf_ProcessIoUrl_update),
     (''IncidentApiUrl'', ''incident_api_url'', StringField cf_IncidentApiUrl_update),
     (''AuthEndpoint'', ''auth_endpoint'', StringField cf_AuthEndpoint_update),
     (''AuthClientId'', ''auth_client_id'', StringField cf_AuthClientId_update),
     (''AuthClientSecret'', ''auth_client_secret'', StringField cf_AuthClientSecret_update),
     (''AccessLogTrimFormat'', ''access_log_trim_format'', StringField cf_AccessLogTrimFormat_update),
     (''LogLevel'', ''log_level'', StringField cf_LogLevel_update),
     (''logger'', ''-'', OtherField)]"

section \<open>Names of environment variables\<close>

definition upper_letter :: "char \<Rightarrow> bool" where
  "upper_letter c \<longleftrightarrow> c \<in> set ''ABCDEFGHIJKLMNOPQRSTUVWXYZ''"

text \<open>\<open>strings.ToUpper\<close> on ASCII: a capital is its letter without the bit \<open>0x20\<close>.\<close>

definition upper_char :: "char \<Rightarrow> char" where
  "upper_char c =
     (if c \<in> set ''abcdefghijklmnopqrstuvwxyz''
      then (case c of Char b0 b1 b2 b3 b4 b5 b6 b7 \<Rightarrow> Char b0 b1 b2 b3 b4 False b6 b7) else c)"

definition to_upper :: "string \<Rightarrow> string" where
  "to_upper = map upper_char"

text \<open>
  The regular expression \<open>camel\<close>, \<open>(^[^A-Z]*|[A-Z]*)([A-Z][^A-Z]+|$)\<close>, at one place of the text, with
  the rest of the text: its second group, then the whole. The first alternative that leads to a match
  counts, with the longest repetition that does: of \<open>[^A-Z]*\<close> that is the longest of all, as what
  follows a shorter one is no capital; of \<open>[A-Z]*\<close> it is the longest at the end of the text, and
  the one without the last capital elsewhere.
\<close>

definition camel_group2 :: "string \<Rightarrow> string option" where
  "camel_group2 s =
     (case s of
        [] \<Rightarrow> Some []
      | c # cs \<Rightarrow>
          (let low = takeWhile (\<lambda>x. \<not> upper_letter x) cs
           in if upper_letter c \<and> low \<noteq> [] then Some (c # low) else None))"

definition camel :: "bool \<Rightarrow> string \<Rightarrow> (string \<times> string) option" where
  "camel at_start s =
     (let low = takeWhile (\<lambda>x. \<not> upper_letter x) s; rest = dropWhile (\<lambda>x. \<not> upper_letter x) s;
          caps = takeWhile upper_letter s; behind = dropWhile upper_letter s
      in case (if at_start then camel_group2 rest else None) of
           Some g2 \<Rightarrow> Some (low, g2)
         | None \<Rightarrow>
             if behind = [] then Some (caps, [])
             else if caps = [] then None
             else map_option (Pair (butlast caps)) (camel_group2 (last caps # behind)))"

text \<open>
  \<open>FindAllStringSubmatch\<close>, with what the loop appends of each match; \<open>n\<close> bounds the matches and the
  places without one, of which there are not more than characters. A match in front of a character
  is not empty, and the empty one at the end appends nothing.
\<close>

fun camel_words :: "nat \<Rightarrow> bool \<Rightarrow> string \<Rightarrow> string list" where
  "camel_words 0 at_start s = []"
| "camel_words (Suc n) at_start s =
     (case camel at_start s of
        None \<Rightarrow> camel_words n False (drop 1 s)
      | Some (g1, g2) \<Rightarrow>
          (if g1 \<noteq> [] then [g1] else []) @ (if g2 \<noteq> [] then [g2] else []) @
          camel_words n False (drop (length g1 + length g2) s))"

definition fieldNameToEnvName :: "string \<Rightarrow> string" where
  "fieldNameToEnvName s = to_upper (str_join (camel_words (length s) True s) ''_'')"

section \<open>Reading\<close>

text \<open>\<open>b, _ := strconv.ParseBool(s)\<close>.\<close>

definition parse_bool :: "string \<Rightarrow> bool" where
  "parse_bool s \<longleftrightarrow> s \<in> set [''1'', ''t'', ''T'', ''TRUE'', ''true'', ''True'']"

text \<open>An entry \<open>key:value\<close> of a map; without a colon the second element is missing, which panics.\<close>

fun env_entries :: "string list \<Rightarrow> (string \<times> string) list \<Rightarrow> (string \<times> string) list option" where
  "env_entries [] m = Some m"
| "env_entries (e # es) m =
     (case split_char CHR '':'' e of
        key # val # _ \<Rightarrow> env_entries es (AList.update (TrimSpace key) (TrimSpace val) m)
      | _ \<Rightarrow> None)"

text \<open>Setting one field; \<open>None\<close> is a panic. \<open>pf\<close> is \<open>strconv.ParseFloat\<close> without its error.\<close>

fun set_field :: "(string \<Rightarrow> rat) \<Rightarrow> string \<Rightarrow> 'c field \<Rightarrow> 'c \<Rightarrow> 'c option" where
  "set_field pf v (StringField u) c = Some (u (\<lambda>_. v) c)"
| "set_field pf v (BoolField u) c = Some (u (\<lambda>_. parse_bool v) c)"
| "set_field pf v (Int64Field u) c = Some (u (\<lambda>_. atoi v) c)"
| "set_field pf v (Float64Field u) c = Some (u (\<lambda>_. pf v) c)"
| "set_field pf v (SliceField u) c = Some (u (\<lambda>_. map TrimSpace (split_char CHR '','' v)) c)"
| "set_field pf v (MapField u) c =
     map_option (\<lambda>m. u (\<lambda>_. m) c) (env_entries (split_char CHR '','' v) [])"
| "set_field pf v OtherField c = Some c"

text \<open>The loop over the fields; \<open>getenv\<close> is the environment, empty where a variable is not set.\<close>

fun handle_fields ::
  "(string \<Rightarrow> rat) \<Rightarrow> (string \<Rightarrow> string) \<Rightarrow> (string \<times> string \<times> 'c field) list \<Rightarrow> 'c \<Rightarrow> 'c option" where
  "handle_fields pf getenv [] c = Some c"
| "handle_fields pf getenv ((name, tag, f) # fs) c =
     (let envValue = getenv (fieldNameToEnvName name)
      in if envValue \<noteq> '''' then Option.bind (set_field pf envValue f c) (handle_fields pf getenv fs)
         else handle_fields pf getenv fs c)"

definition handleEnvironmentVars :: "(string \<Rightarrow> rat) \<Rightarrow> (string \<Rightarrow> string) \<Rightarrow> Config \<Rightarrow> Config option" where
  "handleEnvironmentVars pf getenv = handle_fields pf getenv config_fields"

text \<open>The file as JSON; only texts and booleans are fields of it.\<close>

fun json_field :: "string \<times> string \<times> 'c field \<Rightarrow> 'c field_dec list" where
  "json_field (name, tag, StringField u) = [(tag, string_field u)]"
| "json_field (name, tag, BoolField u) = [(tag, bool_field u)]"
| "json_field _ = []"

definition decode_Config :: "json \<Rightarrow> Config res" where
  "decode_Config = decode_struct (concat (map json_field config_fields)) zero_config"

text \<open>
  \<open>LoadConfig\<close>: the file (or the error of opening or decoding it), the environment, and the timeout of
  the default client, which is none (0) when its text is no duration.
\<close>

definition LoadConfig ::
  "(string \<Rightarrow> rat) \<Rightarrow> (string \<Rightarrow> string) \<Rightarrow> (string \<Rightarrow> rat res) \<Rightarrow> json res \<Rightarrow> (Config \<times> rat) res option" where
  "LoadConfig pf getenv parse_duration file =
     (case Sum_Type.case_sum Inl decode_Config file of
        Inl err \<Rightarrow> Some (Inl err)
      | Inr c0 \<Rightarrow>
          map_option (\<lambda>c. Inr (c, case parse_duration (cf_HttpClientTimeout c) of Inl err \<Rightarrow> 0 | Inr d \<Rightarrow> d))
            (handleEnvironmentVars pf getenv c0))"

text \<open>
  \<open>GetLogger\<close> makes the logger when it is first asked for and keeps it; the level of a configuration
  for debugging is overwritten. \<open>build_info\<close> is the path of the main module, if the binary has it.
\<close>

record service_logger =
  lg_Level :: string
  lg_org :: string
  lg_project :: string

definition module_names :: "string option \<Rightarrow> string \<times> string" where
  "module_names build_info =
     (case build_info of
        None \<Rightarrow> ('''', '''')
      | Some mpath \<Rightarrow>
          (let parts = split_char CHR ''/'' mpath
           in if length parts > 2 then (str_join (take 2 parts) ''/'', str_join (drop 2 parts) ''/'') else ('''', '''')))"

definition GetLogger ::
  "string option \<Rightarrow> Config \<times> service_logger option \<Rightarrow> service_logger \<times> Config \<times> service_logger option" where
  "GetLogger build_info cl =
     (case cl of
        (c, Some logger) \<Rightarrow> (logger, c, Some logger)
      | (c, None) \<Rightarrow>
          (let c1 = (if cf_Debug c then c\<lparr>cf_LogLevel := ''debug''\<rparr> else c);
               (org, project) = module_names build_info;
               logger = \<lparr>lg_Level = cf_LogLevel c1, lg_org = org, lg_project = project\<rparr>
           in (logger, c1, Some logger)))"

text \<open>Every later call answers the same logger and changes nothing.\<close>

lemma GetLogger_once: "GetLogger build_info cl = (logger, cl1) \<Longrightarrow> GetLogger build_info' cl1 = (logger, cl1)"
  by (auto simp: GetLogger_def Let_def split: prod.splits option.splits)

section \<open>The bound of the matches is enough\<close>

lemma camel_progress:
  assumes "camel at_start s = Some (g1, g2)" and "s \<noteq> []"
  shows "0 < length g1 + length g2"
proof -
  have g: "camel_group2 r = Some g \<Longrightarrow> r \<noteq> [] \<Longrightarrow> g \<noteq> []" for r g
    by (cases r) (auto simp: camel_group2_def Let_def split: if_splits)
  show ?thesis
  proof (cases "dropWhile (\<lambda>x. \<not> upper_letter x) s = []")
    case True
    obtain c cs where s: "s = c # cs" using assms(2) by (cases s) auto
    with True have c: "\<not> upper_letter c" by (auto split: if_splits)
    have "camel_group2 [] = Some []" by (simp add: camel_group2_def)
    with assms(1) s c True show ?thesis by (auto simp: camel_def Let_def split: if_splits option.splits)
  next
    case False
    with assms g show ?thesis
      by (auto simp: camel_def Let_def takeWhile_eq_Nil_iff split: if_splits option.splits)
  qed
qed

lemma camel_words_Nil [simp]: "camel_words n False [] = []"
  by (induction n) (simp_all add: camel_def camel_group2_def)

text \<open>More rounds than characters change nothing, so none is missing.\<close>

lemma camel_words_enough:
  "length s \<le> n \<Longrightarrow> s \<noteq> [] \<or> \<not> at_start \<Longrightarrow> camel_words n at_start s = camel_words (length s) at_start s"
proof (induction "length s" arbitrary: s n at_start rule: less_induct)
  case less
  show ?case
  proof (cases "s = []")
    case False
    then obtain m k where m: "n = Suc m" "length s = Suc k" using less.prems by (cases n; cases s) auto
    have step: "camel_words m False t = camel_words k False t" if "length t \<le> k" for t
    proof -
      have "camel_words m False t = camel_words (length t) False t"
        using less.hyps [of t m False] that m less.prems by simp
      moreover have "camel_words k False t = camel_words (length t) False t"
        using less.hyps [of t k False] that m by simp
      ultimately show ?thesis by simp
    qed
    show ?thesis
    proof (cases "camel at_start s")
      case None
      with m step [of "drop 1 s"] show ?thesis by simp
    next
      case (Some g)
      obtain g1 g2 where g: "g = (g1, g2)" by (cases g)
      with Some camel_progress False have "0 < length g1 + length g2" by blast
      then have "length (drop (length g1 + length g2) s) \<le> k" unfolding length_drop m by linarith
      with Some g m step show ?thesis by simp
    qed
  qed (use less.prems in simp)
qed

section \<open>Names in camel case\<close>

text \<open>A word of a name: a capital and at least one other character that is none.\<close>

definition camel_word :: "string \<Rightarrow> bool" where
  "camel_word w \<longleftrightarrow>
     (case w of c # d # ds \<Rightarrow> upper_letter c \<and> list_all (\<lambda>x. \<not> upper_letter x) (d # ds) | _ \<Rightarrow> False)"

lemma camel_word_match:
  assumes "camel_word w" and "rest = [] \<or> upper_letter (hd rest)"
  shows "camel at_start (w @ rest) = Some ([], w)"
proof -
  obtain c d ds where w: "w = c # d # ds" "upper_letter c" "\<not> upper_letter d" "list_all (\<lambda>x. \<not> upper_letter x) ds"
    using assms(1) by (auto simp: camel_word_def split: list.splits)
  have "takeWhile (\<lambda>x. \<not> upper_letter x) (ds @ rest) = ds"
    using w(4) assms(2) by (induction ds) (cases rest; simp)+
  with w show ?thesis by (simp add: camel_def camel_group2_def Let_def)
qed

lemma camel_words_of_words:
  "list_all camel_word ws \<Longrightarrow> length (concat ws) \<le> n \<Longrightarrow> ws \<noteq> [] \<or> \<not> at_start \<Longrightarrow>
   camel_words n at_start (concat ws) = ws"
proof (induction ws arbitrary: n at_start)
  case (Cons w ws)
  have "concat ws = [] \<or> upper_letter (hd (concat ws))"
    using Cons.prems(1) by (cases ws) (auto simp: camel_word_def split: list.splits)
  with Cons.prems(1) have m: "camel at_start (w @ concat ws) = Some ([], w)"
    by (intro camel_word_match) simp_all
  have "w \<noteq> []" using Cons.prems(1) by (auto simp: camel_word_def)
  moreover from this obtain k where "n = Suc k" using Cons.prems(2) by (cases n) auto
  ultimately show ?case using m Cons by (cases w) auto
qed simp

text \<open>
  A name in camel case becomes the name of its variable: the words in capitals, with underscores
  in between, whatever words they are.
\<close>
theorem camel_case_to_variable:
  assumes "list_all camel_word ws" and "ws \<noteq> []"
  shows "fieldNameToEnvName (concat ws) = to_upper (str_join ws ''_'')"
  using camel_words_of_words [OF assms(1), of "length (concat ws)" True] assms(2)
  by (simp add: fieldNameToEnvName_def)

theorem camel_case_to_variable_witness:
  "fieldNameToEnvName ''HttpServerReadTimeout'' = ''HTTP_SERVER_READ_TIMEOUT''"
proof -
  have "list_all camel_word [''Http'', ''Server'', ''Read'', ''Timeout'']" by code_simp
  from camel_case_to_variable [OF this]
  have "fieldNameToEnvName (concat [''Http'', ''Server'', ''Read'', ''Timeout'']) =
      to_upper (str_join [''Http'', ''Server'', ''Read'', ''Timeout''] ''_'')" by blast
  also have "\<dots> = ''HTTP_SERVER_READ_TIMEOUT''" by code_simp
  finally show ?thesis by simp
qed

section \<open>What the environment does\<close>

text \<open>The value of a variable that is set, and the old one else.\<close>

definition override :: "(string \<Rightarrow> string) \<Rightarrow> string \<Rightarrow> string \<Rightarrow> string" where
  "override getenv name old = (if getenv name = '''' then old else getenv name)"

lemma update_nothing:
  fixes c :: Config
  shows "cf_ServerPort_update (\<lambda>x. x) c = c" "cf_MetricsPort_update (\<lambda>x. x) c = c"
    "cf_WrapperDb_update (\<lambda>x. x) c = c" "cf_ShardingDb_update (\<lambda>x. x) c = c"
    "cf_Debug_update (\<lambda>x. x) c = c" "cf_HttpClientTimeout_update (\<lambda>x. x) c = c"
    "cf_HttpServerTimeout_update (\<lambda>x. x) c = c" "cf_HttpServerReadTimeout_update (\<lambda>x. x) c = c"
    "cf_NotificationUrl_update (\<lambda>x. x) c = c" "cf_ProcessIoUrl_update (\<lambda>x. x) c = c"
    "cf_IncidentApiUrl_update (\<lambda>x. x) c = c" "cf_AuthEndpoint_update (\<lambda>x. x) c = c"
    "cf_AuthClientId_update (\<lambda>x. x) c = c" "cf_AuthClientSecret_update (\<lambda>x. x) c = c"
    "cf_AccessLogTrimFormat_update (\<lambda>x. x) c = c" "cf_LogLevel_update (\<lambda>x. x) c = c"
  by simp_all

lemma variable_names:
  "map (\<lambda>f. fieldNameToEnvName (fst f)) config_fields =
    [''SERVER_PORT'',
     ''METRICS_PORT'',
     ''WRAPPER_DB'',
     ''SHARDING_DB'',
     ''DEBUG'',
     ''HTTP_CLIENT_TIMEOUT'',
     ''HTTP_SERVER_TIMEOUT'',
     ''HTTP_SERVER_READ_TIMEOUT'',
     ''NOTIFICATION_URL'',
     ''PROCESS_IO_URL'',
     ''INCIDENT_API_URL'',
     ''AUTH_ENDPOINT'',
     ''AUTH_CLIENT_ID'',
     ''AUTH_CLIENT_SECRET'',
     ''ACCESS_LOG_TRIM_FORMAT'',
     ''LOG_LEVEL'', ''LOGGER'']"
  by code_simp

text \<open>
  C32: The environment overrides the file and nothing else: whatever file was read, a field has the
  value of its variable if that is set (for the only boolean, whether it reads as true), and keeps
  its value otherwise; the names of the variables are these; and reading them never panics.
\<close>
theorem environment_overrides_file:
  "handleEnvironmentVars pf getenv c = Some
     \<lparr>cf_ServerPort = override getenv ''SERVER_PORT'' (cf_ServerPort c),
      cf_MetricsPort = override getenv ''METRICS_PORT'' (cf_MetricsPort c),
      cf_WrapperDb = override getenv ''WRAPPER_DB'' (cf_WrapperDb c),
      cf_ShardingDb = override getenv ''SHARDING_DB'' (cf_ShardingDb c),
      cf_Debug = (if getenv ''DEBUG'' = '''' then cf_Debug c else parse_bool (getenv ''DEBUG'')),
      cf_HttpClientTimeout = override getenv ''HTTP_CLIENT_TIMEOUT'' (cf_HttpClientTimeout c),
      cf_HttpServerTimeout = override getenv ''HTTP_SERVER_TIMEOUT'' (cf_HttpServerTimeout c),
      cf_HttpServerReadTimeout = override getenv ''HTTP_SERVER_READ_TIMEOUT'' (cf_HttpServerReadTimeout c),
      cf_NotificationUrl = override getenv ''NOTIFICATION_URL'' (cf_NotificationUrl c),
      cf_ProcessIoUrl = override getenv ''PROCESS_IO_URL'' (cf_ProcessIoUrl c),
      cf_IncidentApiUrl = override getenv ''INCIDENT_API_URL'' (cf_IncidentApiUrl c),
      cf_AuthEndpoint = override getenv ''AUTH_ENDPOINT'' (cf_AuthEndpoint c),
      cf_AuthClientId = override getenv ''AUTH_CLIENT_ID'' (cf_AuthClientId c),
      cf_AuthClientSecret = override getenv ''AUTH_CLIENT_SECRET'' (cf_AuthClientSecret c),
      cf_AccessLogTrimFormat = override getenv ''ACCESS_LOG_TRIM_FORMAT'' (cf_AccessLogTrimFormat c),
      cf_LogLevel = override getenv ''LOG_LEVEL'' (cf_LogLevel c)\<rparr>"
proof -
  have s: "handle_fields pf getenv ((name, tag, StringField u) # fs) c =
      handle_fields pf getenv fs (u (override getenv (fieldNameToEnvName name)) c)"
    if "u (\<lambda>x. x) c = c" for name tag u fs and c :: Config
    using that by (cases "getenv (fieldNameToEnvName name) = ''''") (simp_all add: Let_def override_def [abs_def])
  have b: "handle_fields pf getenv ((name, tag, BoolField u) # fs) c =
      handle_fields pf getenv fs (u (\<lambda>old. if getenv (fieldNameToEnvName name) = '''' then old
        else parse_bool (getenv (fieldNameToEnvName name))) c)"
    if "u (\<lambda>x. x) c = c" for name tag u fs and c :: Config
    using that by (simp add: Let_def)
  have o: "handle_fields pf getenv ((name, tag, OtherField) # fs) c = handle_fields pf getenv fs c"
    for name tag fs and c :: Config
    by (simp add: Let_def)
  note n = variable_names [unfolded config_fields_def list.map fst_conv list.inject]
  show ?thesis
    unfolding handleEnvironmentVars_def config_fields_def
    by (cases c) (simp only: s b o n update_nothing Config.update_convs Config.select_convs handle_fields.simps(1))
qed

end
