(* ===== verification/Model.thy ===== *)
theory Model
  imports GoWeb
begin

text \<open>
  The values exchanged with Camunda and with clients (\<open>lib/model\<close>): one record per struct, and
  how each is decoded from the JSON of a reply, following the struct's tags.
\<close>

record Variable =
  v_value :: json
  v_type :: string
  v_valueInfo :: json

record ProcessInstance =
  pi_Id :: string
  pi_DefinitionId :: string
  pi_BusinessKey :: string
  pi_CaseInstanceId :: string
  pi_Ended :: bool
  pi_Suspended :: bool
  pi_TenantId :: string

record ProcessDefinition =
  pd_Id :: string
  pd_Key :: string
  pd_Category :: string
  pd_Description :: string
  pd_Name :: string
  pd_Version :: int
  pd_Resource :: string
  pd_DeploymentId :: string
  pd_Diagram :: string
  pd_Suspended :: bool
  pd_TenantId :: string
  pd_VersionTag :: string
  pd_HistoryTimeToLive :: int

record CamundaDeployment =
  cd_Id :: string
  cd_Name :: string
  cd_Source :: string
  cd_DeploymentTime :: json
  cd_TenantId :: string

record Count =
  count_Count :: int

record HistoricProcessInstance =
  hi_Id :: string
  hi_SuperProcessInstanceId :: string
  hi_SuperCaseInstanceId :: string
  hi_CaseInstanceId :: string
  hi_ProcessDefinitionName :: string
  hi_ProcessDefinitionKey :: string
  hi_ProcessDefinitionVersion :: rat
  hi_ProcessDefinitionId :: string
  hi_BusinessKey :: string
  hi_StartTime :: string
  hi_EndTime :: string
  hi_DurationInMillis :: rat
  hi_StartUserId :: string
  hi_StartActivityId :: string
  hi_DeleteReason :: string
  hi_TenantId :: string
  hi_State :: string

record ExtendedDeployment =
  ed_deployment :: CamundaDeployment
  ed_Diagram :: string
  ed_DefinitionId :: string
  ed_Error :: string

record HistoricProcessInstancesWithTotal =
  ht_Total :: int
  ht_Data :: "HistoricProcessInstance list"

definition zero_variable :: Variable where
  "zero_variable = \<lparr>v_value = JNull, v_type = '''', v_valueInfo = JNull\<rparr>"

definition zero_instance :: ProcessInstance where
  "zero_instance = \<lparr>pi_Id = '''', pi_DefinitionId = '''', pi_BusinessKey = '''', pi_CaseInstanceId = '''',
     pi_Ended = False, pi_Suspended = False, pi_TenantId = ''''\<rparr>"

definition zero_definition :: ProcessDefinition where
  "zero_definition = \<lparr>pd_Id = '''', pd_Key = '''', pd_Category = '''', pd_Description = '''', pd_Name = '''',
     pd_Version = 0, pd_Resource = '''', pd_DeploymentId = '''', pd_Diagram = '''', pd_Suspended = False,
     pd_TenantId = '''', pd_VersionTag = '''', pd_HistoryTimeToLive = 0\<rparr>"

definition zero_deployment :: CamundaDeployment where
  "zero_deployment = \<lparr>cd_Id = '''', cd_Name = '''', cd_Source = '''', cd_DeploymentTime = JNull,
     cd_TenantId = ''''\<rparr>"

definition zero_history :: HistoricProcessInstance where
  "zero_history = \<lparr>hi_Id = '''', hi_SuperProcessInstanceId = '''', hi_SuperCaseInstanceId = '''',
     hi_CaseInstanceId = '''', hi_ProcessDefinitionName = '''', hi_ProcessDefinitionKey = '''',
     hi_ProcessDefinitionVersion = 0, hi_ProcessDefinitionId = '''', hi_BusinessKey = '''',
     hi_StartTime = '''', hi_EndTime = '''', hi_DurationInMillis = 0, hi_StartUserId = '''',
     hi_StartActivityId = '''', hi_DeleteReason = '''', hi_TenantId = '''', hi_State = ''''\<rparr>"

definition decode_Variable :: "json \<Rightarrow> Variable res" where
  "decode_Variable = decode_struct
     [(''value'', any_field v_value_update), (''type'', string_field v_type_update),
      (''valueInfo'', any_field v_valueInfo_update)] zero_variable"

definition decode_ProcessInstance :: "json \<Rightarrow> ProcessInstance res" where
  "decode_ProcessInstance = decode_struct
     [(''id'', string_field pi_Id_update), (''definitionId'', string_field pi_DefinitionId_update),
      (''businessKey'', string_field pi_BusinessKey_update),
      (''caseInstanceId'', string_field pi_CaseInstanceId_update),
      (''ended'', bool_field pi_Ended_update), (''suspended'', bool_field pi_Suspended_update),
      (''tenantId'', string_field pi_TenantId_update)] zero_instance"

definition decode_ProcessDefinition :: "json \<Rightarrow> ProcessDefinition res" where
  "decode_ProcessDefinition = decode_struct
     [(''id'', string_field pd_Id_update), (''key'', string_field pd_Key_update),
      (''category'', string_field pd_Category_update),
      (''description'', string_field pd_Description_update), (''name'', string_field pd_Name_update),
      (''Version'', int_field pd_Version_update), (''resource'', string_field pd_Resource_update),
      (''deploymentId'', string_field pd_DeploymentId_update),
      (''diagram'', string_field pd_Diagram_update), (''suspended'', bool_field pd_Suspended_update),
      (''tenantId'', string_field pd_TenantId_update),
      (''versionTag'', string_field pd_VersionTag_update),
      (''historyTimeToLive'', int_field pd_HistoryTimeToLive_update)] zero_definition"

definition decode_CamundaDeployment :: "json \<Rightarrow> CamundaDeployment res" where
  "decode_CamundaDeployment = decode_struct
     [(''id'', string_field cd_Id_update), (''name'', string_field cd_Name_update),
      (''source'', string_field cd_Source_update),
      (''deploymentTime'', any_field cd_DeploymentTime_update),
      (''tenantId'', string_field cd_TenantId_update)] zero_deployment"

definition decode_Count :: "json \<Rightarrow> Count res" where
  "decode_Count = decode_struct [(''count'', int_field count_Count_update)] \<lparr>count_Count = 0\<rparr>"

definition decode_HistoricProcessInstance :: "json \<Rightarrow> HistoricProcessInstance res" where
  "decode_HistoricProcessInstance = decode_struct
     [(''id'', string_field hi_Id_update),
      (''superProcessInstanceId'', string_field hi_SuperProcessInstanceId_update),
      (''superCaseInstanceId'', string_field hi_SuperCaseInstanceId_update),
      (''caseInstanceId'', string_field hi_CaseInstanceId_update),
      (''processDefinitionName'', string_field hi_ProcessDefinitionName_update),
      (''processDefinitionKey'', string_field hi_ProcessDefinitionKey_update),
      (''processDefinitionVersion'', float_field hi_ProcessDefinitionVersion_update),
      (''processDefinitionId'', string_field hi_ProcessDefinitionId_update),
      (''businessKey'', string_field hi_BusinessKey_update),
      (''startTime'', string_field hi_StartTime_update), (''endTime'', string_field hi_EndTime_update),
      (''durationInMillis'', float_field hi_DurationInMillis_update),
      (''startUserId'', string_field hi_StartUserId_update),
      (''startActivityId'', string_field hi_StartActivityId_update),
      (''deleteReason'', string_field hi_DeleteReason_update),
      (''tenantId'', string_field hi_TenantId_update), (''state'', string_field hi_State_update)]
     zero_history"

text \<open>The methods of \<open>VidUpdateable\<close>: deployments are known by \<open>Id\<close>, definitions by \<open>DeploymentId\<close>.\<close>

definition ProcessDefinition_SetDeploymentId :: "string \<Rightarrow> ProcessDefinition \<Rightarrow> ProcessDefinition" where
  "ProcessDefinition_SetDeploymentId i d = d\<lparr>pd_DeploymentId := i\<rparr>"

definition ProcessDefinition_GetDeploymentId :: "ProcessDefinition \<Rightarrow> string" where
  "ProcessDefinition_GetDeploymentId d = pd_DeploymentId d"

definition CamundaDeployment_SetDeploymentId :: "string \<Rightarrow> CamundaDeployment \<Rightarrow> CamundaDeployment" where
  "CamundaDeployment_SetDeploymentId i d = d\<lparr>cd_Id := i\<rparr>"

definition CamundaDeployment_GetDeploymentId :: "CamundaDeployment \<Rightarrow> string" where
  "CamundaDeployment_GetDeploymentId d = cd_Id d"

text \<open>
  What clients send to deploy (\<open>model.go\<close>). \<open>Diagram\<close> and \<open>IncidentHandling\<close> are structs of
  another module; the fields here are those the wrapper reads.
\<close>

record IncidentHandling =
  ih_Restart :: bool
  ih_Notify :: bool

record Diagram =
  dg_XmlDeployed :: string
  dg_Svg :: string

record DeploymentMessage =
  dm_Id :: string
  dm_Name :: string
  dm_Diagram :: Diagram
  dm_IncidentHandling :: "IncidentHandling option"
  dm_UserId :: string
  dm_Source :: string

end
