(* ===== verification/Auth.thy ===== *)
theory Auth
  imports Model
begin

text \<open>
  The access token of the wrapper for other services (\<open>lib/auth/access.go\<close>) and the user's token
  (\<open>lib/auth/auth.go\<close>). The environment answers requests and tells the time (seconds since
  1970); the floating-point seconds of the code are rational numbers here.
\<close>

section \<open>The wrapper's own token\<close>

record OpenidToken =
  AccessToken :: string
  ExpiresIn :: rat
  RefreshExpiresIn :: rat
  RefreshToken :: string
  TokenType :: string
  RequestTime :: rat

definition zero_token :: OpenidToken where
  "zero_token = \<lparr>AccessToken = '''', ExpiresIn = 0, RefreshExpiresIn = 0, RefreshToken = '''',
     TokenType = '''', RequestTime = 0\<rparr>"

definition decode_OpenidToken :: "json \<Rightarrow> OpenidToken res" where
  "decode_OpenidToken = decode_struct
     [(''access_token'', string_field AccessToken_update), (''expires_in'', float_field ExpiresIn_update),
      (''refresh_expires_in'', float_field RefreshExpiresIn_update),
      (''refresh_token'', string_field RefreshToken_update),
      (''token_type'', string_field TokenType_update)] zero_token"

record auth_config =
  AuthEndpoint :: string
  AuthClientId :: string
  AuthClientSecret :: string

text \<open>The request that both functions post, with the form's values.\<close>

definition token_request :: "auth_config \<Rightarrow> url_values \<Rightarrow> request" where
  "token_request cfg form =
     post_request (AuthEndpoint cfg @ ''/auth/realms/master/protocol/openid-connect/token'')
       ''application/x-www-form-urlencoded'' (TextBody (values_encode form))"

definition GetOpenidToken ::
  "(request \<Rightarrow> 'e \<Rightarrow> reply \<times> 'e) \<Rightarrow> ('e \<Rightarrow> rat) \<Rightarrow> auth_config \<Rightarrow> 'e \<Rightarrow> OpenidToken res \<times> 'e" where
  "GetOpenidToken http now cfg e =
     (case http (token_request cfg
         [(''client_id'', [AuthClientId cfg]), (''client_secret'', [AuthClientSecret cfg]),
          (''grant_type'', [''client_credentials''])]) e of
        (HttpFail err, e1) \<Rightarrow> (Inl err, e1)
      | (Reply st status body js, e1) \<Rightarrow>
          if st \<ge> 300 then (Inl (HttpError (status @ '': '' @ body)), e1)
          else (case js of
                  Inl err \<Rightarrow> (Inl err, e1)
                | Inr j \<Rightarrow> (case decode_OpenidToken j of
                      Inl err \<Rightarrow> (Inl err, e1)
                    | Inr openid \<Rightarrow> (Inr (openid\<lparr>RequestTime := now e\<rparr>), e1))))"

definition RefreshOpenidToken ::
  "(request \<Rightarrow> 'e \<Rightarrow> reply \<times> 'e) \<Rightarrow> ('e \<Rightarrow> rat) \<Rightarrow> auth_config \<Rightarrow> string \<Rightarrow> 'e \<Rightarrow> OpenidToken res \<times> 'e"
  where
  "RefreshOpenidToken http now cfg refreshToken e =
     (case http (token_request cfg
         [(''client_id'', [AuthClientId cfg]), (''client_secret'', [AuthClientSecret cfg]),
          (''refresh_token'', [refreshToken]), (''grant_type'', [''refresh_token''])]) e of
        (HttpFail err, e1) \<Rightarrow> (Inl err, e1)
      | (Reply st status body js, e1) \<Rightarrow>
          if st \<ge> 300 then (Inl (HttpError (status @ '': '' @ body)), e1)
          else (case js of
                  Inl err \<Rightarrow> (Inl err, e1)
                | Inr j \<Rightarrow> (case decode_OpenidToken j of
                      Inl err \<Rightarrow> (Inl err, e1)
                    | Inr openid \<Rightarrow> (Inr (openid\<lparr>RequestTime := now e\<rparr>), e1))))"

text \<open>\<open>EnsureAccess\<close>: the token kept, else a refreshed one, else a new one; the token is state.\<close>

definition EnsureAccess ::
  "(request \<Rightarrow> 'e \<Rightarrow> reply \<times> 'e) \<Rightarrow> ('e \<Rightarrow> rat) \<Rightarrow> auth_config \<Rightarrow>
   OpenidToken \<times> 'e \<Rightarrow> string res \<times> OpenidToken \<times> 'e" where
  "EnsureAccess http now cfg te =
     (case te of (this, e) \<Rightarrow>
        let duration = now e - RequestTime this; buffer = 10;
            renew = (\<lambda>e1. case GetOpenidToken http now cfg e1 of
                (Inl err, e2) \<Rightarrow> (Inl err, zero_token, e2)
              | (Inr openid, e2) \<Rightarrow> (Inr (''Bearer '' @ AccessToken openid), openid, e2))
        in if AccessToken this \<noteq> '''' \<and> ExpiresIn this > duration + buffer then
             (Inr (''Bearer '' @ AccessToken this), this, e)
           else if RefreshToken this \<noteq> '''' \<and> RefreshExpiresIn this > duration + buffer then
             (case RefreshOpenidToken http now cfg (RefreshToken this) e of
                (Inl err, e1) \<Rightarrow> renew e1
              | (Inr openid, e1) \<Rightarrow> (Inr (''Bearer '' @ AccessToken openid), openid, e1))
           else renew e)"

section \<open>The user's token\<close>

text \<open>The claims the wrapper reads; the parsing of JWTs is a library's (\<open>jwt\<close>, a parameter).\<close>

record Token =
  tk_Token :: string
  tk_Sub :: string
  tk_RealmAccess :: "(string \<times> string list) list"

definition Token_Valid :: "Token \<Rightarrow> goerror option" where
  "Token_Valid t = (if tk_Sub t = '''' then Some (ErrMsg ''missing subject'') else None)"

text \<open>\<open>Parse\<close>: a prefix \<open>bearer \<close> in any case is cut off; \<open>Token\<close> keeps the header as it came.\<close>

definition Parse :: "(string \<Rightarrow> Token res) \<Rightarrow> string \<Rightarrow> Token res" where
  "Parse jwt tok =
     (let raw = (if length tok > 7 \<and> to_lower (take 7 tok) = ''bearer '' then drop 7 tok else tok)
      in case jwt raw of Inl err \<Rightarrow> Inl err | Inr claims \<Rightarrow> Inr (claims\<lparr>tk_Token := tok\<rparr>))"

definition GetRoles :: "Token \<Rightarrow> string list" where
  "GetRoles t = (case map_of (tk_RealmAccess t) ''roles'' of None \<Rightarrow> [] | Some rs \<Rightarrow> rs)"

fun contains :: "string list \<Rightarrow> string \<Rightarrow> bool" where
  "contains [] e = False"
| "contains (a # s) e = (if a = e then True else contains s e)"

definition IsAdmin :: "Token \<Rightarrow> bool" where
  "IsAdmin t = contains (GetRoles t) ''admin''"

definition GetUserId :: "Token \<Rightarrow> string" where
  "GetUserId t = tk_Sub t"

lemma contains_iff: "contains s e \<longleftrightarrow> e \<in> set s"
  by (induction s) auto

section \<open>What a token is worth\<close>

text \<open>
  A token that \<open>EnsureAccess\<close> hands out without asking was requested so recently that it is
  valid for more than ten seconds; every other one was just issued.
\<close>

definition still_valid :: "rat \<Rightarrow> OpenidToken \<Rightarrow> bool" where
  "still_valid t tok \<longleftrightarrow> AccessToken tok \<noteq> '''' \<and> t + 10 < RequestTime tok + ExpiresIn tok"

text \<open>A token that the provider issued: the answer to a request with the form's values, stamped with its time.\<close>

definition issued ::
  "(request \<Rightarrow> 'e \<Rightarrow> reply \<times> 'e) \<Rightarrow> ('e \<Rightarrow> rat) \<Rightarrow> auth_config \<Rightarrow> url_values \<Rightarrow> 'e \<Rightarrow> OpenidToken \<Rightarrow> 'e \<Rightarrow> bool"
  where
  "issued http now cfg form e tok e1 \<longleftrightarrow>
     (\<exists>st status body j t. http (token_request cfg form) e = (Reply st status body (Inr j), e1) \<and> st < 300 \<and>
        decode_OpenidToken j = Inr t \<and> tok = t\<lparr>RequestTime := now e\<rparr>)"

definition credentials_form :: "auth_config \<Rightarrow> url_values" where
  "credentials_form cfg = [(''client_id'', [AuthClientId cfg]), (''client_secret'', [AuthClientSecret cfg]),
     (''grant_type'', [''client_credentials''])]"

definition refresh_form :: "auth_config \<Rightarrow> OpenidToken \<Rightarrow> url_values" where
  "refresh_form cfg this = [(''client_id'', [AuthClientId cfg]), (''client_secret'', [AuthClientSecret cfg]),
     (''refresh_token'', [RefreshToken this]), (''grant_type'', [''refresh_token''])]"

definition refreshable :: "rat \<Rightarrow> OpenidToken \<Rightarrow> bool" where
  "refreshable t tok \<longleftrightarrow> RefreshToken tok \<noteq> '''' \<and> t + 10 < RequestTime tok + RefreshExpiresIn tok"

lemma GetOpenidToken_issued:
  "GetOpenidToken http now cfg e = (Inr tok, e1) \<longleftrightarrow> issued http now cfg (credentials_form cfg) e tok e1"
  by (auto simp: GetOpenidToken_def issued_def credentials_form_def split: prod.splits reply.splits sum.splits)

lemma RefreshOpenidToken_issued:
  "RefreshOpenidToken http now cfg (RefreshToken this) e = (Inr tok, e1) \<longleftrightarrow>
     issued http now cfg (refresh_form cfg this) e tok e1"
  by (auto simp: RefreshOpenidToken_def issued_def refresh_form_def split: prod.splits reply.splits sum.splits)

lemma RefreshOpenidToken_env:
  "snd (RefreshOpenidToken http now cfg (RefreshToken this) e) = snd (http (token_request cfg (refresh_form cfg this)) e)"
  by (auto simp: RefreshOpenidToken_def refresh_form_def split: prod.split reply.split sum.split)

text \<open>
  C28: \<open>EnsureAccess\<close> returns the access token that it keeps, with the prefix \<open>Bearer\<close>. When the token
  kept from before has more than ten seconds to live, it stays and no request is made. Else the token
  now kept is one that the provider just issued: for the refresh token, when that one has more than ten
  seconds to live, or else, and also when that request gave no token, for the client's credentials; its
  time is the time before the request that issued it. On an error no token is kept, and the old one
  was not valid.
\<close>

theorem EnsureAccess_fresh:
  assumes "EnsureAccess http now cfg (this, e) = (r, this', e')"
  shows "case r of
      Inl err \<Rightarrow> \<not> still_valid (now e) this \<and> this' = zero_token
    | Inr tok \<Rightarrow> tok = ''Bearer '' @ AccessToken this' \<and>
        (if still_valid (now e) this then this' = this \<and> e' = e
         else refreshable (now e) this \<and> issued http now cfg (refresh_form cfg this) e this' e' \<or>
           (\<exists>e1. issued http now cfg (credentials_form cfg) e1 this' e' \<and>
              (if refreshable (now e) this
               then e1 = snd (http (token_request cfg (refresh_form cfg this)) e) \<and>
                 (\<nexists>tok2 e2. issued http now cfg (refresh_form cfg this) e tok2 e2)
               else e1 = e)))"
proof -
  define renew where "renew = (\<lambda>e1. case GetOpenidToken http now cfg e1 of
      (Inl err, e2) \<Rightarrow> (Inl err, zero_token, e2)
    | (Inr openid, e2) \<Rightarrow> (Inr (''Bearer '' @ AccessToken openid), openid, e2))"
  have renew: "case r of Inl err \<Rightarrow> this' = zero_token
      | Inr tok \<Rightarrow> tok = ''Bearer '' @ AccessToken this' \<and> issued http now cfg (credentials_form cfg) e1 this' e'"
    if "renew e1 = (r, this', e')" for e1
    using that by (auto simp: renew_def split: prod.splits sum.splits dest: GetOpenidToken_issued [THEN iffD1])
  have duration: "now e - RequestTime this + 10 < x \<longleftrightarrow> now e + 10 < RequestTime this + x" for x by linarith
  obtain rf ef where f: "RefreshOpenidToken http now cfg (RefreshToken this) e = (rf, ef)"
    by (cases "RefreshOpenidToken http now cfg (RefreshToken this) e")
  have ef: "ef = snd (http (token_request cfg (refresh_form cfg this)) e)"
    using RefreshOpenidToken_env [of http now cfg this e] f by simp
  note run = assms [unfolded EnsureAccess_def Let_def, folded renew_def, simplified, unfolded duration f]
  consider (kept) "still_valid (now e) this" "(r, this', e') = (Inr (''Bearer '' @ AccessToken this), this, e)"
    | (refreshed) tok where "\<not> still_valid (now e) this" "refreshable (now e) this" "rf = Inr tok"
        "(r, this', e') = (Inr (''Bearer '' @ AccessToken tok), tok, ef)"
    | (failed) err where "\<not> still_valid (now e) this" "refreshable (now e) this" "rf = Inl err"
        "renew ef = (r, this', e')"
    | (new) "\<not> still_valid (now e) this" "\<not> refreshable (now e) this" "renew e = (r, this', e')"
    using run by (auto simp: still_valid_def refreshable_def renew_def split: if_splits sum.splits)
  then show ?thesis
  proof cases
    case refreshed
    with f have "issued http now cfg (refresh_form cfg this) e this' e'"
      using RefreshOpenidToken_issued [of http now cfg this e] by simp
    with refreshed show ?thesis by simp
  next
    case failed
    with f have "\<nexists>tok2 e2. issued http now cfg (refresh_form cfg this) e tok2 e2"
      using RefreshOpenidToken_issued [of http now cfg this e] by simp
    with failed renew [OF failed(4)] ef show ?thesis by (auto split: sum.splits)
  next
    case new
    with renew [OF new(3)] show ?thesis by (auto split: sum.splits)
  qed simp
qed

text \<open>At the time 1000, a token of 990 is kept, and one of 900 is replaced by a new one.\<close>

theorem EnsureAccess_fresh_witness:
  "still_valid 1000 \<lparr>AccessToken = ''t'', ExpiresIn = 60, RefreshExpiresIn = 0, RefreshToken = '''',
     TokenType = '''', RequestTime = 990\<rparr> \<and>
   issued (\<lambda>_ e. (Reply 200 ''200 OK'' '''' (Inr (JObj [(''access_token'', JStr ''t2'')])), e)) (\<lambda>_. 1000)
     \<lparr>AuthEndpoint = '''', AuthClientId = '''', AuthClientSecret = ''''\<rparr>
     (credentials_form \<lparr>AuthEndpoint = '''', AuthClientId = '''', AuthClientSecret = ''''\<rparr>) ()
     (zero_token\<lparr>AccessToken := ''t2'', RequestTime := 1000\<rparr>) ()"
proof
  let ?t = "\<lparr>AccessToken = ''t'', ExpiresIn = 60, RefreshExpiresIn = 0, RefreshToken = '''',
     TokenType = '''', RequestTime = 990\<rparr>"
  let ?cfg = "\<lparr>AuthEndpoint = '''', AuthClientId = '''', AuthClientSecret = ''''\<rparr>"
  let ?down = "\<lambda>_ e. (HttpFail (HttpError ''down''), e)"
  have "\<not> issued ?down (\<lambda>_. 1000) ?cfg form e tok e1" for form e tok and e1 :: unit by (simp add: issued_def)
  moreover have "EnsureAccess ?down (\<lambda>_. 1000) ?cfg (?t, ()) = (Inr ''Bearer t'', ?t, ())"
    by (simp add: EnsureAccess_def Let_def)
  note EnsureAccess_fresh [OF this]
  ultimately show "still_valid 1000 ?t" by (simp split: if_splits)
  let ?old = "?t\<lparr>RequestTime := 900\<rparr>"
  let ?net = "\<lambda>_ e. (Reply 200 ''200 OK'' '''' (Inr (JObj [(''access_token'', JStr ''t2'')])), e)"
  have "EnsureAccess ?net (\<lambda>_. 1000) ?cfg (?old, ()) =
      (Inr ''Bearer t2'', zero_token\<lparr>AccessToken := ''t2'', RequestTime := 1000\<rparr>, ())"
    by (simp add: EnsureAccess_def Let_def GetOpenidToken_def decode_OpenidToken_def decode_struct_def
        find_field_def string_field_def zero_token_def)
  from EnsureAccess_fresh [OF this] show "issued ?net (\<lambda>_. 1000) ?cfg (credentials_form ?cfg) ()
      (zero_token\<lparr>AccessToken := ''t2'', RequestTime := 1000\<rparr>) ()"
    by (auto simp: still_valid_def refreshable_def)
qed

end
