(* ===== verification/Cache.thy ===== *)
theory Cache
  imports Prelude
begin

text \<open>
  The caches of \<open>lib/shards/cache\<close>: the interface \<open>Cache\<close> (\<open>Use\<close> and \<open>Invalidate\<close>), the cache in
  two layers and the cache that keeps nothing. The two stores that the layers wrap (freecache,
  memcache) are parameters: a record of their operations. \<open>enc\<close> and \<open>dec\<close> stand for
  \<open>json.Marshal\<close> and \<open>json.Unmarshal\<close> at the type of the cached value.
\<close>

section \<open>JSON around the cache\<close>

definition json_marshal :: "('v \<Rightarrow> string + string) \<Rightarrow> 'v \<Rightarrow> string res" where
  "json_marshal enc v = (case enc v of Inl m \<Rightarrow> Inl (JsonError m) | Inr b \<Rightarrow> Inr b)"

definition json_unmarshal :: "(string \<Rightarrow> string + 'v) \<Rightarrow> string \<Rightarrow> 'v res" where
  "json_unmarshal dec b = (case dec b of Inl m \<Rightarrow> Inl (JsonError m) | Inr v \<Rightarrow> Inr v)"

text \<open>A value on its way through the cache: encoded and decoded.\<close>

definition trip :: "('v \<Rightarrow> string + string) \<Rightarrow> (string \<Rightarrow> string + 'v) \<Rightarrow> 'v \<Rightarrow> 'v res" where
  "trip enc dec v = Sum_Type.case_sum Inl (json_unmarshal dec) (json_marshal enc v)"

definition codec_ok :: "('v \<Rightarrow> string + string) \<Rightarrow> (string \<Rightarrow> string + 'v) \<Rightarrow> bool" where
  "codec_ok enc dec \<longleftrightarrow> (\<forall>v. trip enc dec v = Inr v)"

section \<open>The interface\<close>

text \<open>
  \<open>holds c k v\<close>: the cache may answer \<open>k\<close> with \<open>v\<close> without asking. An answer of \<open>Use\<close> was held or
  comes from the getter (through JSON); nothing else comes to be held; what is invalidated is
  no longer held, unless the cache reports that it could not remove it.
\<close>

locale cache_interface =
  fixes use :: "string \<Rightarrow> ('s \<Rightarrow> 'v res \<times> 's) \<Rightarrow> 'c \<times> 's \<Rightarrow> 'v res \<times> 'c \<times> 's"
    and invalidate :: "string \<Rightarrow> 'c \<Rightarrow> unit res \<times> 'c"
    and holds :: "'c \<Rightarrow> string \<Rightarrow> 'v \<Rightarrow> bool"
    and through :: "'v \<Rightarrow> 'v res"
  assumes use_answer:
      "use k g (c, s) = (r, c', s') \<Longrightarrow>
         (s' = s \<and> (\<forall>v. r = Inr v \<longrightarrow> holds c k v) \<and> (\<forall>e. r = Inl e \<longrightarrow> (\<exists>m. e = JsonError m))) \<or>
         (\<exists>e. g s = (Inl e, s') \<and> r = Inl e) \<or> (\<exists>v. g s = (Inr v, s') \<and> r = through v)"
    and use_holds:
      "use k g (c, s) = (r, c', s') \<Longrightarrow> holds c' k' w \<Longrightarrow>
         holds c k' w \<or> (k' = k \<and> (\<exists>v. g s = (Inr v, s') \<and> through v = Inr w))"
    and through_error: "through v = Inl e \<Longrightarrow> \<exists>m. e = JsonError m"
    and invalidate_holds:
      "invalidate k c = (ri, c') \<Longrightarrow> holds c' k' w \<Longrightarrow>
         holds c k' w \<and> (k' = k \<longrightarrow> ri \<noteq> Inr () \<and> ri \<noteq> Inl ErrCacheMiss)"
begin

text \<open>
  What is held for the keys of interest is current: the caller relates keys to values by
  \<open>current\<close>, a function of its own state.
\<close>

definition coherent :: "'k set \<Rightarrow> ('k \<Rightarrow> string) \<Rightarrow> ('k \<Rightarrow> 'v option) \<Rightarrow> 'c \<Rightarrow> bool" where
  "coherent K key current c \<longleftrightarrow> (\<forall>u \<in> K. \<forall>v. holds c (key u) v \<longrightarrow> current u = Some v)"

lemma use_coherent:
  assumes "coherent K key current c" and "use (key u) g (c, s) = (r, c', s')" and "inj key"
    and "\<And>v s'. g s = (Inr v, s') \<Longrightarrow> current u = Some v \<and> through v = Inr v"
  shows "coherent K key current c'"
  unfolding coherent_def
proof (intro ballI allI impI)
  fix u' v assume "u' \<in> K" and "holds c' (key u') v"
  with use_holds [OF assms(2)] consider "holds c (key u') v"
    | w where "key u' = key u" "g s = (Inr w, s')" "through w = Inr v" by blast
  then show "current u' = Some v"
  proof cases
    case 1
    with assms(1) \<open>u' \<in> K\<close> show ?thesis by (auto simp: coherent_def)
  next
    case 2
    with assms(3,4) show ?thesis by (auto dest: injD)
  qed
qed

lemma use_current:
  assumes "coherent K key current c" and "u \<in> K" and "use (key u) g (c, s) = (Inr v, c', s')"
    and "\<And>v s'. g s = (Inr v, s') \<Longrightarrow> current u = Some v \<and> through v = Inr v"
  shows "current u = Some v"
  using use_answer [OF assms(3)] assms(1,2,4) by (force simp: coherent_def)

lemma use_error:
  assumes "use k g (c, s) = (Inl e, c', s')" and "\<nexists>m. e = JsonError m"
  shows "g s = (Inl e, s')"
  using use_answer [OF assms(1)] assms(2) through_error by (metis Inl_inject)

lemma use_state: "use k g (c, s) = (r, c', s') \<Longrightarrow> s' = s \<or> s' = snd (g s)"
  using use_answer by fastforce

lemma invalidate_coherent:
  assumes "coherent K key current c" and "invalidate (key u) c = (r, c')" and "inj key"
    and "\<And>u'. u' \<noteq> u \<Longrightarrow> current' u' = current u'" and "r = Inr () \<or> r = Inl ErrCacheMiss"
  shows "coherent K key current' c'"
  unfolding coherent_def
proof (intro ballI allI impI)
  fix u' v assume u': "u' \<in> K" and v: "holds c' (key u') v"
  from invalidate_holds [OF assms(2) v] assms(3,5) have "holds c (key u') v" "u' \<noteq> u"
    by (auto dest: injD)
  with assms(1,4) u' show "current' u' = Some v" by (auto simp: coherent_def)
qed

end

section \<open>The cache that keeps nothing\<close>

definition none_use ::
  "('v \<Rightarrow> string + string) \<Rightarrow> (string \<Rightarrow> string + 'v) \<Rightarrow>
   string \<Rightarrow> ('s \<Rightarrow> 'v res \<times> 's) \<Rightarrow> unit \<times> 's \<Rightarrow> 'v res \<times> unit \<times> 's" where
  "none_use enc dec key getter cs =
     (case getter (snd cs) of
        (Inl e, s1) \<Rightarrow> (Inl e, (), s1)
      | (Inr temp, s1) \<Rightarrow>
          (case json_marshal enc temp of
             Inl e \<Rightarrow> (Inl e, (), s1)
           | Inr v \<Rightarrow> (json_unmarshal dec v, (), s1)))"

definition none_invalidate :: "string \<Rightarrow> unit \<Rightarrow> unit res \<times> unit" where
  "none_invalidate key c = (Inr (), c)"

lemma marshal_error: "json_marshal enc v = Inl e \<Longrightarrow> \<exists>m. e = JsonError m"
  by (auto simp: json_marshal_def split: sum.splits)

lemma unmarshal_error: "json_unmarshal dec b = Inl e \<Longrightarrow> \<exists>m. e = JsonError m"
  by (auto simp: json_unmarshal_def split: sum.splits)

lemma trip_error: "trip enc dec v = Inl e \<Longrightarrow> \<exists>m. e = JsonError m"
  by (auto simp: trip_def split: sum.splits dest: marshal_error unmarshal_error)

interpretation none: cache_interface "none_use enc dec" none_invalidate "\<lambda>_ _ _. False" "trip enc dec"
  for enc :: "'v \<Rightarrow> string + string" and dec :: "string \<Rightarrow> string + 'v"
  by unfold_locales
    (auto simp: none_use_def trip_def split: prod.splits sum.splits
        dest: marshal_error unmarshal_error)

section \<open>The cache in two layers\<close>

record 's store_ops =
  st_get :: "string \<Rightarrow> 's \<Rightarrow> string res \<times> 's"
  st_set :: "string \<Rightarrow> string \<Rightarrow> int \<Rightarrow> 's \<Rightarrow> unit res \<times> 's"
  st_del :: "string \<Rightarrow> 's \<Rightarrow> unit res \<times> 's"

record CacheConfig =
  L1Expiration :: int
  L1Size :: int
  L2Expiration :: int
  L2MemcacheUrls :: "string list"

definition DefaultL1Expiration :: int where "DefaultL1Expiration = 10"
definition DefaultL1Size :: int where "DefaultL1Size = 100 * 1024 * 1024"
definition DefaultL2Expiration :: int where "DefaultL2Expiration = 300"

record ('a, 'b) LayeredCache =
  l1 :: 'a
  l2 :: "'b option"
  config :: CacheConfig

definition cache_config :: "CacheConfig option \<Rightarrow> CacheConfig" where
  "cache_config c0 =
     (let c1 = (case c0 of
                  None \<Rightarrow> \<lparr>L1Expiration = 0, L1Size = 0, L2Expiration = 0, L2MemcacheUrls = []\<rparr>
                | Some c \<Rightarrow> c);
          c2 = (if L1Expiration c1 = 0 then c1\<lparr>L1Expiration := DefaultL1Expiration\<rparr> else c1);
          c3 = (if L1Size c2 = 0 then c2\<lparr>L1Size := DefaultL1Size\<rparr> else c2)
      in if L2Expiration c3 = 0 then c3\<lparr>L2Expiration := DefaultL2Expiration\<rparr> else c3)"

definition cache_new ::
  "(int \<Rightarrow> 'a) \<Rightarrow> (string list \<Rightarrow> 'b) \<Rightarrow> CacheConfig option \<Rightarrow> ('a, 'b) LayeredCache" where
  "cache_new new_l1 new_l2 c0 =
     (let c = cache_config c0
      in \<lparr>l1 = new_l1 (L1Size c),
          l2 = (if L2MemcacheUrls c \<noteq> [] then Some (new_l2 (L2MemcacheUrls c)) else None),
          config = c\<rparr>)"

text \<open>\<open>Get\<close>: a failure of the second layer is its own error, except a miss.\<close>

definition lc_get ::
  "'a store_ops \<Rightarrow> 'b store_ops \<Rightarrow> string \<Rightarrow> ('a, 'b) LayeredCache \<Rightarrow> string res \<times> ('a, 'b) LayeredCache"
  where
  "lc_get o1 o2 key c =
     (case st_get o1 key (l1 c) of
        (Inr v, a1) \<Rightarrow> (Inr v, c\<lparr>l1 := a1\<rparr>)
      | (Inl e, a1) \<Rightarrow>
          (case l2 c of
             None \<Rightarrow> (Inl e, c\<lparr>l1 := a1\<rparr>)
           | Some b \<Rightarrow>
               (case st_get o2 key b of
                  (Inl e2, b1) \<Rightarrow>
                    (Inl (if e2 = ErrCacheMiss then ErrCacheNotFound else e2), c\<lparr>l1 := a1, l2 := Some b1\<rparr>)
                | (Inr v, b1) \<Rightarrow>
                    (Inr v, c\<lparr>l1 := snd (st_set o1 key v (L1Expiration (config c)) a1),
                              l2 := Some b1\<rparr>))))"

definition lc_set ::
  "'a store_ops \<Rightarrow> 'b store_ops \<Rightarrow> string \<Rightarrow> string \<Rightarrow> ('a, 'b) LayeredCache \<Rightarrow> ('a, 'b) LayeredCache"
  where
  "lc_set o1 o2 key v c =
     (let c1 = c\<lparr>l1 := snd (st_set o1 key v (L1Expiration (config c)) (l1 c))\<rparr>
      in case l2 c1 of
           None \<Rightarrow> c1
         | Some b \<Rightarrow> c1\<lparr>l2 := Some (snd (st_set o2 key v (L2Expiration (config c1)) b))\<rparr>)"

definition lc_use ::
  "'a store_ops \<Rightarrow> 'b store_ops \<Rightarrow> ('v \<Rightarrow> string + string) \<Rightarrow> (string \<Rightarrow> string + 'v) \<Rightarrow>
   string \<Rightarrow> ('s \<Rightarrow> 'v res \<times> 's) \<Rightarrow> ('a, 'b) LayeredCache \<times> 's \<Rightarrow>
   'v res \<times> ('a, 'b) LayeredCache \<times> 's" where
  "lc_use o1 o2 enc dec key getter cs =
     (case lc_get o1 o2 key (fst cs) of
        (Inr item, c1) \<Rightarrow> (json_unmarshal dec item, c1, snd cs)
      | (Inl _, c1) \<Rightarrow>
          (case getter (snd cs) of
             (Inl e, s1) \<Rightarrow> (Inl e, c1, s1)
           | (Inr temp, s1) \<Rightarrow>
               (case json_marshal enc temp of
                  Inl e \<Rightarrow> (Inl e, c1, s1)
                | Inr v \<Rightarrow> (json_unmarshal dec v, lc_set o1 o2 key v c1, s1))))"

definition lc_invalidate ::
  "'a store_ops \<Rightarrow> 'b store_ops \<Rightarrow> string \<Rightarrow> ('a, 'b) LayeredCache \<Rightarrow> unit res \<times> ('a, 'b) LayeredCache"
  where
  "lc_invalidate o1 o2 key c =
     (let c1 = c\<lparr>l1 := snd (st_del o1 key (l1 c))\<rparr>
      in case l2 c1 of
           None \<Rightarrow> (Inr (), c1)
         | Some b \<Rightarrow> (case st_del o2 key b of (r, b1) \<Rightarrow> (r, c1\<lparr>l2 := Some b1\<rparr>)))"

text \<open>
  The documented behaviour of a store: it answers with what it contains, contains at most what
  was put there (entries may expire or be evicted at any time), and does not contain what it
  has deleted or has reported missing. \<open>always\<close> says that deleting cannot fail (freecache).
\<close>

definition store_ok :: "bool \<Rightarrow> 's store_ops \<Rightarrow> ('s \<Rightarrow> string \<rightharpoonup> string) \<Rightarrow> bool" where
  "store_ok always ops contents \<longleftrightarrow>
     (\<forall>k s r s1. st_get ops k s = (r, s1) \<longrightarrow>
        contents s1 \<subseteq>\<^sub>m contents s \<and> (\<forall>v. r = Inr v \<longrightarrow> contents s k = Some v)) \<and>
     (\<forall>k v n s. contents (snd (st_set ops k v n s)) \<subseteq>\<^sub>m (contents s)(k \<mapsto> v)) \<and>
     (\<forall>k s r s1. st_del ops k s = (r, s1) \<longrightarrow>
        contents s1 \<subseteq>\<^sub>m contents s \<and>
        (always \<or> r = Inr () \<or> r = Inl ErrCacheMiss \<longrightarrow> contents s1 k = None))"

definition lc_holds ::
  "('a \<Rightarrow> string \<rightharpoonup> string) \<Rightarrow> ('b \<Rightarrow> string \<rightharpoonup> string) \<Rightarrow> (string \<Rightarrow> string + 'v) \<Rightarrow>
   ('a, 'b) LayeredCache \<Rightarrow> string \<Rightarrow> 'v \<Rightarrow> bool" where
  "lc_holds ct1 ct2 dec c k v \<longleftrightarrow>
     (\<exists>b. json_unmarshal dec b = Inr v \<and>
        (ct1 (l1 c) k = Some b \<or> (\<exists>m. l2 c = Some m \<and> ct2 m k = Some b)))"

lemma store_okD:
  assumes "store_ok always ops contents"
  shows "st_get ops k s = (r, s1) \<Longrightarrow> contents s1 \<subseteq>\<^sub>m contents s"
    and "st_get ops k s = (Inr v, s1) \<Longrightarrow> contents s k = Some v"
    and "contents (snd (st_set ops k v n s)) \<subseteq>\<^sub>m (contents s)(k \<mapsto> v)"
    and "st_del ops k s = (r', s1) \<Longrightarrow> contents s1 \<subseteq>\<^sub>m contents s"
    and "st_del ops k s = (r', s1) \<Longrightarrow> always \<or> r' = Inr () \<or> r' = Inl ErrCacheMiss \<Longrightarrow>
      contents s1 k = None"
  using assms unfolding store_ok_def by blast+

text \<open>Everything the layers contain: the contents of both.\<close>

definition lc_contents ::
  "('a \<Rightarrow> string \<rightharpoonup> string) \<Rightarrow> ('b \<Rightarrow> string \<rightharpoonup> string) \<Rightarrow>
   ('a, 'b) LayeredCache \<Rightarrow> (string \<times> string) set" where
  "lc_contents ct1 ct2 c =
     {(k, b). ct1 (l1 c) k = Some b \<or> (\<exists>m. l2 c = Some m \<and> ct2 m k = Some b)}"

lemma map_le_someD: "f \<subseteq>\<^sub>m g \<Longrightarrow> f k = Some v \<Longrightarrow> g k = Some v"
  by (metis domI map_le_def)

lemma lc_get_contents:
  assumes ok1: "store_ok True o1 ct1" and ok2: "store_ok False o2 ct2"
    and "lc_get o1 o2 k c = (r, c1)"
  shows "lc_contents ct1 ct2 c1 \<subseteq> lc_contents ct1 ct2 c"
    and "r = Inr b \<Longrightarrow> (k, b) \<in> lc_contents ct1 ct2 c"
proof -
  obtain r1 a1 where g1: "st_get o1 k (l1 c) = (r1, a1)" by (cases "st_get o1 k (l1 c)")
  note le1 = store_okD(1) [OF ok1 g1]
  show "lc_contents ct1 ct2 c1 \<subseteq> lc_contents ct1 ct2 c"
  proof (cases r1)
    case (Inr v)
    with g1 assms have "c1 = c\<lparr>l1 := a1\<rparr>" by (simp add: lc_get_def)
    with le1 show ?thesis by (auto simp: lc_contents_def dest: map_le_someD)
  next
    case (Inl e)
    note e1 = this
    show ?thesis
    proof (cases "l2 c")
      case None
      with e1 g1 assms have "c1 = c\<lparr>l1 := a1\<rparr>" by (simp add: lc_get_def)
      with le1 show ?thesis by (auto simp: lc_contents_def dest: map_le_someD)
    next
      case (Some m)
      obtain r2 m1 where g2: "st_get o2 k m = (r2, m1)" by (cases "st_get o2 k m")
      note le2 = store_okD(1) [OF ok2 g2]
      show ?thesis
      proof (cases r2)
        case (Inl e2)
        with e1 g1 Some g2 assms have "c1 = c\<lparr>l1 := a1, l2 := Some m1\<rparr>"
          by (simp add: lc_get_def)
        with le1 le2 Some show ?thesis by (auto simp: lc_contents_def dest: map_le_someD)
      next
        case (Inr v)
        have v: "ct2 m k = Some v" using store_okD(2) [OF ok2] g2 Inr by blast
        from e1 g1 Some g2 Inr assms
        have "c1 = c\<lparr>l1 := snd (st_set o1 k v (L1Expiration (config c)) a1), l2 := Some m1\<rparr>"
          by (simp add: lc_get_def)
        moreover have "ct1 (snd (st_set o1 k v (L1Expiration (config c)) a1)) \<subseteq>\<^sub>m (ct1 a1)(k \<mapsto> v)"
          by (rule store_okD(3) [OF ok1])
        ultimately show ?thesis using le1 le2 Some v
          by (auto simp: lc_contents_def dest!: map_le_someD split: if_splits)
      qed
    qed
  qed
  show "r = Inr b \<Longrightarrow> (k, b) \<in> lc_contents ct1 ct2 c"
    using assms(3) store_okD(2) [OF ok1] store_okD(2) [OF ok2]
    by (fastforce simp: lc_get_def lc_contents_def split: prod.splits sum.splits option.splits)
qed

lemma lc_set_contents:
  assumes ok1: "store_ok True o1 ct1" and ok2: "store_ok False o2 ct2"
  shows "lc_contents ct1 ct2 (lc_set o1 o2 k v c) \<subseteq> insert (k, v) (lc_contents ct1 ct2 c)"
  using store_okD(3) [OF ok1, of k v "L1Expiration (config c)" "l1 c"]
    store_okD(3) [OF ok2, of k v "L2Expiration (config c)"]
  by (fastforce simp: lc_set_def lc_contents_def Let_def dest: map_le_someD
      split: option.splits if_splits)

lemma lc_invalidate_contents:
  assumes ok1: "store_ok True o1 ct1" and ok2: "store_ok False o2 ct2"
    and "lc_invalidate o1 o2 k c = (r, c1)"
  shows "lc_contents ct1 ct2 c1 \<subseteq> lc_contents ct1 ct2 c"
    and "r = Inr () \<or> r = Inl ErrCacheMiss \<Longrightarrow> (k, b) \<notin> lc_contents ct1 ct2 c1"
proof -
  obtain r1 a1 where d1: "st_del o1 k (l1 c) = (r1, a1)" by (cases "st_del o1 k (l1 c)")
  note le1 = store_okD(4) [OF ok1 d1]
  have gone1: "ct1 a1 k = None" using store_okD(5) [OF ok1 d1] by simp
  have "lc_contents ct1 ct2 c1 \<subseteq> lc_contents ct1 ct2 c \<and>
    (r = Inr () \<or> r = Inl ErrCacheMiss \<longrightarrow> (k, b) \<notin> lc_contents ct1 ct2 c1)"
  proof (cases "l2 c")
    case None
    with d1 assms le1 gone1 show ?thesis
      by (auto simp: lc_invalidate_def lc_contents_def dest: map_le_someD)
  next
    case (Some m)
    obtain r2 m1 where d2: "st_del o2 k m = (r2, m1)" by (cases "st_del o2 k m")
    with d1 Some assms have "r = r2" "c1 = c\<lparr>l1 := a1, l2 := Some m1\<rparr>"
      by (auto simp: lc_invalidate_def)
    with Some le1 gone1 store_okD(4,5) [OF ok2 d2] show ?thesis
      by (auto simp: lc_contents_def dest: map_le_someD)
  qed
  then show "lc_contents ct1 ct2 c1 \<subseteq> lc_contents ct1 ct2 c"
    "r = Inr () \<or> r = Inl ErrCacheMiss \<Longrightarrow> (k, b) \<notin> lc_contents ct1 ct2 c1" by auto
qed

lemma lc_holds_contents:
  "lc_holds ct1 ct2 dec c k v \<longleftrightarrow> (\<exists>b. (k, b) \<in> lc_contents ct1 ct2 c \<and> json_unmarshal dec b = Inr v)"
  by (auto simp: lc_holds_def lc_contents_def)

text \<open>The layered cache keeps the laws of the interface, on stores that behave as documented.\<close>

lemma layered_cache_interface:
  assumes ok1: "store_ok True o1 ct1" and ok2: "store_ok False o2 ct2"
  shows "cache_interface (lc_use o1 o2 enc dec) (lc_invalidate o1 o2) (lc_holds ct1 ct2 dec) (trip enc dec)"
proof
  fix k g c s r c' s' assume u: "lc_use o1 o2 enc dec k g (c, s) = (r, c', s')"
  obtain r1 c1 where g: "lc_get o1 o2 k c = (r1, c1)" by (cases "lc_get o1 o2 k c")
  note get = lc_get_contents [OF ok1 ok2 g]
  show "(s' = s \<and> (\<forall>v. r = Inr v \<longrightarrow> lc_holds ct1 ct2 dec c k v) \<and>
          (\<forall>e. r = Inl e \<longrightarrow> (\<exists>m. e = JsonError m))) \<or>
        (\<exists>e. g s = (Inl e, s') \<and> r = Inl e) \<or> (\<exists>v. g s = (Inr v, s') \<and> r = trip enc dec v)"
  proof (cases r1)
    case (Inr b)
    with u g have "r = json_unmarshal dec b" "s' = s" by (auto simp: lc_use_def)
    with get(2) [OF Inr] show ?thesis
      by (auto simp: lc_holds_contents dest: unmarshal_error [OF sym] unmarshal_error)
  next
    case (Inl e)
    with u g show ?thesis
      by (auto simp: lc_use_def trip_def split: prod.splits sum.splits)
  qed
  fix k' w assume w: "lc_holds ct1 ct2 dec c' k' w"
  then obtain b where b: "(k', b) \<in> lc_contents ct1 ct2 c'" "json_unmarshal dec b = Inr w"
    by (auto simp: lc_holds_contents)
  show "lc_holds ct1 ct2 dec c k' w \<or> (k' = k \<and> (\<exists>v. g s = (Inr v, s') \<and> trip enc dec v = Inr w))"
  proof (cases "c' = c1")
    case True
    with b get(1) show ?thesis by (auto simp: lc_holds_contents)
  next
    case False
    with u g obtain v b' where v: "g s = (Inr v, s')" "json_marshal enc v = Inr b'"
      "c' = lc_set o1 o2 k b' c1"
      by (auto simp: lc_use_def split: prod.splits sum.splits)
    with b(1) lc_set_contents [OF ok1 ok2, of k b' c1] get(1)
    have "(k', b) \<in> lc_contents ct1 ct2 c \<or> (k' = k \<and> b = b')" by auto
    with b(2) v(1,2) show ?thesis by (auto simp: lc_holds_contents trip_def)
  qed
next
  fix v e assume "trip enc dec v = Inl e"
  then show "\<exists>m. e = JsonError m" by (rule trip_error)
next
  fix k c ri c' k' w
  assume i: "lc_invalidate o1 o2 k c = (ri, c')" and w: "lc_holds ct1 ct2 dec c' k' w"
  from lc_invalidate_contents [OF ok1 ok2 i] w
  show "lc_holds ct1 ct2 dec c k' w \<and> (k' = k \<longrightarrow> ri \<noteq> Inr () \<and> ri \<noteq> Inl ErrCacheMiss)"
    by (auto simp: lc_holds_contents)
qed

section \<open>Properties\<close>

text \<open>A store as a plain map: the parameter of the witnesses.\<close>

definition map_store :: "(string \<rightharpoonup> string) store_ops" where
  "map_store =
     \<lparr>st_get = (\<lambda>k s. (case s k of None \<Rightarrow> Inl ErrCacheMiss | Some v \<Rightarrow> Inr v, s)),
      st_set = (\<lambda>k v n s. (Inr (), s(k \<mapsto> v))),
      st_del = (\<lambda>k s. (if s k = None then Inl ErrCacheMiss else Inr (), s(k := None)))\<rparr>"

lemma map_store_ok: "store_ok b map_store (\<lambda>s. s)"
  by (auto simp: store_ok_def map_store_def split: option.splits)

text \<open>
  C30: the layered cache never answers with a value of its own making: an answer of \<open>Use\<close> is the
  getter's (through JSON), or one that a layer contained for that key; after an \<open>Invalidate\<close> that
  reports success no layer contains the key; other keys gain nothing from either. On stores
  that behave as documented, whatever they evict.
\<close>

theorem layered_cache_sound:
  assumes "store_ok True o1 ct1" and "store_ok False o2 ct2"
  shows "cache_interface (lc_use o1 o2 enc dec) (lc_invalidate o1 o2) (lc_holds ct1 ct2 dec) (trip enc dec)"
  by (rule layered_cache_interface [OF assms])

theorem layered_cache_sound_witness:
  "cache_interface (lc_use map_store map_store Inr Inr) (lc_invalidate map_store map_store)
     (lc_holds (\<lambda>s. s) (\<lambda>s. s) Inr) (trip Inr Inr)"
  by (rule layered_cache_sound [OF map_store_ok map_store_ok])

text \<open>
  The configuration of a new cache: every number that is not given (\<open>0\<close>) has its default, the others
  are as given, and there is a second layer exactly when it has an address.
\<close>

lemma cache_new_config:
  "config (cache_new f g (Some c)) =
     c\<lparr>L1Expiration := if L1Expiration c = 0 then DefaultL1Expiration else L1Expiration c,
       L1Size := if L1Size c = 0 then DefaultL1Size else L1Size c,
       L2Expiration := if L2Expiration c = 0 then DefaultL2Expiration else L2Expiration c\<rparr>"
  "l2 (cache_new f g (Some c)) = None \<longleftrightarrow> L2MemcacheUrls c = []"
  by (simp_all add: cache_new_def cache_config_def Let_def)

end
