(* ===== verification/Shards.thy ===== *)
theory Shards
  imports Sql Cache "HOL-Library.AList" "HOL-Library.Multiset"
begin

text \<open>
  The assignment of users to Camunda engines (\<open>lib/shards\<close>): the tables \<open>Shard\<close> and
  \<open>ShardsMapping\<close>, the statements of \<open>sql.go\<close> on them, and the operations of \<open>shards.go\<close>. The
  cache is a parameter: \<open>use\<close> and \<open>invalidate\<close> are the methods of the interface \<open>Cache\<close>.
\<close>

section \<open>Tables and statements\<close>

record shard_db =
  shard_table :: "string list"
  mapping_table :: "(string \<times> string) list"

text \<open>A \<open>VARCHAR(255)\<close> counts characters: the bytes that do not continue a UTF-8 sequence.\<close>

definition char_count :: "string \<Rightarrow> nat" where
  "char_count s = length (filter (\<lambda>c. \<not> (digit7 c \<and> \<not> digit6 c)) s)"

definition varchar255 :: "string \<Rightarrow> bool" where
  "varchar255 s \<longleftrightarrow> char_count s \<le> 255"

definition too_long :: goerror where
  "too_long = DbError ''pq: value too long for type character varying(255)''"

definition SqlSelectShardByUser :: "string \<Rightarrow> (shard_db, string option) stmt" where
  "SqlSelectShardByUser user d = Inr (map_of (mapping_table d) user, d)"

definition SqlDeleteUserShard :: "string \<Rightarrow> (shard_db, unit) stmt" where
  "SqlDeleteUserShard user d =
     Inr ((), d\<lparr>mapping_table := filter (\<lambda>m. fst m \<noteq> user) (mapping_table d)\<rparr>)"

definition SqlCreateUserShard :: "string \<Rightarrow> string \<Rightarrow> (shard_db, unit) stmt" where
  "SqlCreateUserShard user address d =
     (if \<not> varchar255 user \<or> \<not> varchar255 address then Inl too_long
      else if user \<in> fst ` set (mapping_table d) then
        Inl (DbError ''pq: duplicate key value violates unique constraint'')
      else if address \<notin> set (shard_table d) then
        Inl (DbError ''pq: insert or update violates foreign key constraint'')
      else Inr ((), d\<lparr>mapping_table := mapping_table d @ [(user, address)]\<rparr>))"

definition SqlEnsureShard :: "string \<Rightarrow> (shard_db, unit) stmt" where
  "SqlEnsureShard address d =
     (if \<not> varchar255 address then Inl too_long
      else if address \<in> set (shard_table d) then Inr ((), d)
      else Inr ((), d\<lparr>shard_table := shard_table d @ [address]\<rparr>))"

definition SqlDeleteShard :: "string \<Rightarrow> (shard_db, unit) stmt" where
  "SqlDeleteShard address d =
     (if address \<in> set (shard_table d) \<and> address \<in> snd ` set (mapping_table d) then
        Inl (DbError ''pq: update or delete violates foreign key constraint'')
      else Inr ((), d\<lparr>shard_table := filter (\<lambda>a. a \<noteq> address) (shard_table d)\<rparr>))"

definition SqlDeleteShardUsers :: "string \<Rightarrow> (shard_db, unit) stmt" where
  "SqlDeleteShardUsers address d =
     Inr ((), d\<lparr>mapping_table := filter (\<lambda>m. snd m \<noteq> address) (mapping_table d)\<rparr>)"

definition user_count :: "shard_db \<Rightarrow> string \<Rightarrow> nat" where
  "user_count d address = length (filter (\<lambda>m. snd m = address) (mapping_table d))"

definition SqlShardUserCount :: "(shard_db, (nat \<times> string) list) stmt" where
  "SqlShardUserCount d = Inr (map (\<lambda>a. (user_count d a, a)) (shard_table d), d)"

definition SQLListShards :: "(shard_db, string list) stmt" where
  "SQLListShards d = Inr (shard_table d, d)"

section \<open>Operations\<close>

definition CachePrefix :: string where
  "CachePrefix = ''user-shard.''"

definition MaxInt :: int where
  "MaxInt = 2 ^ 63 - 1"

definition getShardForUser :: "conn \<Rightarrow> string \<Rightarrow> shard_db sql \<Rightarrow> string res \<times> shard_db sql" where
  "getShardForUser con userId =
     andThen (exec con (SqlSelectShardByUser userId))
       (\<lambda>row s. (case row of None \<Rightarrow> Inl ErrShardNotFound | Some shardUrl \<Rightarrow> Inr shardUrl, s))"

definition removeShardForUser :: "conn \<Rightarrow> string \<Rightarrow> shard_db sql \<Rightarrow> unit res \<times> shard_db sql" where
  "removeShardForUser con userId = exec con (SqlDeleteUserShard userId)"

definition addShardForUser :: "conn \<Rightarrow> string \<Rightarrow> string \<Rightarrow> shard_db sql \<Rightarrow> unit res \<times> shard_db sql" where
  "addShardForUser con userId shardAddress = exec con (SqlCreateUserShard userId shardAddress)"

definition getShardUserCount :: "conn \<Rightarrow> shard_db sql \<Rightarrow> (string \<times> int) list res \<times> shard_db sql" where
  "getShardUserCount con =
     andThen (exec con SqlShardUserCount) (\<lambda>found.
     andThen (fetch found) (\<lambda>rows s.
       (Inr (fold (\<lambda>(userCount, shard). AList.update shard (int userCount)) rows []), s)))"

text \<open>
  The loop over the map of counts; \<open>ord\<close> is the order in which \<open>range\<close> visits its entries,
  which Go leaves open.
\<close>

definition select_min :: "(string \<times> int) list \<Rightarrow> string" where
  "select_min counts =
     snd (fold (\<lambda>(shard, userCount) (mn, shardUrl).
            if mn \<ge> userCount then (userCount, shard) else (mn, shardUrl)) counts (MaxInt, ''''))"

definition selectShard ::
  "((string \<times> int) list \<Rightarrow> (string \<times> int) list) \<Rightarrow> conn \<Rightarrow> shard_db sql \<Rightarrow>
   string res \<times> shard_db sql" where
  "selectShard ord con =
     andThen (getShardUserCount con) (\<lambda>counts s.
       (let shardUrl = select_min (ord counts)
        in if shardUrl = '''' then Inl (ErrMsg ''no shard found'') else Inr shardUrl, s))"

definition getShards :: "conn \<Rightarrow> shard_db sql \<Rightarrow> string list res \<times> shard_db sql" where
  "getShards con = andThen (exec con SQLListShards) fetch"

definition GetShardForUser ::
  "(string \<Rightarrow> (shard_db sql \<Rightarrow> string res \<times> shard_db sql) \<Rightarrow> 'c \<times> shard_db sql \<Rightarrow>
      string res \<times> 'c \<times> shard_db sql) \<Rightarrow>
   string \<Rightarrow> 'c \<times> shard_db sql \<Rightarrow> string res \<times> 'c \<times> shard_db sql" where
  "GetShardForUser use userId = use (CachePrefix @ userId) (getShardForUser Db userId)"

definition set_shard_tx :: "string \<Rightarrow> string \<Rightarrow> shard_db sql \<Rightarrow> unit res \<times> shard_db sql" where
  "set_shard_tx userId shardAddress =
     andThen begin_tx (\<lambda>_.
     andThen (orRollback (removeShardForUser Tx userId)) (\<lambda>_.
     andThen (orRollback (addShardForUser Tx userId shardAddress)) (\<lambda>_. commit)))"

definition SetShardForUser ::
  "(string \<Rightarrow> 'c \<Rightarrow> unit res \<times> 'c) \<Rightarrow> string \<Rightarrow> string \<Rightarrow> 'c \<times> shard_db sql \<Rightarrow>
   unit res \<times> 'c \<times> shard_db sql" where
  "SetShardForUser invalidate userId shardAddress cs =
     (case set_shard_tx userId shardAddress (snd cs) of
        (Inl err, s1) \<Rightarrow> (Inl err, fst cs, s1)
      | (Inr _, s1) \<Rightarrow> (case invalidate (CachePrefix @ userId) (fst cs) of (r, c1) \<Rightarrow> (r, c1, s1)))"

text \<open>The part of \<open>EnsureShardForUser\<close> after a miss, in the open transaction.\<close>

definition assign_shard_tx ::
  "((string \<times> int) list \<Rightarrow> (string \<times> int) list) \<Rightarrow> string \<Rightarrow> shard_db sql \<Rightarrow>
   string res \<times> shard_db sql" where
  "assign_shard_tx ord userId =
     andThen (orRollback (selectShard ord Tx)) (\<lambda>shardUrl.
     andThen (orRollback (addShardForUser Tx userId shardUrl)) (\<lambda>_.
     andThen commit (\<lambda>_ s. (Inr shardUrl, s))))"

definition EnsureShardForUser ::
  "(string \<Rightarrow> (shard_db sql \<Rightarrow> string res \<times> shard_db sql) \<Rightarrow> 'c \<times> shard_db sql \<Rightarrow>
      string res \<times> 'c \<times> shard_db sql) \<Rightarrow>
   ((string \<times> int) list \<Rightarrow> (string \<times> int) list) \<Rightarrow>
   string \<Rightarrow> 'c \<times> shard_db sql \<Rightarrow> string res \<times> 'c \<times> shard_db sql" where
  "EnsureShardForUser use ord userId cs =
     (case begin_tx (snd cs) of
        (Inl err, s1) \<Rightarrow> (Inl err, fst cs, s1)
      | (Inr _, s1) \<Rightarrow>
          (case use (CachePrefix @ userId) (getShardForUser Tx userId) (fst cs, s1) of
             (r, c2, s2) \<Rightarrow>
               if r \<noteq> Inl ErrShardNotFound then (r, c2, snd (commit s2))
               else case assign_shard_tx ord userId s2 of (r', s3) \<Rightarrow> (r', c2, s3)))"

definition EnsureShard :: "string \<Rightarrow> 'c \<times> shard_db sql \<Rightarrow> unit res \<times> 'c \<times> shard_db sql" where
  "EnsureShard shardUrl cs =
     (case exec Db (SqlEnsureShard shardUrl) (snd cs) of (r, s1) \<Rightarrow> (r, fst cs, s1))"

definition SelectShard ::
  "((string \<times> int) list \<Rightarrow> (string \<times> int) list) \<Rightarrow> 'c \<times> shard_db sql \<Rightarrow>
   string res \<times> 'c \<times> shard_db sql" where
  "SelectShard ord cs = (case selectShard ord Db (snd cs) of (r, s1) \<Rightarrow> (r, fst cs, s1))"

definition GetShardUserCount ::
  "'c \<times> shard_db sql \<Rightarrow> (string \<times> int) list res \<times> 'c \<times> shard_db sql" where
  "GetShardUserCount cs = (case getShardUserCount Db (snd cs) of (r, s1) \<Rightarrow> (r, fst cs, s1))"

definition GetShards ::
  "(string \<Rightarrow> (shard_db sql \<Rightarrow> string list res \<times> shard_db sql) \<Rightarrow> 'c \<times> shard_db sql \<Rightarrow>
      string list res \<times> 'c \<times> shard_db sql) \<Rightarrow>
   'c \<times> shard_db sql \<Rightarrow> string list res \<times> 'c \<times> shard_db sql" where
  "GetShards use = use ''shards'' (getShards Db)"

text \<open>\<open>RemoveShard\<close>: the statements are not followed by a rollback when they fail.\<close>

definition RemoveShard :: "string \<Rightarrow> 'c \<times> shard_db sql \<Rightarrow> unit res \<times> 'c \<times> shard_db sql" where
  "RemoveShard shard cs =
     (case andThen begin_tx (\<lambda>_.
           andThen (exec Tx (SqlDeleteShardUsers shard)) (\<lambda>_.
           andThen (exec Tx (SqlDeleteShard shard)) (\<lambda>_. commit))) (snd cs) of
        (r, s1) \<Rightarrow> (r, fst cs, s1))"

section \<open>The tables stay well-formed\<close>

text \<open>What the keys and the reference of the schema guarantee.\<close>

definition shards_inv :: "shard_db \<Rightarrow> bool" where
  "shards_inv d \<longleftrightarrow>
     distinct (shard_table d) \<and> distinct (map fst (mapping_table d)) \<and>
     (\<forall>m \<in> set (mapping_table d). snd m \<in> set (shard_table d) \<and> varchar255 (fst m)) \<and>
     (\<forall>a \<in> set (shard_table d). varchar255 a)"

lemma keeps_statements [safe_intros]:
  "keeps shards_inv (SqlSelectShardByUser u)" "keeps shards_inv (SqlDeleteUserShard u)"
  "keeps shards_inv (SqlCreateUserShard u a)" "keeps shards_inv (SqlEnsureShard a)"
  "keeps shards_inv (SqlDeleteShard a)" "keeps shards_inv (SqlDeleteShardUsers a)"
  "keeps shards_inv SqlShardUserCount" "keeps shards_inv SQLListShards"
  by (auto simp: keeps_def shards_inv_def SqlSelectShardByUser_def SqlDeleteUserShard_def
      SqlCreateUserShard_def SqlEnsureShard_def SqlDeleteShard_def SqlDeleteShardUsers_def
      SqlShardUserCount_def SQLListShards_def distinct_map_filter split: if_splits)

lemma safe_helpers [safe_intros]:
  "safe shards_inv (getShardForUser c u)" "safe shards_inv (removeShardForUser c u)"
  "safe shards_inv (addShardForUser c u a)" "safe shards_inv (getShardUserCount c)"
  "safe shards_inv (selectShard ord c)" "safe shards_inv (getShards c)"
  unfolding getShardForUser_def removeShardForUser_def addShardForUser_def getShardUserCount_def
    selectShard_def getShards_def
  by (intro safe_intros)+

lemma safe_transactions [safe_intros]:
  "safe shards_inv (set_shard_tx u a)" "safe shards_inv (assign_shard_tx ord u)"
  "safe shards_inv (andThen begin_tx (\<lambda>_. andThen (exec Tx (SqlDeleteShardUsers a)) (\<lambda>_.
     andThen (exec Tx (SqlDeleteShard a)) (\<lambda>_. commit))))"
  unfolding set_shard_tx_def assign_shard_tx_def by (intro safe_intros)+

lemma tables_ok_snd: "safe I m \<Longrightarrow> tables_ok I s \<Longrightarrow> tables_ok I (snd (m s))"
  by (simp add: safe_def)

lemma RemoveShard_inv: "tables_ok shards_inv s \<Longrightarrow> tables_ok shards_inv (snd (snd (RemoveShard a (c, s))))"
  using safeD [OF safe_transactions(3)] by (auto simp: RemoveShard_def split: prod.splits)

lemma EnsureShard_inv: "tables_ok shards_inv s \<Longrightarrow> tables_ok shards_inv (snd (snd (EnsureShard a (c, s))))"
  using safeD [OF safe_exec [OF keeps_statements(4)]] by (auto simp: EnsureShard_def split: prod.splits)

lemma SetShardForUser_inv:
  "tables_ok shards_inv s \<Longrightarrow> tables_ok shards_inv (snd (snd (SetShardForUser ivl u a (c, s))))"
  using safeD [OF safe_transactions(1)]
  by (auto simp: SetShardForUser_def split: prod.splits sum.splits)

lemma EnsureShardForUser_inv:
  assumes ci: "cache_interface use ivl hld thr" and s: "tables_ok shards_inv s"
  shows "tables_ok shards_inv (snd (snd (EnsureShardForUser use ord u (c, s))))"
proof -
  obtain rb s1 where b: "begin_tx s = (rb, s1)" by (cases "begin_tx s")
  have s1: "tables_ok shards_inv s1" using safeD [OF safe_begin_tx s b] .
  show ?thesis
  proof (cases rb)
    case (Inr x)
    obtain r c2 s2 where g: "use (CachePrefix @ u) (getShardForUser Tx u) (c, s1) = (r, c2, s2)"
      by (metis prod_cases3)
    have "s2 = s1 \<or> s2 = snd (getShardForUser Tx u s1)"
      by (rule cache_interface.use_state [OF ci g])
    then have s2: "tables_ok shards_inv s2" using s1 tables_ok_snd [OF safe_helpers(1) s1] by auto
    show ?thesis
      using Inr b g tables_ok_snd [OF safe_commit s2] safeD [OF safe_transactions(2) s2]
      by (auto simp: EnsureShardForUser_def split: prod.splits)
  qed (use b s1 in \<open>simp add: EnsureShardForUser_def\<close>)
qed

lemma GetShardForUser_inv:
  assumes ci: "cache_interface use ivl hld thr" and s: "tables_ok shards_inv s"
  shows "tables_ok shards_inv (snd (snd (GetShardForUser use u (c, s))))"
proof -
  obtain r c2 s2 where g: "use (CachePrefix @ u) (getShardForUser Db u) (c, s) = (r, c2, s2)"
    by (metis prod_cases3)
  from cache_interface.use_state [OF ci g] tables_ok_snd [OF safe_helpers(1) s] s
  show ?thesis by (auto simp: GetShardForUser_def g)
qed

section \<open>What the statements do to the assignment\<close>

text \<open>The abstract view: which shard a user has.\<close>

definition shard_of :: "shard_db \<Rightarrow> string \<rightharpoonup> string" where
  "shard_of d = map_of (mapping_table d)"

lemma map_of_filter_fst:
  "map_of (filter (\<lambda>m. fst m \<noteq> u) xs) = (map_of xs)(u := None)"
  by (induction xs) auto

lemma map_of_snoc: "u \<notin> fst ` set xs \<Longrightarrow> map_of (xs @ [(u, a)]) = (map_of xs)(u \<mapsto> a)"
  by (induction xs) auto

lemma create_user_shard:
  "SqlCreateUserShard u a d = Inr (x, d') \<Longrightarrow>
   u \<notin> dom (shard_of d) \<and> a \<in> set (shard_table d) \<and> shard_table d' = shard_table d \<and>
   shard_of d' = (shard_of d)(u \<mapsto> a)"
  by (auto simp: SqlCreateUserShard_def shard_of_def map_of_snoc dom_map_of_conv_image_fst
      simp del: map_of_append split: if_splits)

lemma delete_user_shard:
  "SqlDeleteUserShard u d = Inr (x, d') \<Longrightarrow>
   shard_table d' = shard_table d \<and> shard_of d' = (shard_of d)(u := None)"
  by (auto simp: SqlDeleteUserShard_def shard_of_def map_of_filter_fst)

text \<open>\<open>moves u a d d'\<close>: the tables \<open>d'\<close> are \<open>d\<close> with user \<open>u\<close> on shard \<open>a\<close>.\<close>

definition moves :: "string \<Rightarrow> string \<Rightarrow> shard_db \<Rightarrow> shard_db \<Rightarrow> bool" where
  "moves u a d d' \<longleftrightarrow>
     a \<in> set (shard_table d) \<and> shard_table d' = shard_table d \<and>
     shard_of d' = (shard_of d)(u \<mapsto> a)"

lemma moves_at: "moves u a d d' \<Longrightarrow> shard_of d' u = Some a"
  by (simp add: moves_def)

lemma set_shard_tx_atomic:
  assumes "set_shard_tx u a s = (r, s1)"
  shows "committed s1 = committed s \<or> moves u a (committed s) (committed s1)"
    and "r = Inr () \<Longrightarrow> moves u a (committed s) (committed s1)"
proof -
  obtain rb sb where b: "begin_tx s = (rb, sb)" by (cases "begin_tx s")
  note bc = begin_tx_cases [OF b]
  obtain rd sd where d: "exec_tx (SqlDeleteUserShard u) sb = (rd, sd)"
    by (cases "exec_tx (SqlDeleteUserShard u) sb")
  note dc = exec_tx_cases [OF d]
  obtain ri si where i: "exec_tx (SqlCreateUserShard u a) sd = (ri, si)"
    by (cases "exec_tx (SqlCreateUserShard u a) sd")
  note ic = exec_tx_cases [OF i]
  obtain rc sc where c: "commit si = (rc, sc)" by (cases "commit si")
  note cc = commit_cases [OF c]
  have body: "working si = Some d' \<Longrightarrow> moves u a (committed s) d'"
    if "rb = Inr ()" "rd = Inr ()" "ri = Inr ()" for d'
  proof -
    assume w: "working si = Some d'"
    from dc(2) [OF that(2)] bc(2) [OF that(1)] obtain d1 where d1:
      "tx sd = Some (d1, False)" "SqlDeleteUserShard u (committed s) = Inr ((), d1)" by auto
    with ic(2) [OF that(3)] w have "SqlCreateUserShard u a d1 = Inr ((), d')"
      by (auto simp: working_def)
    from create_user_shard [OF this] delete_user_shard [OF d1(2)]
    show "moves u a (committed s) d'" by (auto simp: moves_def)
  qed
  have "(committed s1 = committed s \<or> moves u a (committed s) (committed s1)) \<and>
    (r = Inr () \<longrightarrow> moves u a (committed s) (committed s1))"
  proof (cases "rb = Inr () \<and> rd = Inr () \<and> ri = Inr ()")
    case True
    with assms b d i c have "r = rc" "s1 = sc"
      by (auto simp: set_shard_tx_def andThen_def orRollback_def removeShardForUser_def
          addShardForUser_def exec_def)
    with True cc(1,2) body bc(1) dc(1) ic(1) show ?thesis by auto
  next
    case False
    with assms b d i bc(1) dc(1) ic(1) show ?thesis
      by (auto simp: set_shard_tx_def andThen_def orRollback_def removeShardForUser_def
          addShardForUser_def exec_def split: sum.splits)
  qed
  then show "committed s1 = committed s \<or> moves u a (committed s) (committed s1)"
    "r = Inr () \<Longrightarrow> moves u a (committed s) (committed s1)" by auto
qed

lemma SetShardForUser_atomic:
  assumes "SetShardForUser ivl u a (c, s) = (r, c1, s1)"
  shows "committed s1 = committed s \<or> moves u a (committed s) (committed s1)"
    and "r = Inr () \<Longrightarrow> moves u a (committed s) (committed s1)"
  using assms set_shard_tx_atomic [of u a s]
  by (auto simp: SetShardForUser_def split: prod.splits sum.splits)

section \<open>The choice of a shard\<close>

lemma select_min_fold:
  fixes counts :: "(string \<times> int) list"
  assumes "fold (\<lambda>(shard, userCount) (mn, shardUrl).
      if mn \<ge> userCount then (userCount, shard) else (mn, shardUrl)) counts (m0, u0) = (m, u)"
  shows "m \<le> m0" and "\<forall>(shard, n) \<in> set counts. m \<le> n"
    and "(m, u) = (m0, u0) \<or> (u, m) \<in> set counts"
  using assms
proof (induction counts arbitrary: m0 u0)
  case (Cons c counts)
  obtain shard n where c: "c = (shard, n)" by (cases c)
  {
    case 1
    then show ?case using Cons.IH(1) [of "if m0 \<ge> n then n else m0" "if m0 \<ge> n then shard else u0"]
      by (auto simp: c split: if_splits)
  next
    case 2
    then show ?case
      using Cons.IH(1) [of "if m0 \<ge> n then n else m0" "if m0 \<ge> n then shard else u0"]
        Cons.IH(2) [of "if m0 \<ge> n then n else m0" "if m0 \<ge> n then shard else u0"]
      by (fastforce simp: c split: if_splits)
  next
    case 3
    then show ?case
      using Cons.IH(3) [of "if m0 \<ge> n then n else m0" "if m0 \<ge> n then shard else u0"]
      by (fastforce simp: c split: if_splits)
  }
qed auto

lemma select_min_least:
  assumes "\<forall>(shard, n) \<in> set counts. n \<le> MaxInt" and "counts \<noteq> []"
  shows "\<exists>n. (select_min counts, n) \<in> set counts \<and> (\<forall>(shard, k) \<in> set counts. n \<le> k)"
proof -
  let ?f = "\<lambda>(shard, userCount) (mn, shardUrl).
      if mn \<ge> userCount then (userCount, shard) else (mn, shardUrl :: string)"
  obtain m u where f: "fold ?f counts (MaxInt, '''') = (m, u)"
    by (cases "fold ?f counts (MaxInt, '''')")
  note mf = select_min_fold [OF f]
  have "(u, m) \<in> set counts"
  proof (cases counts)
    case (Cons c cs)
    obtain shard n where c: "c = (shard, n)" by (cases c)
    with Cons assms(1) have "n \<le> MaxInt" by auto
    with f Cons c have f': "fold ?f cs (n, shard) = (m, u)" by simp
    from select_min_fold(3) [OF f'] Cons c show ?thesis by auto
  qed (use assms(2) in simp)
  with mf(2) f show ?thesis by (auto simp: select_min_def)
qed

text \<open>The map that \<open>getShardUserCount\<close> builds from the rows, when they all arrive.\<close>

lemma update_all_distinct:
  "distinct (map snd rows) \<Longrightarrow> snd ` set rows \<inter> fst ` set acc = {} \<Longrightarrow>
   fold (\<lambda>(n, shard). AList.update shard (int n)) rows acc = acc @ map (\<lambda>(n, shard). (shard, int n)) rows"
proof (induction rows arbitrary: acc)
  case (Cons r rows)
  obtain n shard where r: "r = (n, shard)" by (cases r)
  have "AList.update shard (int n) acc = acc @ [(shard, int n)]" if "shard \<notin> fst ` set acc" for acc
    using that by (induction acc) auto
  with Cons r show ?case by auto
qed simp

text \<open>The counts of a database: every shard with the number of its users.\<close>

definition counts_of :: "shard_db \<Rightarrow> (string \<times> int) list" where
  "counts_of d = map (\<lambda>a. (a, int (user_count d a))) (shard_table d)"

lemma healthy_exec_tx:
  assumes "healthy s" and "tx s = Some (d, False)" and "q d = Inr (a, d')"
  shows "exec Tx q s = (Inr a, s\<lparr>tx := Some (d', False)\<rparr>)"
  using assms by (simp add: healthy_def exec_def exec_tx_def next_fault_def)

lemma healthy_counts:
  assumes "healthy s" and "tx s = Some (d, False)" and "distinct (shard_table d)"
  shows "getShardUserCount Tx s = (Inr (counts_of d), s)"
proof -
  let ?rows = "map (\<lambda>a. (user_count d a, a)) (shard_table d)"
  have "s\<lparr>tx := Some (d, False)\<rparr> = s" using assms(2) by simp
  then have "exec Tx SqlShardUserCount s = (Inr ?rows, s)"
    using healthy_exec_tx [OF assms(1,2), of SqlShardUserCount] by (simp add: SqlShardUserCount_def)
  moreover have "fold (\<lambda>(n, shard). AList.update shard (int n)) ?rows [] = counts_of d"
    using update_all_distinct [of ?rows "[]"] assms(3) by (simp add: counts_of_def comp_def)
  ultimately show ?thesis
    by (simp add: getShardUserCount_def andThen_def healthy_fetch [OF assms(1)])
qed

text \<open>The least loaded shard: what the code promises to select.\<close>

definition least_loaded :: "shard_db \<Rightarrow> string \<Rightarrow> bool" where
  "least_loaded d a \<longleftrightarrow>
     a \<in> set (shard_table d) \<and> (\<forall>b \<in> set (shard_table d). user_count d a \<le> user_count d b)"

text \<open>
  \<open>small\<close>: no shard has the empty address (which the code takes for none), and the counts fit
  in an \<open>int\<close>.
\<close>

definition small :: "shard_db \<Rightarrow> bool" where
  "small d \<longleftrightarrow> '''' \<notin> set (shard_table d) \<and> int (length (mapping_table d)) \<le> MaxInt"

definition any_order :: "((string \<times> int) list \<Rightarrow> (string \<times> int) list) \<Rightarrow> bool" where
  "any_order ord \<longleftrightarrow> (\<forall>xs. set (ord xs) = set xs)"

lemma healthy_selectShard:
  assumes "healthy s" and "tx s = Some (d, False)" and "distinct (shard_table d)"
    and "any_order ord" and "small d" and "shard_table d \<noteq> []"
  shows "\<exists>a. selectShard ord Tx s = (Inr a, s) \<and> least_loaded d a"
proof -
  have cs: "set (ord (counts_of d)) = (\<lambda>a. (a, int (user_count d a))) ` set (shard_table d)"
    using assms(4) by (simp add: any_order_def counts_of_def)
  have "user_count d a \<le> length (mapping_table d)" for a by (simp add: user_count_def)
  then have "int (user_count d a) \<le> MaxInt" for a
    using assms(5) by (meson small_def of_nat_le_iff order_trans)
  then have "\<forall>(shard, n) \<in> set (ord (counts_of d)). n \<le> MaxInt" by (auto simp: cs)
  moreover have "ord (counts_of d) \<noteq> []" using cs assms(6) by auto
  ultimately obtain n where n: "(select_min (ord (counts_of d)), n) \<in> set (ord (counts_of d))"
    "\<forall>(shard, k) \<in> set (ord (counts_of d)). n \<le> k"
    using select_min_least by blast
  then have "least_loaded d (select_min (ord (counts_of d)))"
    unfolding cs by (auto simp: least_loaded_def)
  moreover from this assms(5) have "select_min (ord (counts_of d)) \<noteq> ''''"
    by (auto simp: least_loaded_def small_def)
  ultimately show ?thesis
    using healthy_counts [OF assms(1-3)] by (simp add: selectShard_def andThen_def)
qed

lemma healthy_assign:
  assumes "healthy s" and "tx s = Some (d, False)" and "shards_inv d"
    and "any_order ord" and "small d" and "shard_table d \<noteq> []"
    and "shard_of d u = None" and "varchar255 u"
  shows "\<exists>a. assign_shard_tx ord u s =
      (Inr a, s\<lparr>tx := None, committed := d\<lparr>mapping_table := mapping_table d @ [(u, a)]\<rparr>\<rparr>) \<and>
    least_loaded d a"
proof -
  have "distinct (shard_table d)" using assms(3) by (simp add: shards_inv_def)
  from healthy_selectShard [OF assms(1,2) this assms(4-6)]
  obtain a where a: "selectShard ord Tx s = (Inr a, s)" "least_loaded d a" by blast
  have "varchar255 a" using a(2) assms(3) by (auto simp: least_loaded_def shards_inv_def)
  moreover have "u \<notin> fst ` set (mapping_table d)"
    using assms(7) by (simp add: shard_of_def map_of_eq_None_iff)
  ultimately have "SqlCreateUserShard u a d =
      Inr ((), d\<lparr>mapping_table := mapping_table d @ [(u, a)]\<rparr>)"
    using a(2) assms(8) by (auto simp: SqlCreateUserShard_def least_loaded_def)
  from healthy_exec_tx [of s d "SqlCreateUserShard u a", OF assms(1,2) this] a assms(1)
  show ?thesis
    by (intro exI [of _ a]) (simp add: assign_shard_tx_def andThen_def orRollback_def
        addShardForUser_def commit_def next_fault_def healthy_def)
qed

lemma tx_getShardForUser:
  assumes "healthy s" and "tx s = Some (d, False)"
  shows "getShardForUser Tx u s =
    ((case shard_of d u of None \<Rightarrow> Inl ErrShardNotFound | Some a \<Rightarrow> Inr a), s)"
proof -
  have "s\<lparr>tx := Some (d, False)\<rparr> = s" using assms(2) by simp
  then show ?thesis
    using healthy_exec_tx [OF assms, of "SqlSelectShardByUser u"]
    by (simp add: getShardForUser_def andThen_def SqlSelectShardByUser_def shard_of_def)
qed

section \<open>Ensuring a shard, whatever fails\<close>

lemma getShardForUser_tx_cases:
  assumes "getShardForUser Tx u s = (r, s1)" and "tx s = Some (d, False)"
  shows "committed s1 = committed s"
    and "r = Inr a \<Longrightarrow> shard_of d u = Some a \<and> tx s1 = tx s"
    and "r = Inl ErrShardNotFound \<Longrightarrow> (shard_of d u = None \<and> tx s1 = tx s) \<or> working s1 = None"
    and "tx s1 = tx s \<or> working s1 = None"
proof -
  obtain r0 s0 where q: "exec_tx (SqlSelectShardByUser u) s = (r0, s0)"
    by (cases "exec_tx (SqlSelectShardByUser u) s")
  note c = exec_tx_cases [OF q]
  have s1: "s1 = s0" using assms(1) q
    by (auto simp: getShardForUser_def andThen_def exec_def split: sum.splits)
  have row: "row = shard_of d u \<and> tx s0 = tx s" if "r0 = Inr row" for row
    using c(2) [OF that] assms(2) by (auto simp: SqlSelectShardByUser_def shard_of_def)
  have r: "r = (case r0 of Inl e \<Rightarrow> Inl e
      | Inr row \<Rightarrow> (case row of None \<Rightarrow> Inl ErrShardNotFound | Some a \<Rightarrow> Inr a))"
    using assms(1) q by (auto simp: getShardForUser_def andThen_def exec_def split: sum.splits)
  show "committed s1 = committed s" using c(1) s1 by simp
  show "r = Inr a \<Longrightarrow> shard_of d u = Some a \<and> tx s1 = tx s"
    using r row s1 by (auto split: sum.splits option.splits)
  show "r = Inl ErrShardNotFound \<Longrightarrow> (shard_of d u = None \<and> tx s1 = tx s) \<or> working s1 = None"
    using r row s1 c(3) by (cases r0) (auto split: option.splits)
  show "tx s1 = tx s \<or> working s1 = None"
    using row s1 c(3) by (cases r0) auto
qed

lemma selectShard_tx_cases:
  assumes "selectShard ord Tx s = (r, s1)"
  shows "committed s1 = committed s" and "r = Inr a \<Longrightarrow> tx s1 = tx s \<and> working s \<noteq> None"
proof -
  obtain r0 s0 where q: "exec_tx SqlShardUserCount s = (r0, s0)"
    by (cases "exec_tx SqlShardUserCount s")
  note c = exec_tx_cases [OF q]
  have "committed s1 = committed s \<and> (r = Inr a \<longrightarrow> tx s1 = tx s \<and> working s \<noteq> None)"
  proof (cases r0)
    case (Inl e)
    with assms q c(1) show ?thesis
      by (auto simp: selectShard_def getShardUserCount_def andThen_def exec_def)
  next
    case (Inr found)
    obtain rf sf where f: "fetch found s0 = (rf, sf)" by (cases "fetch found s0")
    from c(2) [OF Inr] have "tx s0 = tx s" "working s \<noteq> None"
      by (auto simp: SqlShardUserCount_def working_def)
    with assms q Inr f fetch_frame [OF f] c(1) show ?thesis
      by (auto simp: selectShard_def getShardUserCount_def andThen_def exec_def Let_def
          split: if_splits)
  qed
  then show "committed s1 = committed s" "r = Inr a \<Longrightarrow> tx s1 = tx s \<and> working s \<noteq> None" by auto
qed

lemma assign_shard_tx_cases:
  assumes "assign_shard_tx ord u s = (r, s1)"
  shows "committed s1 = committed s \<or>
      (\<exists>d a. working s = Some d \<and> moves u a d (committed s1) \<and> shard_of d u = None)"
    and "r = Inr a \<Longrightarrow> \<exists>d. working s = Some d \<and> moves u a d (committed s1)"
proof -
  obtain rs ss where b: "selectShard ord Tx s = (rs, ss)" by (cases "selectShard ord Tx s")
  note bc = selectShard_tx_cases [OF b]
  have "(committed s1 = committed s \<or>
      (\<exists>d a. working s = Some d \<and> moves u a d (committed s1) \<and> shard_of d u = None)) \<and>
    (r = Inr a \<longrightarrow> (\<exists>d. working s = Some d \<and> moves u a d (committed s1)))"
  proof (cases rs)
    case (Inl e)
    with assms b bc(1) show ?thesis by (auto simp: assign_shard_tx_def andThen_def orRollback_def)
  next
    case (Inr sh)
    obtain ri si where i: "exec_tx (SqlCreateUserShard u sh) ss = (ri, si)"
      by (cases "exec_tx (SqlCreateUserShard u sh) ss")
    note ic = exec_tx_cases [OF i]
    show ?thesis
    proof (cases ri)
      case (Inl e)
      with assms b Inr i bc(1) ic(1) show ?thesis
        by (auto simp: assign_shard_tx_def andThen_def orRollback_def addShardForUser_def exec_def)
    next
      case (Inr x)
      from ic(2) [OF Inr] obtain d d' where d: "tx ss = Some (d, False)" "tx si = Some (d', False)"
        "SqlCreateUserShard u sh d = Inr (x, d')" by auto
      have "tx s = Some (d, False)" using bc(2) [OF \<open>rs = Inr sh\<close>] d(1) by simp
      then have w: "working s = Some d" by (simp add: working_def)
      have m: "moves u sh d d'" "shard_of d u = None"
        using create_user_shard [OF d(3)] by (auto simp: moves_def domIff)
      obtain rc sc where cm: "commit si = (rc, sc)" by (cases "commit si")
      note cc = commit_cases [OF cm]
      from assms b \<open>rs = Inr sh\<close> i Inr cm have "s1 = sc" "r = Inr a \<longrightarrow> a = sh \<and> rc = Inr ()"
        by (auto simp: assign_shard_tx_def andThen_def orRollback_def addShardForUser_def exec_def
            split: sum.splits)
      with cc(1,2) d(2) w m bc(1) ic(1) show ?thesis by (auto simp: working_def)
    qed
  qed
  then show "committed s1 = committed s \<or>
      (\<exists>d a. working s = Some d \<and> moves u a d (committed s1) \<and> shard_of d u = None)"
    "r = Inr a \<Longrightarrow> \<exists>d. working s = Some d \<and> moves u a d (committed s1)" by auto
qed

text \<open>The key of a user in the cache, and what it means that the cache is up to date.\<close>

definition user_key :: "string \<Rightarrow> string" where
  "user_key u = CachePrefix @ u"

lemma inj_user_key: "inj user_key"
  by (simp add: inj_def user_key_def)

lemma EnsureShardForUser_cases:
  assumes ci: "cache_interface use ivl hld thr" and thr: "\<And>v. thr v = Inr v"
    and co: "cache_interface.coherent hld UNIV user_key (shard_of (committed s)) c"
    and e: "EnsureShardForUser use ord u (c, s) = (r, c1, s1)"
  shows "committed s1 = committed s \<or>
      (shard_of (committed s) u = None \<and> (\<exists>a. moves u a (committed s) (committed s1)))"
    and "r = Inr a \<Longrightarrow> shard_of (committed s1) u = Some a"
    and "cache_interface.coherent hld UNIV user_key (shard_of (committed s1)) c1"
proof -
  note coherent = cache_interface.coherent_def [OF ci]
  obtain rb sb where b: "begin_tx s = (rb, sb)" by (cases "begin_tx s")
  note bc = begin_tx_cases [OF b]
  have "(committed s1 = committed s \<or>
      (shard_of (committed s) u = None \<and> (\<exists>a. moves u a (committed s) (committed s1)))) \<and>
    (r = Inr a \<longrightarrow> shard_of (committed s1) u = Some a) \<and>
    cache_interface.coherent hld UNIV user_key (shard_of (committed s1)) c1"
  proof (cases rb)
    case (Inl err)
    with e b bc(1) co show ?thesis by (auto simp: EnsureShardForUser_def)
  next
    case (Inr x)
    note tb = bc(2) [OF Inr]
    obtain ru cu su where us: "use (user_key u) (getShardForUser Tx u) (c, sb) = (ru, cu, su)"
      by (metis prod_cases3)
    have getter: "shard_of (committed s) u = Some v \<and> thr v = Inr v"
      if "getShardForUser Tx u sb = (Inr v, s')" for v s'
      using getShardForUser_tx_cases(2) [OF that tb] thr by auto
    have cu: "cache_interface.coherent hld UNIV user_key (shard_of (committed s)) cu"
      by (rule cache_interface.use_coherent [OF ci co us inj_user_key]) (rule getter)
    have sg: "su = sb \<or> su = snd (getShardForUser Tx u sb)"
      by (rule cache_interface.use_state [OF ci us])
    obtain rg sg' where gq: "getShardForUser Tx u sb = (rg, sg')"
      by (cases "getShardForUser Tx u sb")
    have wb: "working sb = Some (committed s)" using tb by (simp add: working_def)
    have "committed sg' = committed s" using getShardForUser_tx_cases(1) [OF gq tb] bc(1) by simp
    with sg gq bc(1) have su1: "committed su = committed s" by auto
    have "working sg' = working sb \<or> working sg' = None"
      using getShardForUser_tx_cases(4) [OF gq tb] by (auto simp: working_def)
    with sg gq wb have su2: "working su = Some (committed s) \<or> working su = None" by auto
    note su = su1 su2
    show ?thesis
    proof (cases "ru = Inl ErrShardNotFound")
      case False
      obtain rc sc where cm: "commit su = (rc, sc)" by (cases "commit su")
      from e b Inr us False cm have "r = ru" "c1 = cu" "s1 = sc"
        by (auto simp: EnsureShardForUser_def user_key_def)
      moreover have "committed sc = committed s" using commit_cases(1) [OF cm] su by auto
      moreover have "shard_of (committed s) u = Some a" if "ru = Inr a"
        by (rule cache_interface.use_current [OF ci co UNIV_I us [unfolded that]]) (rule getter)
      ultimately show ?thesis using cu by auto
    next
      case True
      have g: "getShardForUser Tx u sb = (Inl ErrShardNotFound, su)"
        using cache_interface.use_error [OF ci us [unfolded True]] by auto
      obtain ra sa where as: "assign_shard_tx ord u su = (ra, sa)" by (cases "assign_shard_tx ord u su")
      note ac = assign_shard_tx_cases [OF as]
      from e b Inr us True as have eq: "r = ra" "c1 = cu" "s1 = sa"
        by (auto simp: EnsureShardForUser_def user_key_def)
      show ?thesis
      proof (cases "committed s1 = committed s")
        case True
        with cu eq ac(2) su show ?thesis by (auto dest: moves_at)
      next
        case False
        with ac(1) su eq obtain a' where a': "moves u a' (committed s) (committed s1)"
          "shard_of (committed s) u = None" by auto
        have "hld cu (user_key u') v \<Longrightarrow> shard_of (committed s1) u' = Some v" for u' v
          using cu a' by (cases "u' = u") (auto simp: coherent moves_def)
        moreover have "r = Inr a \<longrightarrow> shard_of (committed s1) u = Some a"
          using ac(2) su eq by (auto dest: moves_at)
        ultimately show ?thesis using a' eq(2) by (auto simp: coherent)
      qed
    qed
  qed
  then show "committed s1 = committed s \<or>
      (shard_of (committed s) u = None \<and> (\<exists>a. moves u a (committed s) (committed s1)))"
    "r = Inr a \<Longrightarrow> shard_of (committed s1) u = Some a"
    "cache_interface.coherent hld UNIV user_key (shard_of (committed s1)) c1" by auto
qed

text \<open>A lookup answers what is committed; a move leaves nothing stale, if it reports success.\<close>

lemma getShardForUser_db_cases:
  assumes "getShardForUser Db u s = (r, s1)"
  shows "committed s1 = committed s" and "r = Inr a \<Longrightarrow> shard_of (committed s) u = Some a"
  using assms
  by (auto simp: getShardForUser_def andThen_def exec_def exec_db_def SqlSelectShardByUser_def
      shard_of_def dest!: next_fault_frame split: prod.splits sum.splits fault.splits option.splits)

lemma GetShardForUser_cases:
  assumes ci: "cache_interface use ivl hld thr" and thr: "\<And>v. thr v = Inr v"
    and co: "cache_interface.coherent hld UNIV user_key (shard_of (committed s)) c"
    and g: "GetShardForUser use u (c, s) = (r, c1, s1)"
  shows "committed s1 = committed s"
    and "r = Inr a \<Longrightarrow> shard_of (committed s) u = Some a"
    and "cache_interface.coherent hld UNIV user_key (shard_of (committed s1)) c1"
proof -
  have us: "use (user_key u) (getShardForUser Db u) (c, s) = (r, c1, s1)"
    using g by (simp add: GetShardForUser_def user_key_def)
  have getter: "shard_of (committed s) u = Some v \<and> thr v = Inr v"
    if "getShardForUser Db u s = (Inr v, s')" for v s'
    using getShardForUser_db_cases(2) [OF that] thr by auto
  obtain rg sg where gq: "getShardForUser Db u s = (rg, sg)" by (cases "getShardForUser Db u s")
  show c1: "committed s1 = committed s"
    using cache_interface.use_state [OF ci us] gq getShardForUser_db_cases(1) [OF gq] by auto
  show "shard_of (committed s) u = Some a" if "r = Inr a"
    by (rule cache_interface.use_current [OF ci co UNIV_I us [unfolded that]]) (rule getter)
  show "cache_interface.coherent hld UNIV user_key (shard_of (committed s1)) c1"
    unfolding c1 by (rule cache_interface.use_coherent [OF ci co us inj_user_key]) (rule getter)
qed

lemma SetShardForUser_coherent:
  assumes ci: "cache_interface use ivl hld thr"
    and co: "cache_interface.coherent hld UNIV user_key (shard_of (committed s)) c"
    and e: "SetShardForUser ivl u a (c, s) = (Inr (), c1, s1)"
  shows "cache_interface.coherent hld UNIV user_key (shard_of (committed s1)) c1"
proof -
  from e have i: "ivl (user_key u) c = (Inr (), c1)"
    by (auto simp: SetShardForUser_def user_key_def split: prod.splits sum.splits)
  have m: "moves u a (committed s) (committed s1)"
    by (rule SetShardForUser_atomic(2) [OF e refl])
  show ?thesis
    by (rule cache_interface.invalidate_coherent [OF ci co i inj_user_key])
      (use m in \<open>auto simp: moves_def\<close>)
qed

section \<open>Removing a shard\<close>

definition without_shard :: "string \<Rightarrow> shard_db \<Rightarrow> shard_db" where
  "without_shard a d =
     \<lparr>shard_table = filter (\<lambda>b. b \<noteq> a) (shard_table d),
      mapping_table = filter (\<lambda>m. snd m \<noteq> a) (mapping_table d)\<rparr>"

lemma RemoveShard_cases:
  assumes "RemoveShard a (c, s) = (r, c1, s1)"
  shows "committed s1 = committed s \<or> committed s1 = without_shard a (committed s)"
    and "r = Inr () \<Longrightarrow> committed s1 = without_shard a (committed s)" and "c1 = c"
proof -
  obtain rb sb where b: "begin_tx s = (rb, sb)" by (cases "begin_tx s")
  note bc = begin_tx_cases [OF b]
  obtain ru su where u: "exec_tx (SqlDeleteShardUsers a) sb = (ru, su)"
    by (cases "exec_tx (SqlDeleteShardUsers a) sb")
  note uc = exec_tx_cases [OF u]
  obtain rd sd where d: "exec_tx (SqlDeleteShard a) su = (rd, sd)"
    by (cases "exec_tx (SqlDeleteShard a) su")
  note dc = exec_tx_cases [OF d]
  obtain rc sc where c: "commit sd = (rc, sc)" by (cases "commit sd")
  note cc = commit_cases [OF c]
  have "(committed s1 = committed s \<or> committed s1 = without_shard a (committed s)) \<and>
    (r = Inr () \<longrightarrow> committed s1 = without_shard a (committed s)) \<and> c1 = c"
  proof (cases "rb = Inr () \<and> ru = Inr () \<and> rd = Inr ()")
    case True
    with assms b u d c have "r = rc" "s1 = sc" "c1 = c"
      by (auto simp: RemoveShard_def andThen_def exec_def)
    moreover have "working sd = Some d' \<Longrightarrow> d' = without_shard a (committed s)" for d'
      using True bc(2) uc(2) dc(2)
      by (auto simp: SqlDeleteShardUsers_def SqlDeleteShard_def without_shard_def working_def
          split: if_splits)
    ultimately show ?thesis using cc(1,2) bc(1) uc(1) dc(1) by auto
  next
    case False
    with assms b u d bc(1) uc(1) dc(1) show ?thesis
      by (auto simp: RemoveShard_def andThen_def exec_def split: sum.splits)
  qed
  then show "committed s1 = committed s \<or> committed s1 = without_shard a (committed s)"
    "r = Inr () \<Longrightarrow> committed s1 = without_shard a (committed s)" "c1 = c" by auto
qed

lemma shard_of_without:
  "distinct (map fst (mapping_table d)) \<Longrightarrow>
   shard_of (without_shard a d) u = (if shard_of d u = Some a then None else shard_of d u)"
proof -
  assume d: "distinct (map fst (mapping_table d))"
  have "map_of (filter (\<lambda>m. snd m \<noteq> a) xs) u = (if map_of xs u = Some a then None else map_of xs u)"
    if "distinct (map fst xs)" for xs :: "(string \<times> string) list"
    using that
  proof (induction xs)
    case (Cons x xs)
    then have "fst x = u \<Longrightarrow> map_of xs u = None" by (auto simp: map_of_eq_None_iff)
    with Cons show ?case by (cases x) auto
  qed simp
  with d show ?thesis by (simp add: shard_of_def without_shard_def)
qed

section \<open>Balance\<close>

text \<open>The numbers of users of two shards differ by at most one.\<close>

definition balanced :: "shard_db \<Rightarrow> bool" where
  "balanced d \<longleftrightarrow> (\<forall>a \<in> set (shard_table d). \<forall>b \<in> set (shard_table d).
     user_count d a \<le> user_count d b + 1)"

lemma assign_balanced:
  assumes "balanced d" and "least_loaded d a"
  shows "balanced (d\<lparr>mapping_table := mapping_table d @ [(u, a)]\<rparr>)"
proof -
  let ?d = "d\<lparr>mapping_table := mapping_table d @ [(u, a)]\<rparr>"
  have count: "user_count ?d b = user_count d b + (if b = a then 1 else 0)" for b
    by (simp add: user_count_def)
  show ?thesis
    unfolding balanced_def count
  proof (intro ballI)
    fix x y assume "x \<in> set (shard_table ?d)" "y \<in> set (shard_table ?d)"
    then have xy: "x \<in> set (shard_table d)" "y \<in> set (shard_table d)" by simp_all
    then have "user_count d x \<le> user_count d y + 1" "user_count d a \<le> user_count d y"
      using assms by (auto simp: balanced_def least_loaded_def)
    then show "user_count d x + (if x = a then 1 else 0) \<le> user_count d y + (if y = a then 1 else 0) + 1"
      by auto
  qed
qed

text \<open>A healthy database, no cached entry for the user: the user gets the least loaded shard.\<close>

lemma healthy_EnsureShardForUser:
  assumes ci: "cache_interface use ivl hld thr" and thr: "\<And>v. thr v = Inr v"
    and co: "cache_interface.coherent hld UNIV user_key (shard_of (committed s)) c"
    and "healthy s" and "shards_inv (committed s)" and "small (committed s)"
    and "shard_table (committed s) \<noteq> []" and "any_order ord" and "varchar255 u"
    and nojson: "\<And>m c'. use (user_key u) (getShardForUser Tx u) (c, snd (begin_tx s)) \<noteq> (Inl (JsonError m), c')"
  shows "case shard_of (committed s) u of
      Some a \<Rightarrow> \<exists>c1 s1. EnsureShardForUser use ord u (c, s) = (Inr a, c1, s1) \<and>
        committed s1 = committed s \<and> healthy s1
    | None \<Rightarrow> \<exists>a c1 s1. EnsureShardForUser use ord u (c, s) = (Inr a, c1, s1) \<and>
        least_loaded (committed s) a \<and> healthy s1 \<and> committed s1 =
          (committed s)\<lparr>mapping_table := mapping_table (committed s) @ [(u, a)]\<rparr>"
proof -
  let ?d = "committed s" and ?sb = "s\<lparr>tx := Some (committed s, False)\<rparr>"
  have b: "begin_tx s = (Inr (), ?sb)"
    using \<open>healthy s\<close> by (simp add: begin_tx_def next_fault_def healthy_def)
  have hb: "healthy ?sb" using \<open>healthy s\<close> by (simp add: healthy_def)
  note getter = tx_getShardForUser [OF hb, of ?d u, simplified]
  obtain ru cu su where us: "use (user_key u) (getShardForUser Tx u) (c, ?sb) = (ru, cu, su)"
    by (metis prod_cases3)
  have su: "su = ?sb" using cache_interface.use_state [OF ci us] getter by auto
  have json: "ru \<noteq> Inl (JsonError m)" for m using nojson us b by auto
  have ru: "ru = (case shard_of ?d u of None \<Rightarrow> Inl ErrShardNotFound | Some a \<Rightarrow> Inr a)"
  proof (cases ru)
    case (Inl e)
    with json have "getShardForUser Tx u ?sb = (Inl e, su)"
      using cache_interface.use_error [OF ci us [unfolded Inl]] by auto
    with getter Inl show ?thesis by (auto split: option.splits)
  next
    case (Inr a)
    have "shard_of ?d u = Some a"
      by (rule cache_interface.use_current [OF ci co UNIV_I us [unfolded Inr]])
        (use getter thr in \<open>auto split: option.splits\<close>)
    with Inr show ?thesis by simp
  qed
  show ?thesis
  proof (cases "shard_of ?d u")
    case None
    from healthy_assign [OF hb _ assms(5,8,6,7) None assms(9)] obtain a where
      "assign_shard_tx ord u ?sb = (Inr a, ?sb\<lparr>tx := None,
        committed := ?d\<lparr>mapping_table := mapping_table ?d @ [(u, a)]\<rparr>\<rparr>)" "least_loaded ?d a"
      by auto
    with None b us su ru hb show ?thesis
      by (simp add: EnsureShardForUser_def user_key_def healthy_def)
  next
    case (Some a)
    with b us su ru \<open>healthy s\<close> show ?thesis
      by (simp add: EnsureShardForUser_def user_key_def commit_def next_fault_def healthy_def)
  qed
qed

section \<open>Properties\<close>

text \<open>
  Whatever calls of the database fail, and whatever the cache answers, every operation keeps
  the tables well-formed: no address and no user twice, and every user on a shard that exists.
\<close>

theorem shards_operations_keep_invariant:
  assumes "cache_interface use ivl hld thr" and "tables_ok shards_inv s"
  shows "tables_ok shards_inv (snd (snd (EnsureShardForUser use ord u (c, s)))) \<and>
    tables_ok shards_inv (snd (snd (GetShardForUser use u (c, s)))) \<and>
    tables_ok shards_inv (snd (snd (SetShardForUser ivl u a (c, s)))) \<and>
    tables_ok shards_inv (snd (snd (EnsureShard a (c, s)))) \<and>
    tables_ok shards_inv (snd (snd (RemoveShard a (c, s))))"
  by (intro conjI EnsureShardForUser_inv [OF assms] GetShardForUser_inv [OF assms]
      SetShardForUser_inv [OF assms(2)] EnsureShard_inv [OF assms(2)] RemoveShard_inv [OF assms(2)])

definition demo_sql :: "shard_db \<Rightarrow> fault list \<Rightarrow> shard_db sql" where
  "demo_sql d fs = \<lparr>committed = d, tx = None, faults = fs, cuts = []\<rparr>"

definition demo_db :: shard_db where
  "demo_db = \<lparr>shard_table = [''s1'', ''s2''], mapping_table = [(''alice'', ''s1'')]\<rparr>"

theorem shards_operations_keep_invariant_witness:
  "tables_ok shards_inv (snd (snd (SetShardForUser none_invalidate ''bob'' ''s2''
     ((), demo_sql demo_db [Fine, Fine, Lost (DbError ''down'')]))))"
proof -
  have "tables_ok shards_inv (demo_sql demo_db [Fine, Fine, Lost (DbError ''down'')])"
    by (simp add: tables_ok_def demo_sql_def demo_db_def shards_inv_def varchar255_def char_count_def)
  from shards_operations_keep_invariant [OF none.cache_interface_axioms this] show ?thesis by blast
qed

text \<open>
  C10: \<open>EnsureShardForUser\<close> with an up-to-date cache, whatever calls of the database fail: the
  committed tables stay the same, or a user who had no shard gets one; when it returns a shard,
  that shard is the committed one of the user; and the cache is still up to date.
\<close>

theorem EnsureShardForUser_correct:
  assumes "cache_interface use ivl hld thr" and "\<And>v. thr v = Inr v"
    and "cache_interface.coherent hld UNIV user_key (shard_of (committed s)) c"
    and "EnsureShardForUser use ord u (c, s) = (r, c1, s1)"
  shows "(committed s1 = committed s \<or>
      (shard_of (committed s) u = None \<and> (\<exists>a. moves u a (committed s) (committed s1)))) \<and>
    (\<forall>a. r = Inr a \<longrightarrow> shard_of (committed s1) u = Some a) \<and>
    cache_interface.coherent hld UNIV user_key (shard_of (committed s1)) c1"
  using EnsureShardForUser_cases [OF assms(1) _ assms(3,4)] assms(2) by blast

lemma none_coherent: "cache_interface.coherent (\<lambda>_ _ _. False) UNIV user_key m ()"
  by (simp add: none.coherent_def)

lemma demo_ensure:
  "\<exists>c1. EnsureShardForUser (none_use Inr Inr) (\<lambda>xs. xs) ''bob'' ((), demo_sql demo_db []) =
    (Inr ''s2'', c1, demo_sql (demo_db\<lparr>mapping_table := [(''alice'', ''s1''), (''bob'', ''s2'')]\<rparr>) [])"
  by (rule exI [of _ "()"]) code_simp

theorem EnsureShardForUser_correct_witness:
  "shard_of (demo_db\<lparr>mapping_table := [(''alice'', ''s1''), (''bob'', ''s2'')]\<rparr>) ''bob'' = Some ''s2''"
proof -
  obtain c1 where e: "EnsureShardForUser (none_use Inr Inr) (\<lambda>xs. xs) ''bob'' ((), demo_sql demo_db []) =
    (Inr ''s2'', c1, demo_sql (demo_db\<lparr>mapping_table := [(''alice'', ''s1''), (''bob'', ''s2'')]\<rparr>) [])"
    using demo_ensure by blast
  have "trip Inr Inr v = Inr v" for v :: string
    by (simp add: trip_def json_marshal_def json_unmarshal_def)
  from EnsureShardForUser_correct [OF none.cache_interface_axioms this none_coherent e]
  show ?thesis by (simp add: demo_sql_def)
qed

text \<open>Ensuring the shards of a list of users, one after the other, without a cache.\<close>

fun ensure_all ::
  "((string \<times> int) list \<Rightarrow> (string \<times> int) list) \<Rightarrow> string list \<Rightarrow> shard_db sql \<Rightarrow> shard_db sql" where
  "ensure_all ord [] s = s"
| "ensure_all ord (u # us) s =
     ensure_all ord us (snd (snd (EnsureShardForUser (none_use Inr Inr) ord u ((), s))))"

lemma healthy_none_EnsureShardForUser:
  assumes "healthy s" and "shards_inv (committed s)" and "small (committed s)"
    and "shard_table (committed s) \<noteq> []" and "any_order ord" and "varchar255 u"
  shows "case shard_of (committed s) u of
      Some a \<Rightarrow> \<exists>c1 s1. EnsureShardForUser (none_use Inr Inr) ord u ((), s) = (Inr a, c1, s1) \<and>
        committed s1 = committed s \<and> healthy s1
    | None \<Rightarrow> \<exists>a c1 s1. EnsureShardForUser (none_use Inr Inr) ord u ((), s) = (Inr a, c1, s1) \<and>
        least_loaded (committed s) a \<and> healthy s1 \<and> committed s1 =
          (committed s)\<lparr>mapping_table := mapping_table (committed s) @ [(u, a)]\<rparr>"
proof (rule healthy_EnsureShardForUser [OF none.cache_interface_axioms _ none_coherent assms])
  show "trip Inr Inr v = Inr v" for v :: string
    by (simp add: trip_def json_marshal_def json_unmarshal_def)
  fix m c'
  have "tx (s\<lparr>tx := Some (committed s, False)\<rparr>) = Some (committed s, False)"
    "healthy (s\<lparr>tx := Some (committed s, False)\<rparr>)" using assms(1) by (simp_all add: healthy_def)
  from tx_getShardForUser [OF this(2,1), of u] assms(1)
  show "none_use Inr Inr (user_key u) (getShardForUser Tx u) ((), snd (begin_tx s)) \<noteq>
      (Inl (JsonError m), c')"
    by (auto simp: none_use_def begin_tx_def next_fault_def healthy_def json_marshal_def
        json_unmarshal_def split: option.splits)
qed

lemma ensure_all_step:
  assumes "healthy s" and "shards_inv (committed s)" and "small (committed s)"
    and "shard_table (committed s) \<noteq> []" and "any_order ord" and "varchar255 u"
    and "balanced (committed s)"
    and "int (length (mapping_table (committed s))) < MaxInt"
    and "s1 = snd (snd (EnsureShardForUser (none_use Inr Inr) ord u ((), s)))"
  shows "healthy s1 \<and> shards_inv (committed s1) \<and> small (committed s1) \<and>
    shard_table (committed s1) = shard_table (committed s) \<and> balanced (committed s1) \<and>
    length (mapping_table (committed s1)) \<le> Suc (length (mapping_table (committed s))) \<and>
    shard_of (committed s1) u \<noteq> None \<and>
    (\<forall>u' a. shard_of (committed s) u' = Some a \<longrightarrow> shard_of (committed s1) u' = Some a)"
proof (cases "shard_of (committed s) u")
  case (Some a)
  with healthy_none_EnsureShardForUser [OF assms(1-6)] assms show ?thesis by auto
next
  case None
  with healthy_none_EnsureShardForUser [OF assms(1-6)] assms(9) obtain a where a:
    "least_loaded (committed s) a" "healthy s1"
    "committed s1 = (committed s)\<lparr>mapping_table := mapping_table (committed s) @ [(u, a)]\<rparr>" by auto
  have u: "u \<notin> fst ` set (mapping_table (committed s))"
    using None by (simp add: shard_of_def map_of_eq_None_iff)
  have "shards_inv (committed s1)"
    using a assms(2,6) u by (auto simp: shards_inv_def least_loaded_def)
  moreover have "balanced (committed s1)" unfolding a(3) by (rule assign_balanced [OF assms(7) a(1)])
  moreover have "shard_of (committed s1) = (shard_of (committed s))(u \<mapsto> a)"
    using u by (simp add: a(3) shard_of_def map_of_snoc del: map_of_append)
  ultimately show ?thesis using a assms(3,8) None by (auto simp: small_def)
qed

lemma ensure_all_result:
  assumes "healthy s" and "shards_inv (committed s)" and "small (committed s)"
    and "shard_table (committed s) \<noteq> []" and "any_order ord" and "\<forall>u \<in> set us. varchar255 u"
    and "balanced (committed s)"
    and "int (length (mapping_table (committed s)) + length us) \<le> MaxInt"
  shows "balanced (committed (ensure_all ord us s)) \<and>
    (\<forall>u \<in> set us. shard_of (committed (ensure_all ord us s)) u \<noteq> None) \<and>
    (\<forall>u a. shard_of (committed s) u = Some a \<longrightarrow>
      shard_of (committed (ensure_all ord us s)) u = Some a)"
  using assms
proof (induction us arbitrary: s)
  case (Cons u us)
  let ?s1 = "snd (snd (EnsureShardForUser (none_use Inr Inr) ord u ((), s)))"
  have u: "varchar255 u" and n: "int (length (mapping_table (committed s))) < MaxInt"
    using Cons.prems(6,8) by auto
  note st = ensure_all_step [OF Cons.prems(1-5) u Cons.prems(7) n refl]
  have "int (length (mapping_table (committed ?s1)) + length us) \<le> MaxInt"
    using st Cons.prems(8) by simp
  with st Cons.prems(4-6) have ih: "balanced (committed (ensure_all ord us ?s1)) \<and>
    (\<forall>u \<in> set us. shard_of (committed (ensure_all ord us ?s1)) u \<noteq> None) \<and>
    (\<forall>u a. shard_of (committed ?s1) u = Some a \<longrightarrow>
      shard_of (committed (ensure_all ord us ?s1)) u = Some a)"
    by (intro Cons.IH) simp_all
  obtain a where "shard_of (committed ?s1) u = Some a" using st by blast
  with ih st show ?case by auto
qed simp

text \<open>
  C14: \<open>EnsureShardForUser\<close> on a healthy database: a user with a shard keeps it, and the tables
  stay as they are; a user without one gets a shard with the fewest users, in whatever order Go
  visits the map of the counts. So starting from balanced tables, ensuring any list of users
  keeps them balanced: two shards never differ by more than one user.
\<close>

theorem ensuring_users_balances_shards:
  assumes "healthy s" and "shards_inv (committed s)" and "small (committed s)"
    and "shard_table (committed s) \<noteq> []" and "any_order ord" and "\<forall>u \<in> set us. varchar255 u"
    and "balanced (committed s)"
    and "int (length (mapping_table (committed s)) + length us) \<le> MaxInt"
  shows "balanced (committed (ensure_all ord us s)) \<and>
    (\<forall>u \<in> set us. shard_of (committed (ensure_all ord us s)) u \<noteq> None) \<and>
    (\<forall>u a. shard_of (committed s) u = Some a \<longrightarrow>
      shard_of (committed (ensure_all ord us s)) u = Some a)"
  by (rule ensure_all_result [OF assms])

theorem ensuring_users_balances_shards_witness:
  "balanced (committed (ensure_all rev [''carol'', ''bob'', ''dave''] (demo_sql demo_db [])))"
  by (rule ensuring_users_balances_shards [THEN conjunct1])
    (simp_all add: healthy_def demo_sql_def demo_db_def shards_inv_def small_def any_order_def
      balanced_def user_count_def varchar255_def char_count_def MaxInt_def)

text \<open>
  C22: \<open>SetShardForUser\<close>, whatever calls of the database fail, moves the user or leaves the
  committed tables as they are, never anything in between; when it reports success the user is
  on the shard, which exists, and no cached answer for any user is out of date.
\<close>

theorem SetShardForUser_all_or_nothing:
  assumes "cache_interface use ivl hld thr"
    and "cache_interface.coherent hld UNIV user_key (shard_of (committed s)) c"
    and "SetShardForUser ivl u a (c, s) = (r, c1, s1)"
  shows "(committed s1 = committed s \<or> moves u a (committed s) (committed s1)) \<and>
    (r = Inr () \<longrightarrow> moves u a (committed s) (committed s1) \<and>
       cache_interface.coherent hld UNIV user_key (shard_of (committed s1)) c1)"
  using SetShardForUser_atomic [OF assms(3)] SetShardForUser_coherent [OF assms(1,2)] assms(3)
  by blast

theorem SetShardForUser_all_or_nothing_witness:
  "shard_of (demo_db\<lparr>mapping_table := [(''alice'', ''s2'')]\<rparr>) ''alice'' = Some ''s2''"
proof -
  have "SetShardForUser none_invalidate ''alice'' ''s2'' ((), demo_sql demo_db []) =
    (Inr (), (), demo_sql (demo_db\<lparr>mapping_table := [(''alice'', ''s2'')]\<rparr>) [])" by code_simp
  from SetShardForUser_all_or_nothing
    [OF none.cache_interface_axioms [of "\<lambda>x. Inr x" "\<lambda>x. Inr x"] none_coherent this]
  have "moves ''alice'' ''s2'' demo_db (demo_db\<lparr>mapping_table := [(''alice'', ''s2'')]\<rparr>)"
    by (simp add: demo_sql_def)
  then show ?thesis by (rule moves_at)
qed

text \<open>
  \<open>GetShardForUser\<close> with an up-to-date cache changes nothing, answers only with the
  committed shard of the user, and leaves the cache up to date.
\<close>

theorem GetShardForUser_answers_committed:
  assumes "cache_interface use ivl hld thr" and "\<And>v. thr v = Inr v"
    and "cache_interface.coherent hld UNIV user_key (shard_of (committed s)) c"
    and "GetShardForUser use u (c, s) = (r, c1, s1)"
  shows "committed s1 = committed s \<and> (\<forall>a. r = Inr a \<longrightarrow> shard_of (committed s) u = Some a) \<and>
    cache_interface.coherent hld UNIV user_key (shard_of (committed s1)) c1"
  using GetShardForUser_cases [OF assms(1) _ assms(3,4)] assms(2) by blast

theorem GetShardForUser_answers_committed_witness:
  "shard_of demo_db ''alice'' = Some ''s1''"
proof -
  have g: "GetShardForUser (none_use Inr Inr) ''alice'' ((), demo_sql demo_db []) =
    (Inr ''s1'', (), demo_sql demo_db [])" by code_simp
  have "trip Inr Inr v = Inr v" for v :: string
    by (simp add: trip_def json_marshal_def json_unmarshal_def)
  from GetShardForUser_answers_committed [OF none.cache_interface_axioms this none_coherent g]
  show ?thesis by (simp add: demo_sql_def)
qed

text \<open>
  \<open>RemoveShard\<close>, whatever calls of the database fail, removes the shard with all its users
  or nothing; the users of the other shards keep theirs.
\<close>

theorem RemoveShard_all_or_nothing:
  assumes "RemoveShard a (c, s) = (r, c1, s1)" and "shards_inv (committed s)"
  shows "(committed s1 = committed s \<or> committed s1 = without_shard a (committed s)) \<and>
    (r = Inr () \<longrightarrow> a \<notin> set (shard_table (committed s1)) \<and>
      shard_of (committed s1) = (\<lambda>u. if shard_of (committed s) u = Some a then None
                                   else shard_of (committed s) u))"
  using RemoveShard_cases [OF assms(1)] shard_of_without [of "committed s" a] assms(2)
  by (auto simp: shards_inv_def without_shard_def)

theorem RemoveShard_all_or_nothing_witness:
  "shard_of \<lparr>shard_table = [''s2''], mapping_table = []\<rparr> =
   (\<lambda>u. if shard_of demo_db u = Some ''s1'' then None else shard_of demo_db u)"
proof -
  have r: "RemoveShard ''s1'' ((), demo_sql demo_db []) =
    (Inr (), (), demo_sql \<lparr>shard_table = [''s2''], mapping_table = []\<rparr> [])" by code_simp
  have i: "shards_inv (committed (demo_sql demo_db []))"
    by (simp add: demo_sql_def demo_db_def shards_inv_def varchar255_def char_count_def)
  have c: "committed (demo_sql d fs) = d" for d fs by (simp add: demo_sql_def)
  show ?thesis using RemoveShard_all_or_nothing [OF r i, unfolded c] by blast
qed

text \<open>
  \<open>RemoveShard\<close> leaves the cache alone: with the layered cache, a user whose shard was looked
  up before is still sent to the removed shard, by \<open>GetShardForUser\<close> and by \<open>EnsureShardForUser\<close>,
  and is not assigned another one.
\<close>

theorem removed_shard_still_answered:
  "let use = lc_use map_store map_store Inr Inr;
       cs0 = (\<lparr>l1 = Map.empty, l2 = None, config = cache_config None\<rparr>, demo_sql demo_db []);
       cs1 = snd (GetShardForUser use ''alice'' cs0);
       (r, cs2) = RemoveShard ''s1'' cs1
   in r = Inr () \<and> shard_of (committed (snd cs2)) ''alice'' = None \<and>
      ''s1'' \<notin> set (shard_table (committed (snd cs2))) \<and>
      fst (GetShardForUser use ''alice'' cs2) = Inr ''s1'' \<and>
      fst (EnsureShardForUser use (\<lambda>xs. xs) ''alice'' cs2) = Inr ''s1''"
  by code_simp

text \<open>
  with a second layer that does not hold the user's entry, \<open>SetShardForUser\<close> has committed
  the move and still returns the store's miss as its error.
\<close>

theorem set_shard_reports_cache_miss:
  "let c0 = \<lparr>l1 = Map.empty, l2 = Some Map.empty, config = cache_config None\<rparr>;
       (r, c1, s1) = SetShardForUser (lc_invalidate map_store map_store) ''alice'' ''s2''
                       (c0, demo_sql demo_db [])
   in r = Inl ErrCacheMiss \<and> shard_of (committed s1) ''alice'' = Some ''s2''"
  by code_simp

end
