(* ===== verification/Vid.thy ===== *)
theory Vid
  imports Shards
begin

text \<open>
  The relation between the ids that clients use (virtual ids) and the ids that Camunda gives to
  deployments (\<open>lib/vid\<close>): the table \<open>VidRelation\<close> and the operations of \<open>vid.go\<close>. The serial
  key of the table is not modelled: no statement reads it.
\<close>

section \<open>Table and statements\<close>

text \<open>The columns \<open>DeploymentId\<close> and \<open>VirtualId\<close>, rows in the order in which a query lists them.\<close>

type_synonym vid_db = "(string \<times> string) list"

definition sql_insert_relation :: "string \<Rightarrow> string \<Rightarrow> (vid_db, unit) stmt" where
  "sql_insert_relation deploymentId vid d =
     (if \<not> varchar255 deploymentId \<or> \<not> varchar255 vid then Inl too_long
      else Inr ((), d @ [(deploymentId, vid)]))"

definition sql_count_vid :: "string \<Rightarrow> (vid_db, nat) stmt" where
  "sql_count_vid vid d = Inr (length (filter (\<lambda>r. snd r = vid) d), d)"

definition sql_delete_deployment :: "string \<Rightarrow> (vid_db, unit) stmt" where
  "sql_delete_deployment deploymentId d = Inr ((), filter (\<lambda>r. fst r \<noteq> deploymentId) d)"

definition sql_delete_vid :: "string \<Rightarrow> (vid_db, unit) stmt" where
  "sql_delete_vid vid d = Inr ((), filter (\<lambda>r. snd r \<noteq> vid) d)"

definition sql_deployments_of :: "string \<Rightarrow> (vid_db, string list) stmt" where
  "sql_deployments_of vid d = Inr (map fst (filter (\<lambda>r. snd r = vid) d), d)"

definition sql_vids_of :: "string \<Rightarrow> (vid_db, string list) stmt" where
  "sql_vids_of deploymentId d = Inr (map snd (filter (\<lambda>r. fst r = deploymentId) d), d)"

definition sql_relations :: "(vid_db, (string \<times> string) list) stmt" where
  "sql_relations d = Inr (d, d)"

section \<open>Operations\<close>

definition SaveVidRelation :: "string \<Rightarrow> string \<Rightarrow> vid_db sql \<Rightarrow> unit res \<times> vid_db sql" where
  "SaveVidRelation vid deploymentId = exec Db (sql_insert_relation deploymentId vid)"

definition VidExists :: "string \<Rightarrow> vid_db sql \<Rightarrow> bool res \<times> vid_db sql" where
  "VidExists vid =
     andThen (exec Db (sql_count_vid vid)) (\<lambda>count s. (Inr (count > 0), s))"

text \<open>
  \<open>RemoveVidRelation\<close> leaves the transaction open: on success the caller holds \<open>tx.Commit\<close> and
  \<open>tx.Rollback\<close>, here \<open>commit\<close> and \<open>rollback\<close> on the handle.
\<close>

definition RemoveVidRelation :: "string \<Rightarrow> string \<Rightarrow> vid_db sql \<Rightarrow> unit res \<times> vid_db sql" where
  "RemoveVidRelation vid deploymentId =
     andThen begin_tx (\<lambda>_.
     andThen (orRollback (exec Tx (sql_delete_deployment deploymentId))) (\<lambda>_.
     orRollback (exec Tx (sql_delete_vid vid))))"

definition first_found :: "string list \<Rightarrow> string option" where
  "first_found arr = (case arr of [] \<Rightarrow> None | x # _ \<Rightarrow> Some x)"

text \<open>The pair \<open>(id, exists)\<close> is an option: without a row, the id is \<open>""\<close> and \<open>exists\<close> false.\<close>

definition GetDeploymentId :: "string \<Rightarrow> vid_db sql \<Rightarrow> string option res \<times> vid_db sql" where
  "GetDeploymentId vid =
     andThen (exec Db (sql_deployments_of vid)) (\<lambda>rows.
     andThen (fetch rows) (\<lambda>arr s. (Inr (first_found arr), s)))"

definition GetVirtualId :: "string \<Rightarrow> vid_db sql \<Rightarrow> string option res \<times> vid_db sql" where
  "GetVirtualId deploymentId =
     andThen (exec Db (sql_vids_of deploymentId)) (\<lambda>rows.
     andThen (fetch rows) (\<lambda>arr s. (Inr (first_found arr), s)))"

text \<open>\<open>SetVid\<close> on any element with the two methods of \<open>VidUpdateable\<close>.\<close>

definition SetVid ::
  "('e \<Rightarrow> string) \<Rightarrow> (string \<Rightarrow> 'e \<Rightarrow> 'e) \<Rightarrow> 'e \<Rightarrow> vid_db sql \<Rightarrow> 'e res \<times> vid_db sql" where
  "SetVid GetId SetId element =
     andThen (GetVirtualId (GetId element)) (\<lambda>found s.
       (case found of
          None \<Rightarrow> Inl (ErrMsg ''no vid found'')
        | Some vid \<Rightarrow> Inr (SetId vid element), s))"

text \<open>
  \<open>GetRelations\<close> registers \<open>rows.Close()\<close> and calls \<open>rows.Next()\<close> before it looks at the error of
  the query: when the query fails, \<open>rows\<close> is nil and both panic (\<open>None\<close>).
\<close>

definition GetRelations ::
  "vid_db sql \<Rightarrow> ((string \<rightharpoonup> string) \<times> (string \<rightharpoonup> string)) res option \<times> vid_db sql" where
  "GetRelations s =
     (case exec Db sql_relations s of
        (Inl err, s1) \<Rightarrow> (None, s1)
      | (Inr found, s1) \<Rightarrow>
          (case fetch found s1 of
             (Inl err, s2) \<Rightarrow> (Some (Inl err), s2)
           | (Inr rows, s2) \<Rightarrow>
               (Some (Inr (fold (\<lambda>(deplId, vid) (byVid, byDeploymentId).
                    (byVid(vid \<mapsto> deplId), byDeploymentId(deplId \<mapsto> vid))) rows (Map.empty, Map.empty))), s2)))"

section \<open>What the operations do to the relation\<close>

text \<open>The relation is one-to-one: what the controller keeps by removing before it saves.\<close>

definition one_to_one :: "vid_db \<Rightarrow> bool" where
  "one_to_one d \<longleftrightarrow> distinct (map fst d) \<and> distinct (map snd d)"

definition without_relation :: "string \<Rightarrow> string \<Rightarrow> vid_db \<Rightarrow> vid_db" where
  "without_relation vid deploymentId d = filter (\<lambda>r. fst r \<noteq> deploymentId \<and> snd r \<noteq> vid) d"

lemma one_to_one_without: "one_to_one d \<Longrightarrow> one_to_one (without_relation vid did d)"
  by (simp add: one_to_one_def without_relation_def distinct_map_filter)

lemma SaveVidRelation_cases:
  assumes "SaveVidRelation vid did s = (r, s1)"
  shows "committed s1 = committed s \<or> committed s1 = committed s @ [(did, vid)]"
    and "r = Inr () \<Longrightarrow> committed s1 = committed s @ [(did, vid)]" and "tx s1 = tx s"
proof -
  have x: "exec_db (sql_insert_relation did vid) s = (r, s1)"
    using assms by (simp add: SaveVidRelation_def exec_def)
  show "committed s1 = committed s \<or> committed s1 = committed s @ [(did, vid)]"
    "tx s1 = tx s"
    using exec_db_cases(1,2) [OF x] by (auto simp: sql_insert_relation_def split: if_splits)
  show "r = Inr () \<Longrightarrow> committed s1 = committed s @ [(did, vid)]"
    using exec_db_cases(3) [OF x] by (auto simp: sql_insert_relation_def split: if_splits)
qed

lemma RemoveVidRelation_cases:
  assumes "RemoveVidRelation vid did s = (r, s1)"
  shows "committed s1 = committed s"
    and "r = Inr () \<Longrightarrow> tx s1 = Some (without_relation vid did (committed s), False)"
proof -
  obtain rb sb where b: "begin_tx s = (rb, sb)" by (cases "begin_tx s")
  note bc = begin_tx_cases [OF b]
  obtain rd sd where d: "exec_tx (sql_delete_deployment did) sb = (rd, sd)"
    by (cases "exec_tx (sql_delete_deployment did) sb")
  note dc = exec_tx_cases [OF d]
  obtain rv sv where v: "exec_tx (sql_delete_vid vid) sd = (rv, sv)"
    by (cases "exec_tx (sql_delete_vid vid) sd")
  note vc = exec_tx_cases [OF v]
  show "committed s1 = committed s"
    using assms b d v bc(1) dc(1) vc(1)
    by (auto simp: RemoveVidRelation_def andThen_def orRollback_def exec_def split: sum.splits)
  show "tx s1 = Some (without_relation vid did (committed s), False)" if "r = Inr ()"
  proof -
    from that assms b d v have ok: "rb = Inr ()" "rd = Inr ()" "rv = Inr ()" "s1 = sv"
      by (auto simp: RemoveVidRelation_def andThen_def orRollback_def exec_def split: sum.splits)
    have "tx sd = Some (filter (\<lambda>r. fst r \<noteq> did) (committed s), False)"
      using dc(2) [OF ok(2)] bc(2) [OF ok(1)] by (auto simp: sql_delete_deployment_def)
    with vc(2) [OF ok(3)] have "tx sv = Some (filter (\<lambda>r. snd r \<noteq> vid)
        (filter (\<lambda>r. fst r \<noteq> did) (committed s)), False)"
      by (auto simp: sql_delete_vid_def)
    with ok(4) show ?thesis by (simp add: without_relation_def)
  qed
qed

lemma commit_removed:
  assumes "RemoveVidRelation vid did s = (Inr (), s1)" and "commit s1 = (r, s2)"
  shows "committed s2 = committed s \<or> committed s2 = without_relation vid did (committed s)"
    and "r = Inr () \<Longrightarrow> committed s2 = without_relation vid did (committed s)"
  using commit_cases [OF assms(2)] RemoveVidRelation_cases [OF assms(1)]
  by (auto simp: working_def)

lemma exec_db_query:
  assumes "exec_db q s = (r, s1)" and "\<And>d. q d = Inr (f d, d)"
  shows "committed s1 = committed s" and "r = Inr a \<Longrightarrow> a = f (committed s)" and "tx s1 = tx s"
  using exec_db_cases [OF assms(1)] assms(2) by auto

lemma GetDeploymentId_cases:
  assumes "GetDeploymentId vid s = (r, s1)"
  shows "committed s1 = committed s" and "tx s1 = tx s"
    and "r = Inr (Some did) \<Longrightarrow> (did, vid) \<in> set (committed s)"
proof -
  obtain r0 s0 where q: "exec_db (sql_deployments_of vid) s = (r0, s0)"
    by (cases "exec_db (sql_deployments_of vid) s")
  note qc = exec_db_query [OF q sql_deployments_of_def]
  have "committed s1 = committed s \<and> tx s1 = tx s \<and>
    (r = Inr (Some did) \<longrightarrow> (did, vid) \<in> set (committed s))"
  proof (cases r0)
    case (Inl e)
    with assms q qc(1,3) show ?thesis by (auto simp: GetDeploymentId_def andThen_def exec_def)
  next
    case (Inr rows)
    obtain rf sf where f: "fetch rows s0 = (rf, sf)" by (cases "fetch rows s0")
    from fetch_frame [OF f] obtain n where n: "rf = Inr (take n rows)" by blast
    have rows: "rows = map fst (filter (\<lambda>r. snd r = vid) (committed s))" by (rule qc(2) [OF Inr])
    have "(did, vid) \<in> set (committed s)" if "first_found (take n rows) = Some did"
    proof -
      have "did \<in> set (take n rows)" using that by (auto simp: first_found_def split: list.splits)
      then have "did \<in> set rows" by (rule in_set_takeD)
      then show ?thesis by (auto simp: rows)
    qed
    with assms q Inr f n fetch_frame [OF f] qc(1,3) show ?thesis
      by (auto simp: GetDeploymentId_def andThen_def exec_def)
  qed
  then show "committed s1 = committed s" "tx s1 = tx s"
    "r = Inr (Some did) \<Longrightarrow> (did, vid) \<in> set (committed s)" by auto
qed

text \<open>On a healthy handle the lookups return the first row.\<close>

lemma healthy_query:
  assumes "healthy s" and "\<And>d. q d = Inr (f d, d)"
  shows "exec Db q s = (Inr (f (committed s)), s)"
  using assms by (simp add: healthy_def exec_def exec_db_def next_fault_def)

lemma healthy_GetDeploymentId:
  "healthy s \<Longrightarrow> GetDeploymentId vid s =
     (Inr (first_found (map fst (filter (\<lambda>r. snd r = vid) (committed s)))), s)"
  by (simp add: GetDeploymentId_def andThen_def healthy_query [OF _ sql_deployments_of_def] healthy_fetch)

lemma healthy_GetVirtualId:
  "healthy s \<Longrightarrow> GetVirtualId did s =
     (Inr (first_found (map snd (filter (\<lambda>r. fst r = did) (committed s)))), s)"
  by (simp add: GetVirtualId_def andThen_def healthy_query [OF _ sql_vids_of_def] healthy_fetch)

lemma first_found_unique:
  assumes "distinct (map g d)" and "x \<in> set d"
  shows "first_found (map f (filter (\<lambda>r. g r = g x) d)) = Some (f x)"
  using assms
proof (induction d)
  case (Cons y d)
  then show ?case
  proof (cases "g y = g x")
    case True
    with Cons have "y = x" by (auto dest: image_eqI [of "g x" g x])
    then show ?thesis by (simp add: first_found_def)
  qed auto
qed simp

lemma first_found_None: "x \<notin> g ` set d \<Longrightarrow> first_found (map f (filter (\<lambda>r. g r = x) d)) = None"
  by (induction d) (auto simp: first_found_def)

lemma relations_fold:
  assumes "distinct (map fst d)" and "distinct (map snd d)"
  shows "fold (\<lambda>(did, vid) (v, w). (v(vid \<mapsto> did), w(did \<mapsto> vid))) d (m, n) =
    (m ++ map_of (map prod.swap d), n ++ map_of d)"
  using assms
proof (induction d arbitrary: m n)
  case (Cons x d)
  obtain did vid where x: "x = (did, vid)" by (cases x)
  have "map_of (map prod.swap d) vid = None" "map_of d did = None"
    using Cons.prems x by (auto simp: map_of_eq_None_iff image_image)
  then have "m(vid \<mapsto> did) ++ map_of (map prod.swap d) = m ++ (map_of (map prod.swap d))(vid \<mapsto> did)"
    "n(did \<mapsto> vid) ++ map_of d = n ++ (map_of d)(did \<mapsto> vid)"
    by (auto simp: map_add_def fun_eq_iff split: option.splits)
  note upd = this
  have "fold (\<lambda>(did, vid) (v, w). (v(vid \<mapsto> did), w(did \<mapsto> vid))) (x # d) (m, n) =
      (m(vid \<mapsto> did) ++ map_of (map prod.swap d), n(did \<mapsto> vid) ++ map_of d)"
    using Cons x by (simp only: fold_Cons_rev comp_apply fold_simps prod.case distinct.simps list.map)
  also have "\<dots> = (m ++ map_of (map prod.swap (x # d)), n ++ map_of (x # d))"
    by (simp only: upd) (simp add: x)
  finally show ?case .
qed simp

lemma relations_inverse:
  assumes "one_to_one d"
  shows "map_of (map prod.swap d) v = Some i \<longleftrightarrow> map_of d i = Some v"
  using assms
  by (auto simp: one_to_one_def comp_def map_of_eq_Some_iff intro!: image_eqI [of _ _ "(i, v)"])

lemma healthy_GetRelations:
  assumes "healthy s" and "one_to_one (committed s)"
  shows "GetRelations s =
    (Some (Inr (map_of (map prod.swap (committed s)), map_of (committed s))), s)"
  using relations_fold [of "committed s" Map.empty Map.empty] assms
  by (simp add: GetRelations_def healthy_query [OF _ sql_relations_def] healthy_fetch one_to_one_def)

section \<open>Properties\<close>

text \<open>
  Saving and looking up agree: on a healthy handle, after \<open>SaveVidRelation\<close> of two new ids the
  relation is still one-to-one, the virtual id leads to the deployment and back, and the virtual
  id exists; every other id leads where it did.
\<close>

theorem saved_relation_found:
  assumes "healthy s" and "one_to_one (committed s)" and "varchar255 vid" and "varchar255 did"
    and "vid \<notin> snd ` set (committed s)" and "did \<notin> fst ` set (committed s)"
    and "SaveVidRelation vid did s = (r, s1)"
  shows "r = Inr () \<and> one_to_one (committed s1) \<and>
    fst (GetDeploymentId vid s1) = Inr (Some did) \<and> fst (GetVirtualId did s1) = Inr (Some vid) \<and>
    fst (VidExists vid s1) = Inr True \<and>
    (\<forall>v. v \<noteq> vid \<longrightarrow> fst (GetDeploymentId v s1) = fst (GetDeploymentId v s))"
proof -
  have s1: "r = Inr ()" "s1 = s\<lparr>committed := committed s @ [(did, vid)]\<rparr>"
    using assms by (auto simp: SaveVidRelation_def exec_def exec_db_def sql_insert_relation_def
        next_fault_def healthy_def)
  have h: "healthy s1" using assms(1) s1 by (simp add: healthy_def)
  have o: "one_to_one (committed s1)" using assms(2,5,6) s1 by (auto simp: one_to_one_def)
  then have d: "distinct (map fst (committed s1))" "distinct (map snd (committed s1))"
    by (simp_all add: one_to_one_def)
  have m: "(did, vid) \<in> set (committed s1)" by (simp add: s1)
  have "fst (VidExists vid s1) = Inr True"
    using healthy_query [OF h sql_count_vid_def] s1 by (simp add: VidExists_def andThen_def)
  moreover have "\<forall>v. v \<noteq> vid \<longrightarrow> fst (GetDeploymentId v s1) = fst (GetDeploymentId v s)"
    unfolding healthy_GetDeploymentId [OF h] healthy_GetDeploymentId [OF assms(1)] by (simp add: s1)
  moreover have "fst (GetDeploymentId vid s1) = Inr (Some did)" "fst (GetVirtualId did s1) = Inr (Some vid)"
    using first_found_unique [OF d(2) m, of fst] first_found_unique [OF d(1) m, of snd]
    by (simp_all add: healthy_GetDeploymentId [OF h] healthy_GetVirtualId [OF h])
  ultimately show ?thesis using s1(1) o by blast
qed

definition demo_vid :: "fault list \<Rightarrow> nat option list \<Rightarrow> vid_db \<Rightarrow> vid_db sql" where
  "demo_vid fs cs d = \<lparr>committed = d, tx = None, faults = fs, cuts = cs\<rparr>"

theorem saved_relation_found_witness:
  "fst (GetDeploymentId ''v2'' (snd (SaveVidRelation ''v2'' ''d2'' (demo_vid [] [] [(''d1'', ''v1'')])))) =
   Inr (Some ''d2'')"
  using saved_relation_found
    [of "demo_vid [] [] [(''d1'', ''v1'')]" "''v2''" "''d2''"
        "fst (SaveVidRelation ''v2'' ''d2'' (demo_vid [] [] [(''d1'', ''v1'')]))"
        "snd (SaveVidRelation ''v2'' ''d2'' (demo_vid [] [] [(''d1'', ''v1'')]))"]
  by (simp add: healthy_def demo_vid_def one_to_one_def varchar255_def char_count_def)

text \<open>
  Removing a relation is all or nothing, whatever calls fail: nothing changes before the commit
  (so a rollback leaves everything), and the commit removes every row with the virtual id or
  the deployment, or none; when it reports success neither id is found any more.
\<close>

theorem RemoveVidRelation_all_or_nothing:
  assumes "RemoveVidRelation vid did s = (r, s1)"
  shows "committed s1 = committed s \<and> committed (rollback s1) = committed s \<and>
    (r = Inr () \<longrightarrow>
       (committed (snd (commit s1)) = committed s \<or>
        committed (snd (commit s1)) = without_relation vid did (committed s)) \<and>
       (fst (commit s1) = Inr () \<longrightarrow>
          (did, v) \<notin> set (committed (snd (commit s1))) \<and>
          (i, vid) \<notin> set (committed (snd (commit s1)))))"
proof -
  obtain rc s2 where c: "commit s1 = (rc, s2)" by (cases "commit s1")
  show ?thesis
    using RemoveVidRelation_cases [OF assms] commit_removed [of vid did s s1 rc s2] assms c
    by (auto simp: without_relation_def)
qed

theorem RemoveVidRelation_all_or_nothing_witness:
  "(''d2'', ''v1'') \<notin> set [(''d2'', ''v2'')] \<and>
   fst (commit (snd (RemoveVidRelation ''v1'' ''d1'' (demo_vid [] [] [(''d1'', ''v1''), (''d2'', ''v2'')])))) = Inr ()"
proof -
  let ?s = "demo_vid [] [] [(''d1'', ''v1''), (''d2'', ''v2'')]"
  let ?s1 = "\<lparr>committed = [(''d1'', ''v1''), (''d2'', ''v2'')],
    tx = Some ([(''d2'', ''v2'')], False), faults = [], cuts = []\<rparr>"
  have r: "RemoveVidRelation ''v1'' ''d1'' ?s = (Inr (), ?s1)" by code_simp
  have c: "commit ?s1 = (Inr (), demo_vid [] [] [(''d2'', ''v2'')])" by code_simp
  from RemoveVidRelation_all_or_nothing [OF r, of _ "''d2''"] r c show ?thesis by (simp add: demo_vid_def)
qed

text \<open>
  \<open>GetRelations\<close> on a healthy handle and a one-to-one relation returns two maps that are
  inverse to each other and hold exactly the rows.
\<close>

theorem GetRelations_inverse:
  assumes "healthy s" and "one_to_one (committed s)"
  shows "\<exists>byVid byDeploymentId. GetRelations s = (Some (Inr (byVid, byDeploymentId)), s) \<and>
    (\<forall>v i. byVid v = Some i \<longleftrightarrow> byDeploymentId i = Some v) \<and>
    (\<forall>v i. byDeploymentId i = Some v \<longleftrightarrow> (i, v) \<in> set (committed s))"
proof -
  have "map_of (committed s) i = Some v \<longleftrightarrow> (i, v) \<in> set (committed s)" for i v
    using assms(2) by (simp add: one_to_one_def map_of_eq_Some_iff)
  then show ?thesis
    unfolding healthy_GetRelations [OF assms] using relations_inverse [OF assms(2)] by blast
qed

theorem GetRelations_inverse_witness:
  "\<exists>byVid byDeploymentId.
     GetRelations (demo_vid [] [] [(''d1'', ''v1'')]) =
       (Some (Inr (byVid, byDeploymentId)), demo_vid [] [] [(''d1'', ''v1'')]) \<and>
     byVid ''v1'' = Some ''d1''"
  using GetRelations_inverse [of "demo_vid [] [] [(''d1'', ''v1'')]"]
  by (auto simp: healthy_def one_to_one_def demo_vid_def)

text \<open>
  \<open>GetRelations\<close> when the database fails: an error of the query is a panic, not an error
  value; and when the transfer of the rows breaks off, the maps lack the rest of the relation
  and no error is reported.
\<close>

theorem GetRelations_failures:
  "fst (GetRelations (demo_vid [Lost e] cs d)) = None \<and>
   (\<exists>byVid byDeploymentId.
      fst (GetRelations (demo_vid [] [Some 1] [(''d1'', ''v1''), (''d2'', ''v2'')])) =
        Some (Inr (byVid, byDeploymentId)) \<and>
      byDeploymentId ''d1'' = Some ''v1'' \<and> byDeploymentId ''d2'' = None)"
  by (simp add: GetRelations_def demo_vid_def exec_def exec_db_def next_fault_def fetch_def
      sql_relations_def)

section \<open>One relation per virtual id\<close>

definition others :: "string \<Rightarrow> vid_db \<Rightarrow> vid_db" where
  "others vid d = filter (\<lambda>r. snd r \<noteq> vid) d"

lemma without_is_others:
  assumes "one_to_one d" and "(i, vid) \<in> set d"
  shows "without_relation vid i d = others vid d"
  unfolding without_relation_def others_def
proof (rule filter_cong [OF refl])
  fix r assume "r \<in> set d"
  then have "fst r = i \<Longrightarrow> r = (i, vid)"
    using assms by (auto simp: one_to_one_def distinct_map dest: inj_onD [of fst _ _ "(i, vid)"])
  then have "fst r = i \<Longrightarrow> snd r = vid" by (metis snd_conv)
  then show "(fst r \<noteq> i \<and> snd r \<noteq> vid) = (snd r \<noteq> vid)" by auto
qed

lemma others_idem [simp]: "others vid (others vid d) = others vid d"
  by (simp add: others_def)

lemma others_new [simp]: "others vid (d @ [(i, vid)]) = others vid d"
  by (simp add: others_def)

lemma others_absent: "vid \<notin> snd ` set d \<Longrightarrow> others vid d = d"
  by (auto simp: others_def filter_id_conv)

lemma GetDeploymentId_absent:
  assumes "GetDeploymentId vid s = (Inr None, s1)" and "cuts s = []"
  shows "vid \<notin> snd ` set (committed s)"
proof -
  obtain r0 s0 where q: "exec_db (sql_deployments_of vid) s = (r0, s0)"
    by (cases "exec_db (sql_deployments_of vid) s")
  then have c: "cuts s0 = []" using assms(2)
    by (auto simp: exec_db_def next_fault_def split: list.splits fault.splits sum.splits prod.splits)
  from assms(1) q obtain rows where rows: "r0 = Inr rows"
    by (auto simp: GetDeploymentId_def andThen_def exec_def split: sum.splits)
  with assms(1) q c have "first_found rows = None"
    by (simp add: GetDeploymentId_def andThen_def exec_def fetch_def)
  moreover have "rows = map fst (filter (\<lambda>r. snd r = vid) (committed s))"
    by (rule exec_db_query(2) [OF q sql_deployments_of_def rows])
  ultimately show ?thesis by (auto simp: first_found_def filter_empty_conv split: list.splits)
qed

lemma VidExists_cases:
  assumes "VidExists vid s = (r, s1)"
  shows "committed s1 = committed s" and "tx s1 = tx s" and "cuts s1 = cuts s"
    and "r = Inr b \<Longrightarrow> b \<longleftrightarrow> vid \<in> snd ` set (committed s)"
proof -
  obtain r0 s0 where q: "exec_db (sql_count_vid vid) s = (r0, s0)"
    by (cases "exec_db (sql_count_vid vid) s")
  note qc = exec_db_query [OF q sql_count_vid_def]
  have s1: "s1 = s0" using assms q
    by (auto simp: VidExists_def andThen_def exec_def split: sum.splits)
  show "committed s1 = committed s" "tx s1 = tx s" using qc(1,3) s1 by simp_all
  show "cuts s1 = cuts s" using q s1
    by (auto simp: exec_db_def next_fault_def split: list.splits fault.splits sum.splits prod.splits)
  show "b \<longleftrightarrow> vid \<in> snd ` set (committed s)" if "r = Inr b"
  proof -
    from assms q that obtain n where n: "r0 = Inr n" "b = (n > 0)"
      by (auto simp: VidExists_def andThen_def exec_def split: sum.splits)
    have "n = length (filter (\<lambda>r. snd r = vid) (committed s))" by (rule qc(2) [OF n(1)])
    with n(2) show ?thesis by (auto simp: length_greater_0_conv filter_empty_conv)
  qed
qed

lemma GetVirtualId_cases:
  assumes "GetVirtualId did s = (r, s1)"
  shows "committed s1 = committed s" and "r = Inr (Some vid) \<Longrightarrow> (did, vid) \<in> set (committed s)"
proof -
  obtain r0 s0 where q: "exec_db (sql_vids_of did) s = (r0, s0)" by (cases "exec_db (sql_vids_of did) s")
  note qc = exec_db_query [OF q sql_vids_of_def]
  have "committed s1 = committed s \<and> (r = Inr (Some vid) \<longrightarrow> (did, vid) \<in> set (committed s))"
  proof (cases r0)
    case (Inl e)
    with assms q qc(1) show ?thesis by (auto simp: GetVirtualId_def andThen_def exec_def)
  next
    case (Inr rows)
    obtain rf sf where f: "fetch rows s0 = (rf, sf)" by (cases "fetch rows s0")
    from fetch_frame [OF f] obtain n where n: "rf = Inr (take n rows)" by blast
    have rows: "rows = map snd (filter (\<lambda>r. fst r = did) (committed s))" by (rule qc(2) [OF Inr])
    have "(did, vid) \<in> set (committed s)" if "first_found (take n rows) = Some vid"
    proof -
      have "vid \<in> set (take n rows)" using that by (auto simp: first_found_def split: list.splits)
      then have "vid \<in> set rows" by (rule in_set_takeD)
      then show ?thesis by (auto simp: rows)
    qed
    with assms q Inr f n fetch_frame [OF f] qc(1) show ?thesis
      by (auto simp: GetVirtualId_def andThen_def exec_def)
  qed
  then show "committed s1 = committed s" "r = Inr (Some vid) \<Longrightarrow> (did, vid) \<in> set (committed s)"
    by auto
qed

lemma SetVid_cases:
  assumes "SetVid gt st x s = (r, s1)"
  shows "committed s1 = committed s"
    and "r = Inr y \<Longrightarrow> \<exists>vid. (gt x, vid) \<in> set (committed s) \<and> y = st vid x"
proof -
  obtain r0 s0 where g: "GetVirtualId (gt x) s = (r0, s0)" by (cases "GetVirtualId (gt x) s")
  note gc = GetVirtualId_cases [OF g]
  show "committed s1 = committed s"
    using assms g gc(1) by (auto simp: SetVid_def andThen_def split: sum.splits option.splits)
  assume "r = Inr y"
  with assms g obtain vid where "r0 = Inr (Some vid)" "y = st vid x"
    by (auto simp: SetVid_def andThen_def split: sum.splits option.splits)
  with gc(2) show "\<exists>vid. (gt x, vid) \<in> set (committed s) \<and> y = st vid x" by blast
qed

lemma map_of_first: "map_of d k = first_found (map snd (filter (\<lambda>r. fst r = k) d))"
  by (induction d) (auto simp: first_found_def)

lemma healthy_SetVid:
  "healthy s \<Longrightarrow> SetVid gt st x s =
    (case map_of (committed s) (gt x) of
       None \<Rightarrow> (Inl (ErrMsg ''no vid found''), s) | Some vid \<Rightarrow> (Inr (st vid x), s))"
  by (simp add: SetVid_def andThen_def healthy_GetVirtualId map_of_first split: option.split)

end
