(* ===== verification/QueueSpec.thy ===== *)
theory QueueSpec
  imports Prelude
begin

text \<open>
  The interface of a first-in-first-out queue and of a loop that works a queue off: what
  the tree traversals of package \<open>etree\<close> rely on. The operations may panic (\<open>None\<close>); the
  laws say that on a consistent queue they do not, and what they do to its contents.
\<close>

section \<open>Running a fallible step over a list\<close>

fun fold_opt :: "('a \<Rightarrow> 's \<Rightarrow> 's option) \<Rightarrow> 'a list \<Rightarrow> 's \<Rightarrow> 's option" where
  "fold_opt f [] s = Some s"
| "fold_opt f (x # xs) s = Option.bind (f x s) (fold_opt f xs)"

section \<open>Queues\<close>

locale fifo_queue =
  fixes empty :: 'q
    and add :: "'a \<Rightarrow> 'q \<Rightarrow> 'q option"
    and remove :: "'q \<Rightarrow> ('a option \<times> 'q) option"
    and size_of :: "'q \<Rightarrow> nat"
    and contents :: "'q \<Rightarrow> 'a list"
    and inv :: "'q \<Rightarrow> bool"
  assumes inv_empty: "inv empty"
    and contents_empty: "contents empty = []"
    and add_law: "inv q \<Longrightarrow> \<exists>q'. add x q = Some q' \<and> inv q' \<and> contents q' = contents q @ [x]"
    and remove_law: "inv q \<Longrightarrow> contents q = x # xs \<Longrightarrow>
      \<exists>q'. remove q = Some (Some x, q') \<and> inv q' \<and> contents q' = xs"
    and size_law: "inv q \<Longrightarrow> size_of q = length (contents q)"
begin

lemma add_all:
  "inv q \<Longrightarrow> \<exists>q'. fold_opt add xs q = Some q' \<and> inv q' \<and> contents q' = contents q @ xs"
proof (induction xs arbitrary: q)
  case (Cons x xs)
  from add_law [OF Cons.prems] obtain q1
    where q1: "add x q = Some q1" "inv q1" "contents q1 = contents q @ [x]" by blast
  from Cons.IH [OF q1(2)] q1 show ?case by auto
qed simp

lemma size_0: "inv q \<Longrightarrow> size_of q = 0 \<longleftrightarrow> contents q = []"
  by (simp add: size_law)

lemma add_then_remove:
  assumes "inv q"
  shows "\<exists>q1 q2. add x q = Some q1 \<and> remove q1 = Some (Some (hd (contents q @ [x])), q2)
    \<and> contents q2 = tl (contents q @ [x])"
proof -
  from add_law [OF assms] obtain q1
    where q1: "add x q = Some q1" "inv q1" "contents q1 = contents q @ [x]" by blast
  obtain y ys where "contents q @ [x] = y # ys" by (cases "contents q @ [x]") auto
  with q1 remove_law [OF q1(2), of y ys] show ?thesis by auto
qed

end

section \<open>Loops that work a queue off\<close>

text \<open>
  The abstract loop, over the contents: take the first item, let \<open>step\<close> change the state
  and name the items to add at the end, until nothing is left.
\<close>

inductive works_off ::
  "('a \<Rightarrow> 's \<Rightarrow> ('s \<times> 'a list) option) \<Rightarrow> 's \<Rightarrow> 'a list \<Rightarrow> 's \<Rightarrow> bool"
  for step where
  finished: "works_off step s [] s"
| item: "step x s = Some (s', new) \<Longrightarrow> works_off step s' (xs @ new) t \<Longrightarrow>
    works_off step s (x # xs) t"

inductive_cases works_off_ConsE: "works_off step s (x # xs) t"
inductive_simps works_off_Nil [simp]: "works_off step s [] t"

lemma works_off_deterministic:
  "works_off step s xs t \<Longrightarrow> works_off step s xs t' \<Longrightarrow> t = t'"
proof (induction arbitrary: t' rule: works_off.induct)
  case (item x s s' new xs t)
  from item.prems obtain s1 new1
    where "step x s = Some (s1, new1)" and "works_off step s1 (xs @ new1) t'"
    by (rule works_off_ConsE)
  with item.hyps(1) item.IH show ?case by simp
qed simp

text \<open>
  The concrete loop, over the queue. A loop of the code is an instance as soon as its
  equation is \<open>loop_eq\<close>.
\<close>

locale worklist = fifo_queue empty add remove size_of contents inv
  for empty :: 'q and add :: "'a \<Rightarrow> 'q \<Rightarrow> 'q option" and remove size_of contents inv +
  fixes step :: "'a \<Rightarrow> 's \<Rightarrow> ('s \<times> 'a list) option"
    and loop :: "'s \<Rightarrow> 'q \<Rightarrow> ('s \<times> 'q) option"
  assumes loop_eq: "loop s q =
     (if size_of q = 0 then Some (s, q)
      else Option.bind (remove q) (\<lambda>(v, q1). case v of None \<Rightarrow> None | Some x \<Rightarrow>
           Option.bind (step x s) (\<lambda>(s', new).
           Option.bind (fold_opt add new q1) (loop s'))))"
begin

theorem loop_works_off:
  assumes "works_off step s xs t" and "inv q" and "contents q = xs"
  shows "\<exists>q'. loop s q = Some (t, q') \<and> inv q' \<and> contents q' = []"
  using assms
proof (induction arbitrary: q rule: works_off.induct)
  case (finished s)
  then show ?case by (simp add: loop_eq size_0)
next
  case (item x s s' new xs t)
  from remove_law [OF item.prems] obtain q1
    where q1: "remove q = Some (Some x, q1)" "inv q1" "contents q1 = xs" by blast
  from add_all [OF q1(2), of new] obtain q2
    where q2: "fold_opt add new q1 = Some q2" "inv q2" "contents q2 = xs @ new"
    using q1(3) by auto
  from item.IH [OF q2(2,3)] obtain q' where "loop s' q2 = Some (t, q')" "inv q'" "contents q' = []"
    by blast
  moreover have "size_of q \<noteq> 0" using item.prems by (simp add: size_0)
  ultimately show ?case
    using q1 q2 item.hyps by (subst loop_eq) simp
qed

end

end
