(* ===== verification/EtreeHelpers.thy ===== *)
theory EtreeHelpers
  imports GoStrings QueueSpec
begin

text \<open>
  The helpers of package \<open>etree\<close> (\<open>etree/helpers.go\<close>): the stack of the reader, the ring
  buffer \<open>fifo\<close> of the traversals, and the functions on names, whitespace and indentation.
  The ring buffer is interpreted as a queue and its growth and wrap-around proved correct.
\<close>

section \<open>The stack\<close>

record 'a stack =
  sdata :: "'a list"

definition stack_new :: "'a stack" where
  "stack_new = \<lparr>sdata = []\<rparr>"

definition stack_empty :: "'a stack \<Rightarrow> bool" where
  "stack_empty s \<longleftrightarrow> length (sdata s) = 0"

definition stack_push :: "'a \<Rightarrow> 'a stack \<Rightarrow> 'a stack" where
  "stack_push v s = s\<lparr>sdata := sdata s @ [v]\<rparr>"

text \<open>Both index with \<open>len - 1\<close> and panic on an empty stack.\<close>

definition stack_pop :: "'a stack \<Rightarrow> ('a \<times> 'a stack) option" where
  "stack_pop s =
     (if sdata s = [] then None
      else Some (sdata s ! (length (sdata s) - 1),
                 s\<lparr>sdata := take (length (sdata s) - 1) (sdata s)\<rparr>))"

definition stack_peek :: "'a stack \<Rightarrow> 'a option" where
  "stack_peek s = (if sdata s = [] then None else Some (sdata s ! (length (sdata s) - 1)))"

lemma stack_pop_push: "stack_pop (stack_push v s) = Some (v, s)"
  by (simp add: stack_pop_def stack_push_def)

lemma stack_peek_push: "stack_peek (stack_push v s) = Some v"
  by (simp add: stack_peek_def stack_push_def)

lemma stack_empty_iff: "stack_empty s \<longleftrightarrow> sdata s = []"
  by (simp add: stack_empty_def)

section \<open>The fifo\<close>

text \<open>
  The buffer \<open>data\<close> holds interface values, \<open>nil\<close> (\<open>None\<close>) where nothing is stored;
  \<open>head\<close> is the index of the oldest item and \<open>tail\<close> the index after the newest.
\<close>

record 'a fifo =
  fdata :: "'a option list"
  fhead :: nat
  ftail :: nat

definition fifo_new :: "'a fifo" where
  "fifo_new = \<lparr>fdata = [], fhead = 0, ftail = 0\<rparr>"

definition fifo_len :: "'a fifo \<Rightarrow> nat" where
  "fifo_len f =
     (if ftail f \<ge> fhead f then ftail f - fhead f
      else length (fdata f) - fhead f + ftail f)"

definition fifo_grow :: "'a fifo \<Rightarrow> 'a fifo" where
  "fifo_grow f =
     (let c = (if length (fdata f) * 2 = 0 then 4 else length (fdata f) * 2);
          count = fifo_len f;
          copied = (if ftail f \<ge> fhead f
                    then take (ftail f - fhead f) (drop (fhead f) (fdata f))
                    else drop (fhead f) (fdata f) @ take (ftail f) (fdata f))
      in \<lparr>fdata = copied @ replicate (c - count) None, fhead = 0, ftail = count\<rparr>)"

text \<open>
  Writing \<open>f.data[f.tail]\<close> and reading \<open>f.data[f.head]\<close> panic out of range. \<open>fifo_put\<close> is
  the part of \<open>add\<close> after the buffer has grown where it had to.
\<close>

definition fifo_put :: "'a \<Rightarrow> 'a fifo \<Rightarrow> 'a fifo option" where
  "fifo_put v f =
     (if ftail f < length (fdata f)
      then Some (f\<lparr>fdata := (fdata f)[ftail f := Some v],
                   ftail := (if ftail f + 1 = length (fdata f) then 0 else ftail f + 1)\<rparr>)
      else None)"

definition fifo_add :: "'a \<Rightarrow> 'a fifo \<Rightarrow> 'a fifo option" where
  "fifo_add v f =
     fifo_put v (if fifo_len f + 1 \<ge> length (fdata f) then fifo_grow f else f)"

definition fifo_remove :: "'a fifo \<Rightarrow> ('a option \<times> 'a fifo) option" where
  "fifo_remove f =
     (if fhead f < length (fdata f)
      then Some (fdata f ! fhead f,
                 f\<lparr>fdata := (fdata f)[fhead f := None],
                   fhead := (if fhead f + 1 = length (fdata f) then 0 else fhead f + 1)\<rparr>)
      else None)"

text \<open>The window of the buffer that holds the queue, and the queue itself.\<close>

definition fifo_window :: "'a fifo \<Rightarrow> 'a option list" where
  "fifo_window f =
     (if ftail f \<ge> fhead f then take (ftail f - fhead f) (drop (fhead f) (fdata f))
      else drop (fhead f) (fdata f) @ take (ftail f) (fdata f))"

definition fifo_list :: "'a fifo \<Rightarrow> 'a list" where
  "fifo_list f = map the (fifo_window f)"

definition fifo_inv :: "'a fifo \<Rightarrow> bool" where
  "fifo_inv f \<longleftrightarrow>
     (fdata f = [] \<and> fhead f = 0 \<and> ftail f = 0
      \<or> fhead f < length (fdata f) \<and> ftail f < length (fdata f))
     \<and> None \<notin> set (fifo_window f)"

lemma fifo_inv_new: "fifo_inv fifo_new"
  by (simp add: fifo_inv_def fifo_new_def fifo_window_def)

lemma fifo_list_new [simp]: "fifo_list fifo_new = []"
  by (simp add: fifo_list_def fifo_new_def fifo_window_def)

lemma fifo_len_window: "fifo_inv f \<Longrightarrow> fifo_len f = length (fifo_window f)"
  by (auto simp: fifo_inv_def fifo_len_def fifo_window_def)

lemma fifo_len_list: "fifo_inv f \<Longrightarrow> fifo_len f = length (fifo_list f)"
  by (simp add: fifo_len_window fifo_list_def)

lemma fifo_len_less:
  "fifo_inv f \<Longrightarrow> fdata f \<noteq> [] \<Longrightarrow> fifo_len f < length (fdata f)"
  by (auto simp: fifo_inv_def fifo_len_def)

lemma fifo_grow_inv:
  assumes "fifo_inv f"
  shows "fifo_inv (fifo_grow f)" and "fifo_window (fifo_grow f) = fifo_window f"
    and "fifo_len (fifo_grow f) + 1 < length (fdata (fifo_grow f))"
proof -
  define c where "c = (if length (fdata f) * 2 = 0 then 4 else length (fdata f) * 2)"
  have len: "fifo_len f = length (fifo_window f)" by (rule fifo_len_window [OF assms])
  have small: "fifo_len f + 1 < c"
  proof (cases "fdata f = []")
    case True
    with assms show ?thesis by (simp add: c_def fifo_len_def fifo_inv_def)
  next
    case False
    then have "0 < length (fdata f)" by simp
    with fifo_len_less [OF assms False] show ?thesis by (simp add: c_def)
  qed
  have g: "fifo_grow f = \<lparr>fdata = fifo_window f @ replicate (c - fifo_len f) None, fhead = 0,
      ftail = fifo_len f\<rparr>"
    by (simp add: fifo_grow_def Let_def c_def fifo_window_def)
  show w: "fifo_window (fifo_grow f) = fifo_window f"
    using len by (simp add: g fifo_window_def)
  show "fifo_inv (fifo_grow f)"
    using assms len small by (auto simp: fifo_inv_def w) (auto simp: g)
  show "fifo_len (fifo_grow f) + 1 < length (fdata (fifo_grow f))"
    using len small by (simp add: g fifo_len_def)
qed

text \<open>Adding where there is room: the window grows by the new item at its end.\<close>

lemma fifo_window_add:
  assumes "fifo_inv f" and "fifo_len f + 1 < length (fdata f)"
  defines "t \<equiv> (if ftail f + 1 = length (fdata f) then 0 else ftail f + 1)"
  shows "fifo_window (f\<lparr>fdata := (fdata f)[ftail f := Some v], ftail := t\<rparr>) =
    fifo_window f @ [Some v]"
proof -
  have ht: "fhead f < length (fdata f)" "ftail f < length (fdata f)"
    using assms(1,2) by (auto simp: fifo_inv_def)
  show ?thesis
  proof (cases "ftail f \<ge> fhead f")
    case True
    have old: "take (ftail f - fhead f) (drop (fhead f) ((fdata f)[ftail f := Some v])) =
        take (ftail f - fhead f) (drop (fhead f) (fdata f))"
      by (metis True drop_update_swap order_refl take_update_cancel le_add_diff_inverse)
    have next_item: "drop (fhead f) ((fdata f)[ftail f := Some v]) ! (ftail f - fhead f) = Some v"
      using True ht by simp
    show ?thesis
    proof (cases "ftail f + 1 = length (fdata f)")
      case True
      then have "fhead f \<noteq> 0" using assms(2) \<open>ftail f \<ge> fhead f\<close> by (auto simp: fifo_len_def)
      moreover have "drop (fhead f) ((fdata f)[ftail f := Some v]) =
          take (ftail f - fhead f) (drop (fhead f) (fdata f)) @ [Some v]"
        using True \<open>ftail f \<ge> fhead f\<close> ht old next_item
        by (metis (no_types, lifting) Suc_eq_plus1 Suc_diff_le length_drop length_list_update lessI
            take_Suc_conv_app_nth take_all_iff order_refl)
      ultimately show ?thesis using True \<open>ftail f \<ge> fhead f\<close>
        by (simp add: fifo_window_def t_def)
    next
      case False
      have "Suc (ftail f) - fhead f = Suc (ftail f - fhead f)" using True by simp
      with True False ht old next_item show ?thesis
        by (simp add: fifo_window_def t_def take_Suc_conv_app_nth)
    qed
  next
    case False
    then have "ftail f + 1 < fhead f" using assms(2) ht by (auto simp: fifo_len_def)
    with False ht show ?thesis
      by (simp add: fifo_window_def t_def take_Suc_conv_app_nth)
  qed
qed

lemma fifo_put_ok:
  assumes "fifo_inv f" and "fifo_len f + 1 < length (fdata f)"
  shows "\<exists>f'. fifo_put v f = Some f' \<and> fifo_inv f' \<and> fifo_window f' = fifo_window f @ [Some v]"
proof -
  have "fhead f < length (fdata f)" "ftail f < length (fdata f)"
    using assms by (auto simp: fifo_inv_def)
  moreover have "None \<notin> set (fifo_window f)" using assms(1) by (simp add: fifo_inv_def)
  ultimately show ?thesis
    using fifo_window_add [OF assms, of v] by (auto simp: fifo_inv_def fifo_put_def)
qed

lemma fifo_add_ok:
  assumes "fifo_inv f"
  shows "\<exists>f'. fifo_add v f = Some f' \<and> fifo_inv f' \<and> fifo_list f' = fifo_list f @ [v]"
proof (cases "fifo_len f + 1 \<ge> length (fdata f)")
  case True
  from fifo_put_ok [OF fifo_grow_inv(1) [OF assms] fifo_grow_inv(3) [OF assms]]
  obtain f' where "fifo_put v (fifo_grow f) = Some f'" "fifo_inv f'"
      "fifo_window f' = fifo_window f @ [Some v]"
    using fifo_grow_inv(2) [OF assms] by metis
  with True show ?thesis by (simp add: fifo_add_def fifo_list_def)
next
  case False
  with fifo_put_ok [OF assms, of v] show ?thesis
    by (auto simp: fifo_add_def fifo_list_def)
qed

lemma fifo_remove_ok:
  assumes inv: "fifo_inv f" and ne: "fifo_list f = x # xs"
  shows "\<exists>f'. fifo_remove f = Some (Some x, f') \<and> fifo_inv f' \<and> fifo_list f' = xs"
proof -
  have w: "fifo_window f \<noteq> []" using ne by (auto simp: fifo_list_def)
  then have ht: "fhead f < length (fdata f)" "ftail f < length (fdata f)"
    using inv by (auto simp: fifo_inv_def fifo_window_def)
  define h where "h = (if fhead f + 1 = length (fdata f) then 0 else fhead f + 1)"
  define f' where "f' = f\<lparr>fdata := (fdata f)[fhead f := None], fhead := h\<rparr>"
  have win: "fifo_window f = fdata f ! fhead f # fifo_window f'"
  proof (cases "ftail f \<ge> fhead f")
    case True
    with w have lt: "fhead f < ftail f" by (auto simp: fifo_window_def)
    with ht have "h = Suc (fhead f)" by (simp add: h_def)
    with lt ht show ?thesis by (simp add: fifo_window_def f'_def take_drop_hd)
  next
    case False
    have "drop (fhead f) (fdata f) = fdata f ! fhead f # drop (Suc (fhead f)) (fdata f)"
      using ht by (simp add: Cons_nth_drop_Suc)
    moreover have "take (ftail f) ((fdata f)[fhead f := None]) = take (ftail f) (fdata f)"
      using False by simp
    moreover have "drop (Suc (fhead f)) (fdata f) = []" if "Suc (fhead f) = length (fdata f)"
      using that by simp
    ultimately show ?thesis using False ht
      by (auto simp: fifo_window_def f'_def h_def)
  qed
  have some: "fdata f ! fhead f = Some x"
    using inv ne unfolding fifo_inv_def fifo_list_def win by auto
  have "fifo_inv f'" using inv ht unfolding fifo_inv_def win
    by (auto simp: f'_def h_def)
  moreover have "fifo_list f' = xs" using ne by (simp add: fifo_list_def win)
  moreover have "fifo_remove f = Some (Some x, f')"
    using ht some by (simp add: fifo_remove_def f'_def h_def)
  ultimately show ?thesis by blast
qed

interpretation fifo: fifo_queue fifo_new fifo_add fifo_remove fifo_len fifo_list fifo_inv
  by unfold_locales
    (auto simp: fifo_inv_new fifo_len_list intro: fifo_add_ok fifo_remove_ok)

section \<open>Names, whitespace, integers\<close>

text \<open>The loop over the bytes of \<open>s\<close>: \<open>false\<close> at the first byte that is no whitespace.\<close>

fun isWhitespace :: "string \<Rightarrow> bool" where
  "isWhitespace [] = True"
| "isWhitespace (c # s) =
     (if c \<noteq> CHR '' '' \<and> c \<noteq> CHR 0x09 \<and> c \<noteq> CHR 0x0A \<and> c \<noteq> CHR 0x0D then False
      else isWhitespace s)"

definition spaceMatch :: "string \<Rightarrow> string \<Rightarrow> bool" where
  "spaceMatch a b = (if a = '''' then True else a = b)"

definition spaceDecompose :: "string \<Rightarrow> string \<times> string" where
  "spaceDecompose str =
     (case index_byte str CHR '':'' of
        None \<Rightarrow> ('''', str)
      | Some colon \<Rightarrow> (take colon str, drop (colon + 1) str))"

lemma spaceDecompose_plain: "CHR '':'' \<notin> set s \<Longrightarrow> spaceDecompose s = ('''', s)"
proof -
  assume "CHR '':'' \<notin> set s"
  then have "index_byte s CHR '':'' = None" by (simp add: index_byte_None)
  then show ?thesis by (simp add: spaceDecompose_def)
qed

lemma spaceDecompose_prefixed:
  assumes "CHR '':'' \<notin> set p"
  shows "spaceDecompose (p @ CHR '':'' # k) = (p, k)"
proof -
  have "index_byte (p @ CHR '':'' # k) CHR '':'' = Some (length p)"
    using assms by (simp add: index_byte_Some)
  then show ?thesis by (simp add: spaceDecompose_def)
qed

text \<open>
  \<open>crsp\<close> and \<open>crtab\<close>: a line feed followed by 64 spaces or 16 tabs. \<open>crIndent\<close> takes a
  prefix of such a source while it is long enough and repeats its second byte otherwise.
\<close>

definition crsp :: string where
  "crsp = CHR 0x0A # replicate 64 CHR '' ''"

definition crtab :: string where
  "crtab = CHR 0x0A # replicate 16 CHR 0x09"

definition crIndent :: "int \<Rightarrow> string \<Rightarrow> string" where
  "crIndent n source =
     (if n < 0 then take 1 source
      else if n < int (length source) then take (nat n + 1) source
      else source @ concat (replicate (nat n - length source + 1) (take 1 (drop 1 source))))"

lemma crIndent_uniform:
  assumes "source = CHR 0x0A # replicate (Suc k) c"
  shows "crIndent n source = CHR 0x0A # replicate (nat n) c"
proof -
  consider "n < 0" | "0 \<le> n" "n < int (Suc (Suc k))" | "int (Suc (Suc k)) \<le> n" by linarith
  then show ?thesis
  proof cases
    case 1
    then show ?thesis by (simp add: crIndent_def assms)
  next
    case 2
    then have "nat n \<le> Suc k" by linarith
    with 2 show ?thesis by (simp add: crIndent_def assms min_def del: replicate_Suc)
  next
    case 3
    then have sum: "Suc k + (nat n - Suc (Suc k) + 1) = nat n" by linarith
    have rep: "concat (replicate m [c]) = replicate m c" for m by (induction m) auto
    have "take 1 (drop 1 source) = [c]" by (simp add: assms)
    then have "crIndent n source =
        CHR 0x0A # replicate (Suc k) c @ replicate (nat n - Suc (Suc k) + 1) c"
      using 3 by (simp add: crIndent_def assms rep)
    also have "\<dots> = CHR 0x0A # replicate (nat n) c"
      unfolding replicate_add [symmetric] sum ..
    finally show ?thesis .
  qed
qed

text \<open>\<open>offset\<close> is at most the length of \<open>s\<close> wherever the source calls it.\<close>

definition nextIndex :: "string \<Rightarrow> string \<Rightarrow> nat \<Rightarrow> nat option" where
  "nextIndex s sep offset =
     (case str_index (drop offset s) sep of
        None \<Rightarrow> None
      | Some i \<Rightarrow> Some (offset + i))"

text \<open>The loop over the indices of \<open>s\<close>, from \<open>i\<close> on: a sign is accepted at index 0 only.\<close>

fun isInteger_from :: "nat \<Rightarrow> string \<Rightarrow> bool" where
  "isInteger_from i [] = True"
| "isInteger_from i (c # s) =
     (if \<not> is_digit_char c \<and> \<not> (i = 0 \<and> c = CHR ''-'') then False
      else isInteger_from (i + 1) s)"

definition isInteger :: "string \<Rightarrow> bool" where
  "isInteger s = isInteger_from 0 s"

lemma isInteger_from_Suc: "isInteger_from (Suc i) s \<longleftrightarrow> list_all is_digit_char s"
  by (induction s arbitrary: i) auto

lemma isInteger_iff:
  "isInteger s \<longleftrightarrow> list_all is_digit_char s \<or> (\<exists>r. s = CHR ''-'' # r \<and> list_all is_digit_char r)"
  by (cases s) (auto simp: isInteger_def isInteger_from_Suc)

end
