(* ===== verification/EtreeTree.thy ===== *)
theory EtreeTree
  imports EtreeHelpers "HOL-Library.Multiset"
begin

text \<open>
  Element trees (\<open>etree/etree.go\<close>, \<open>etree/cdata.go\<close>). A token is a heap object; the tree
  owns its tokens, and each carries its address, so that comparing pointers is comparing
  addresses and changing the object a pointer names is changing the token with its address
  (\<open>upd\<close>). New objects take their address from a counter that the operations pass on. The
  parent pointer of a token in a tree is its position there; the one operation of the code after which
  this is false is \<open>Document.Copy\<close>, whose model shows the pointer that the copied children have.
\<close>

section \<open>Tokens\<close>

record attr =
  a_space :: string
  a_key :: string
  a_value :: string

datatype token =
    Element nat string string "attr list" "token list"
  | CharData nat string bool
  | Comment nat string
  | Directive nat string
  | ProcInst nat string string
  | CData nat string

record WriteSettings =
  CanonicalEndTags :: bool
  CanonicalText :: bool
  CanonicalAttrVal :: bool

definition newWriteSettings :: WriteSettings where
  "newWriteSettings = \<lparr>CanonicalEndTags = False, CanonicalText = False, CanonicalAttrVal = False\<rparr>"

text \<open>The embedded element of a document has no name, no attributes and no parent.\<close>

record document =
  d_element :: token
  d_settings :: WriteSettings

definition NewDocument :: "nat \<Rightarrow> document \<times> nat" where
  "NewDocument n = (\<lparr>d_element = Element n '''' '''' [] [], d_settings = newWriteSettings\<rparr>, Suc n)"

fun addr :: "token \<Rightarrow> nat" where
  "addr (Element n _ _ _ _) = n"
| "addr (CharData n _ _) = n"
| "addr (Comment n _) = n"
| "addr (Directive n _) = n"
| "addr (ProcInst n _ _) = n"
| "addr (CData n _) = n"

fun is_element :: "token \<Rightarrow> bool" where
  "is_element (Element _ _ _ _ _) = True"
| "is_element _ = False"

fun children :: "token \<Rightarrow> token list" where
  "children (Element _ _ _ _ ch) = ch"
| "children _ = []"

fun attrs :: "token \<Rightarrow> attr list" where
  "attrs (Element _ _ _ as _) = as"
| "attrs _ = []"

fun el_space :: "token \<Rightarrow> string" where
  "el_space (Element _ s _ _ _) = s"
| "el_space _ = ''''"

fun el_tag :: "token \<Rightarrow> string" where
  "el_tag (Element _ _ t _ _) = t"
| "el_tag _ = ''''"

text \<open>All tokens of a tree, a token before its children; their addresses.\<close>

fun subtokens :: "token \<Rightarrow> token list" where
  "subtokens (Element n s t as ch) = Element n s t as ch # concat (map subtokens ch)"
| "subtokens x = [x]"

definition addrs :: "token \<Rightarrow> nat list" where
  "addrs t = map addr (subtokens t)"

text \<open>The token without its addresses: what two copies of a tree have in common.\<close>

fun erase :: "token \<Rightarrow> token" where
  "erase (Element n s t as ch) = Element 0 s t as (map erase ch)"
| "erase (CharData n d w) = CharData 0 d w"
| "erase (Comment n d) = Comment 0 d"
| "erase (Directive n d) = Directive 0 d"
| "erase (ProcInst n t i) = ProcInst 0 t i"
| "erase (CData n d) = CData 0 d"

text \<open>Changing every element of a tree, and changing the element at an address.\<close>

fun tmap :: "(token \<Rightarrow> token) \<Rightarrow> token \<Rightarrow> token" where
  "tmap f (Element n s t as ch) = f (Element n s t as (map (tmap f) ch))"
| "tmap f x = x"

definition upd :: "nat \<Rightarrow> (token \<Rightarrow> token) \<Rightarrow> token \<Rightarrow> token" where
  "upd a f = tmap (\<lambda>e. if addr e = a then f e else e)"

text \<open>The element a pointer names.\<close>

definition deref :: "token \<Rightarrow> nat \<Rightarrow> token option" where
  "deref root a = find (\<lambda>t. is_element t \<and> addr t = a) (subtokens root)"

lemma addrs_simps [tree_simps]:
  "addrs (Element n s t as ch) = n # concat (map addrs ch)"
  "addrs (CharData n d w) = [n]" "addrs (Comment n d) = [n]" "addrs (Directive n d) = [n]"
  "addrs (ProcInst n x i) = [n]" "addrs (CData n d) = [n]"
  by (auto simp: addrs_def [abs_def] map_concat comp_def)

lemma upd_simps [tree_simps]:
  "upd a f (Element n s t as ch) =
     (if n = a then f (Element n s t as (map (upd a f) ch)) else Element n s t as (map (upd a f) ch))"
  "upd a f (CharData n d w) = CharData n d w" "upd a f (Comment n d) = Comment n d"
  "upd a f (Directive n d) = Directive n d" "upd a f (ProcInst n x i) = ProcInst n x i"
  "upd a f (CData n d) = CData n d"
  by (auto simp: upd_def)

lemma addr_in_addrs [simp]: "addr t \<in> set (addrs t)"
  by (cases t) (auto simp: tree_simps)

lemma subtokens_self [simp]: "t \<in> set (subtokens t)"
  by (cases t) auto

lemma set_addrs: "set (addrs t) = addr ` set (subtokens t)"
  by (simp add: addrs_def)

lemma upd_fresh: "a \<notin> set (addrs t) \<Longrightarrow> upd a f t = t"
  by (induction t) (auto simp: tree_simps map_idI)

lemma erase_addr_cong: "erase s = erase t \<Longrightarrow> is_element s = is_element t"
  by (cases s; cases t) auto

section \<open>Text, attributes and child tokens\<close>

text \<open>\<open>addChild\<close> and the constructors that bind a new token to a parent.\<close>

fun addChild :: "token \<Rightarrow> token \<Rightarrow> token" where
  "addChild c (Element n s t as ch) = Element n s t as (ch @ [c])"
| "addChild c x = x"

fun Text :: "token \<Rightarrow> string" where
  "Text (Element _ _ _ _ ch) = (case ch of CharData _ d _ # _ \<Rightarrow> d | _ \<Rightarrow> '''')"
| "Text _ = ''''"

text \<open>
  \<open>SetText\<close>: with a leading \<open>CharData\<close> its \<open>Data\<close> is overwritten. Otherwise
  \<open>newCharData(text, false, e)\<close> appends the new token to the children, \<open>copy\<close> moves the
  others one place up (over it), and it is stored in front. \<open>n\<close> is the address it gets.
\<close>

fun SetText :: "string \<Rightarrow> token \<Rightarrow> nat \<Rightarrow> token \<times> nat" where
  "SetText text (Element a s t as ch) n =
     (case ch of
        CharData b d w # r \<Rightarrow> (Element a s t as (CharData b text w # r), n)
      | _ \<Rightarrow> (let cd = CharData n text False;
                  ch1 = ch @ [cd];
                  ch2 = ch1 ! 0 # take (length ch1 - 1) ch1
              in (Element a s t as (ch2[0 := cd]), Suc n)))"
| "SetText text x n = (x, n)"

text \<open>A new attribute, or a new value for the first with the same space and key.\<close>

fun set_attr :: "string \<Rightarrow> string \<Rightarrow> string \<Rightarrow> attr list \<Rightarrow> attr list" where
  "set_attr space key v [] = [\<lparr>a_space = space, a_key = key, a_value = v\<rparr>]"
| "set_attr space key v (a # as) =
     (if space = a_space a \<and> key = a_key a then a\<lparr>a_value := v\<rparr> # as
      else a # set_attr space key v as)"

fun createAttr :: "string \<Rightarrow> string \<Rightarrow> string \<Rightarrow> token \<Rightarrow> token" where
  "createAttr space key v (Element n s t as ch) = Element n s t (set_attr space key v as) ch"
| "createAttr space key v x = x"

definition CreateAttr :: "string \<Rightarrow> string \<Rightarrow> token \<Rightarrow> token" where
  "CreateAttr key v e = (let (space, skey) = spaceDecompose key in createAttr space skey v e)"

text \<open>\<open>SelectAttr\<close> returns the place of the attribute in \<open>e.Attr\<close>, which callers write through.\<close>

fun find_attr :: "string \<Rightarrow> string \<Rightarrow> attr list \<Rightarrow> nat option" where
  "find_attr space skey [] = None"
| "find_attr space skey (a # as) =
     (if spaceMatch space (a_space a) \<and> skey = a_key a then Some 0
      else map_option Suc (find_attr space skey as))"

definition SelectAttr :: "string \<Rightarrow> token \<Rightarrow> nat option" where
  "SelectAttr key e = (let (space, skey) = spaceDecompose key in find_attr space skey (attrs e))"

definition SelectAttrValue :: "string \<Rightarrow> string \<Rightarrow> token \<Rightarrow> string" where
  "SelectAttrValue key dflt e =
     (let (space, skey) = spaceDecompose key
      in case find_attr space skey (attrs e) of None \<Rightarrow> dflt | Some i \<Rightarrow> a_value (attrs e ! i))"

fun set_attr_value_at :: "nat \<Rightarrow> string \<Rightarrow> token \<Rightarrow> token" where
  "set_attr_value_at i v (Element n s t as ch) =
     Element n s t (as[i := (as ! i)\<lparr>a_value := v\<rparr>]) ch"
| "set_attr_value_at i v x = x"

text \<open>\<open>RemoveAttr\<close> compares the space exactly; it returns the attribute it removed.\<close>

fun remove_attr :: "string \<Rightarrow> string \<Rightarrow> attr list \<Rightarrow> attr list \<times> attr option" where
  "remove_attr space skey [] = ([], None)"
| "remove_attr space skey (a # as) =
     (if space = a_space a \<and> skey = a_key a then (as, Some a)
      else (case remove_attr space skey as of (as', r) \<Rightarrow> (a # as', r)))"

fun RemoveAttr :: "string \<Rightarrow> token \<Rightarrow> token \<times> attr option" where
  "RemoveAttr key (Element n s t as ch) =
     (case spaceDecompose key of (space, skey) \<Rightarrow>
        case remove_attr space skey as of (as', r) \<Rightarrow> (Element n s t as' ch, r))"
| "RemoveAttr key x = (x, None)"

definition tag_match :: "string \<Rightarrow> string \<Rightarrow> token \<Rightarrow> bool" where
  "tag_match space stag c \<longleftrightarrow> is_element c \<and> spaceMatch space (el_space c) \<and> stag = el_tag c"

definition ChildElements :: "token \<Rightarrow> token list" where
  "ChildElements e = filter is_element (children e)"

definition SelectElement :: "string \<Rightarrow> token \<Rightarrow> token option" where
  "SelectElement tag e =
     (let (space, stag) = spaceDecompose tag in find (tag_match space stag) (children e))"

definition SelectElements :: "string \<Rightarrow> token \<Rightarrow> token list" where
  "SelectElements tag e =
     (let (space, stag) = spaceDecompose tag in filter (tag_match space stag) (children e))"

text \<open>\<open>Document.Root\<close>: the first element among the children of the document.\<close>

definition Root :: "document \<Rightarrow> token option" where
  "Root d = find is_element (children (d_element d))"

text \<open>
  \<open>RemoveChild\<close>, on the element's own children: the token with the address is taken out
  and returned. \<open>InsertChild\<close> as the code has it: \<open>copy(e.Child[i+1:], e.Child[i:])\<close> without
  making room first, then the token is stored at \<open>i\<close>; a token that no child equals
  (or \<open>nil\<close>, here \<open>None\<close>) appends.
\<close>

fun remove_token :: "nat \<Rightarrow> token list \<Rightarrow> token list \<times> token option" where
  "remove_token a [] = ([], None)"
| "remove_token a (c # cs) =
     (if addr c = a then (cs, Some c)
      else (case remove_token a cs of (cs', r) \<Rightarrow> (c # cs', r)))"

fun RemoveChild :: "nat \<Rightarrow> token \<Rightarrow> token \<times> token option" where
  "RemoveChild a (Element n s t as ch) =
     (case remove_token a ch of (ch', r) \<Rightarrow> (Element n s t as ch', r))"
| "RemoveChild a x = (x, None)"

fun child_index :: "nat \<Rightarrow> token list \<Rightarrow> nat option" where
  "child_index a [] = None"
| "child_index a (c # cs) = (if addr c = a then Some 0 else map_option Suc (child_index a cs))"

fun InsertChild :: "nat option \<Rightarrow> token \<Rightarrow> token \<Rightarrow> token" where
  "InsertChild ex c (Element n s t as ch) =
     (case Option.bind ex (\<lambda>a. child_index a ch) of
        Some i \<Rightarrow>
          (let moved = take (i + 1) ch @ take (length ch - (i + 1)) (drop i ch)
           in Element n s t as (moved[i := c]))
      | None \<Rightarrow> addChild c (Element n s t as ch))"
| "InsertChild ex c x = x"

text \<open>\<open>SetRoot\<close> of an unbound element: the first element child is replaced, or \<open>e\<close> appended.\<close>

fun replace_first_element :: "token \<Rightarrow> token list \<Rightarrow> token list" where
  "replace_first_element e [] = [e]"
| "replace_first_element e (c # cs) =
     (if is_element c then e # cs else c # replace_first_element e cs)"

fun with_children :: "token list \<Rightarrow> token \<Rightarrow> token" where
  "with_children ch (Element n s t as _) = Element n s t as ch"
| "with_children ch x = x"

definition SetRoot :: "token \<Rightarrow> document \<Rightarrow> document" where
  "SetRoot e d =
     d\<lparr>d_element := with_children (replace_first_element e (children (d_element d))) (d_element d)\<rparr>"

text \<open>\<open>WriteCData\<close> makes a \<open>CData\<close> token the only child.\<close>

definition WriteCData :: "string \<Rightarrow> token \<Rightarrow> nat \<Rightarrow> token \<times> nat" where
  "WriteCData text e n = (with_children [CData n text] e, Suc n)"

lemma SetText_no_leading:
  assumes "\<And>b d w r. ch \<noteq> CharData b d w # r"
  shows "SetText text (Element a s t as ch) n =
    (Element a s t as (CharData n text False # ch), Suc n)"
proof (cases ch)
  case (Cons c cs)
  with assms show ?thesis by (cases c) (auto simp: Let_def)
qed (simp add: Let_def)

lemma Text_SetText: "is_element e \<Longrightarrow> Text (fst (SetText text e n)) = text"
  by (cases e) (auto simp: Let_def split: list.splits token.splits)

lemma erase_addChild: "erase (addChild c e) = addChild (erase c) (erase e)"
  by (cases e) auto

section \<open>Copying and indenting\<close>

text \<open>
  The methods \<open>dup\<close> of the single tokens, each at the next address; \<open>dup\<close> allocates the copy of an
  element before the copies of its children.
\<close>

definition CharData_dup :: "string \<Rightarrow> bool \<Rightarrow> nat \<Rightarrow> token \<times> nat" where
  [simp]: "CharData_dup d w n = (CharData n d w, Suc n)"

definition Comment_dup :: "string \<Rightarrow> nat \<Rightarrow> token \<times> nat" where
  [simp]: "Comment_dup d n = (Comment n d, Suc n)"

definition Directive_dup :: "string \<Rightarrow> nat \<Rightarrow> token \<times> nat" where
  [simp]: "Directive_dup d n = (Directive n d, Suc n)"

definition ProcInst_dup :: "string \<Rightarrow> string \<Rightarrow> nat \<Rightarrow> token \<times> nat" where
  [simp]: "ProcInst_dup target inst n = (ProcInst n target inst, Suc n)"

definition CData_dup :: "string \<Rightarrow> nat \<Rightarrow> token \<times> nat" where
  [simp]: "CData_dup v n = (CData n v, Suc n)"

fun dup :: "token \<Rightarrow> nat \<Rightarrow> token \<times> nat"
  and dups :: "token list \<Rightarrow> nat \<Rightarrow> token list \<times> nat" where
  "dup (Element a s t as ch) n =
     (case dups ch (Suc n) of (ch', n') \<Rightarrow> (Element n s t as ch', n'))"
| "dup (CharData a d w) n = CharData_dup d w n"
| "dup (Comment a d) n = Comment_dup d n"
| "dup (Directive a d) n = Directive_dup d n"
| "dup (ProcInst a t i) n = ProcInst_dup t i n"
| "dup (CData a d) n = CData_dup d n"
| "dups [] n = ([], n)"
| "dups (c # cs) n =
     (case dup c n of (c', n1) \<Rightarrow> case dups cs n1 of (cs', n2) \<Rightarrow> (c' # cs', n2))"

text \<open>
  \<open>Document.Copy\<close>: \<open>dup\<close> makes an element, whose value is then stored into the new document; the
  embedded element of the document is another object, with an address of its own. The copies of
  the children have been bound to the element that \<open>dup\<close> made, so the parent that they name is its
  address (the second result) and not the document's.
\<close>

fun moved_to :: "nat \<Rightarrow> token \<Rightarrow> token" where
  "moved_to m (Element n s t as ch) = Element m s t as ch"
| "moved_to m x = x"

definition Copy :: "document \<Rightarrow> nat \<Rightarrow> document \<times> nat \<times> nat" where
  "Copy d n = (case dup (d_element d) n of (e, m) \<Rightarrow>
     (\<lparr>d_element = moved_to m e, d_settings = d_settings d\<rparr>, addr e, Suc m))"

lemma dup_erase: "erase (fst (dup t n)) = erase t"
  and dups_erase: "map erase (fst (dups ts n)) = map erase ts"
  by (induction t n and ts n rule: dup_dups.induct) (auto split: prod.splits)

lemma dup_fresh: "n < snd (dup t n) \<and> set (addrs (fst (dup t n))) = {n..<snd (dup t n)}
    \<and> distinct (addrs (fst (dup t n)))"
  and dups_fresh: "n \<le> snd (dups ts n) \<and>
    set (concat (map addrs (fst (dups ts n)))) = {n..<snd (dups ts n)} \<and>
    distinct (concat (map addrs (fst (dups ts n))))"
proof (induction t n and ts n rule: dup_dups.induct)
  case (8 c cs n)
  obtain c' n1 where c': "dup c n = (c', n1)" by (cases "dup c n")
  obtain cs' n2 where cs': "dups cs n1 = (cs', n2)" by (cases "dups cs n1")
  have "set (addrs c') = {n..<n1}" "n < n1" "distinct (addrs c')" using 8(1) c' by auto
  moreover have "set (concat (map addrs cs')) = {n1..<n2}" "n1 \<le> n2"
      "distinct (concat (map addrs cs'))" using 8(2) c' cs' by auto
  ultimately show ?case using c' cs' by (auto simp del: set_concat)
next
  case (1 a s t as ch n)
  obtain ch' n' where ch': "dups ch (Suc n) = (ch', n')" by (cases "dups ch (Suc n)")
  have "set (concat (map addrs ch')) = {Suc n..<n'}" "Suc n \<le> n'"
      "distinct (concat (map addrs ch'))" using 1 ch' by auto
  then show ?case using ch' by (auto simp: tree_simps simp del: set_concat)
qed (auto simp: tree_simps split: prod.splits)

text \<open>Indentation: the whitespace flag tells inserted character data from the document's own.\<close>

definition is_char_data :: "token \<Rightarrow> bool" where
  "is_char_data c = (case c of CharData _ _ _ \<Rightarrow> True | _ \<Rightarrow> False)"

definition is_whitespace_data :: "token \<Rightarrow> bool" where
  "is_whitespace_data c = (case c of CharData _ _ w \<Rightarrow> w | _ \<Rightarrow> False)"

definition stripIndent :: "token list \<Rightarrow> token list" where
  "stripIndent ch = filter (\<lambda>c. \<not> is_whitespace_data c) ch"

text \<open>
  \<open>indent\<close> of the children of an element at a depth, with \<open>ind\<close> the indentation of a depth.
  The loop carries \<open>isCharData\<close> and \<open>firstNonCharData\<close>, and each child is indented right
  after it was added. \<open>indent_children\<close> is the loop over the stripped children. The number of
  spaces is the product of two 64 bit integers, which wraps around; the panic of \<open>strings.Repeat\<close> for
  a count whose result no memory can hold is not modelled.
\<close>

fun indent :: "(int \<Rightarrow> string) \<Rightarrow> int \<Rightarrow> token \<Rightarrow> nat \<Rightarrow> token \<times> nat"
  and indent_children ::
    "(int \<Rightarrow> string) \<Rightarrow> int \<Rightarrow> bool \<Rightarrow> bool \<Rightarrow> token list \<Rightarrow> nat \<Rightarrow> token list \<times> nat" where
  "indent ind depth (Element a s t as ch) n =
     (if stripIndent ch = [] then (Element a s t as [], n)
      else case indent_children ind depth False True ch n of
             (ch', n') \<Rightarrow> (Element a s t as ch', n'))"
| "indent ind depth x n = (x, n)"
| "indent_children ind depth isCharData firstNonCharData [] n =
     (if \<not> isCharData \<and> (\<not> firstNonCharData \<or> depth > 0)
      then ([CharData n (ind (depth - 1)) True], Suc n) else ([], n))"
| "indent_children ind depth isCharData firstNonCharData (c # cs) n =
     (if is_whitespace_data c then indent_children ind depth isCharData firstNonCharData cs n
      else
        let isCD = is_char_data c;
            (before, n1) = (if \<not> isCD \<and> (\<not> firstNonCharData \<or> depth > 0)
                            then ([CharData n (ind depth) True], Suc n) else ([], n));
            (c', n2) = indent ind (depth + 1) c n1;
            (rest, n3) = indent_children ind depth isCD (firstNonCharData \<and> isCD) cs n2
        in (before @ c' # rest, n3))"

definition wrap64 :: "int \<Rightarrow> int" where
  "wrap64 i = (i + 2 ^ 63) mod 2 ^ 64 - 2 ^ 63"

definition Indent :: "int \<Rightarrow> document \<Rightarrow> nat \<Rightarrow> document \<times> nat" where
  "Indent spaces d n =
     (case indent (if spaces < 0 then (\<lambda>depth. '''') else (\<lambda>depth. crIndent (wrap64 (depth * spaces)) crsp))
             0 (d_element d) n of
        (e, n') \<Rightarrow> (d\<lparr>d_element := e\<rparr>, n'))"

definition IndentTabs :: "document \<Rightarrow> nat \<Rightarrow> document \<times> nat" where
  "IndentTabs d n =
     (case indent (\<lambda>depth. crIndent depth crtab) 0 (d_element d) n of
        (e, n') \<Rightarrow> (d\<lparr>d_element := e\<rparr>, n'))"

text \<open>What indentation keeps: the tree with its whitespace data taken out everywhere.\<close>

fun strip_all :: "token \<Rightarrow> token" where
  "strip_all (Element n s t as ch) =
     Element n s t as (map strip_all (filter (\<lambda>c. \<not> is_whitespace_data c) ch))"
| "strip_all x = x"

lemma is_whitespace_data_simps [simp]:
  "\<not> is_whitespace_data (Element n s t as ch)" "is_whitespace_data (CharData n d w) = w"
  "\<not> is_whitespace_data (Comment n d)" "\<not> is_whitespace_data (Directive n d)"
  "\<not> is_whitespace_data (ProcInst n x i)" "\<not> is_whitespace_data (CData n d)"
  by (auto simp: is_whitespace_data_def)

lemma indent_whitespace_data:
  "is_whitespace_data (fst (indent ind depth c n)) = is_whitespace_data c"
  by (cases c) (auto split: prod.splits)

lemma indent_keeps: "strip_all (fst (indent ind depth t n)) = strip_all t"
  and indent_children_keeps:
    "map strip_all (stripIndent (fst (indent_children ind depth icd fncd ch n))) =
     map strip_all (stripIndent ch)"
proof (induction ind depth t n and ind depth icd fncd ch n rule: indent_indent_children.induct)
  case (1 ind depth a s t as ch n)
  then show ?case
    by (auto simp: stripIndent_def split: prod.splits)
next
  case (4 ind depth isCharData firstNonCharData c cs n)
  show ?case
  proof (cases "is_whitespace_data c")
    case False
    define isCD where "isCD = is_char_data c"
    obtain before n1 where b: "(if \<not> isCD \<and> (\<not> firstNonCharData \<or> depth > 0)
        then ([CharData n (ind depth) True], Suc n) else ([], n)) = (before, n1)"
      by fastforce
    obtain c' n2 where c': "indent ind (depth + 1) c n1 = (c', n2)"
      by (cases "indent ind (depth + 1) c n1")
    obtain rest n3 where r: "indent_children ind depth isCD (firstNonCharData \<and> isCD) cs n2 = (rest, n3)"
      by (cases "indent_children ind depth isCD (firstNonCharData \<and> isCD) cs n2")
    have "strip_all c' = strip_all c"
      using 4(2) [OF False isCD_def b [symmetric] refl] c' by simp
    moreover have "map strip_all (stripIndent rest) = map strip_all (stripIndent cs)"
      using 4(3) [OF False isCD_def b [symmetric] refl c' [symmetric] refl] r by simp
    moreover have "\<not> is_whitespace_data c'"
      using indent_whitespace_data [of ind "depth + 1" c n1] c' False by simp
    moreover have "stripIndent before = []"
      using b by (auto simp: stripIndent_def split: if_splits)
    moreover have "fst (indent_children ind depth isCharData firstNonCharData (c # cs) n) =
        before @ c' # rest"
      using False b c' r by (simp add: isCD_def [symmetric] del: if_split)
    ultimately show ?thesis using False by (simp add: stripIndent_def)
  qed (use 4 in \<open>simp add: stripIndent_def\<close>)
qed (auto simp: stripIndent_def)

end
