(* ===== verification/EtreeIO.thy ===== *)
theory EtreeIO
  imports EtreeTree
begin

text \<open>
  Reading and writing documents (\<open>etree/etree.go\<close>). The XML decoder of \<open>encoding/xml\<close> is
  seen as \<open>readFrom\<close> sees it: \<open>RawToken\<close> delivers a sequence of raw tokens and then
  \<open>io.EOF\<close> or an error. Reading builds the tree by changing the element on top of the
  stack; writing produces the bytes.
\<close>

section \<open>Reading\<close>

datatype raw_token =
    RawStart string string "(string \<times> string \<times> string) list"
  | RawEnd string string
  | RawCharData string
  | RawComment string
  | RawDirective string
  | RawProcInst string string

text \<open>A decoded input: its raw tokens, and the error that ends it (\<open>None\<close> is \<open>io.EOF\<close>).\<close>

type_synonym decoded = "raw_token list \<times> goerror option"

text \<open>\<open>createAttr\<close> for each attribute of a start tag, in order.\<close>

definition add_attrs :: "(string \<times> string \<times> string) list \<Rightarrow> token \<Rightarrow> token" where
  "add_attrs as e = fold (\<lambda>(s, k, v). createAttr s k v) as e"

text \<open>
  The loop of \<open>readFrom\<close>. Of the three guards of its first switch the end of input comes
  before the empty stack. The stack is not empty when it is peeked or popped.
\<close>

fun read_loop ::
  "raw_token list \<Rightarrow> goerror option \<Rightarrow> token \<Rightarrow> nat stack \<Rightarrow> nat \<Rightarrow> goerror option \<times> token \<times> nat"
  where
  "read_loop [] stop root st n = (stop, root, n)"
| "read_loop (r # rs) stop root st n =
     (if stack_empty st then (Some ErrXml, root, n)
      else
        let top = the (stack_peek st)
        in case r of
             RawStart s t as \<Rightarrow>
               read_loop rs stop
                 (upd top (addChild (add_attrs as (Element n s t [] []))) root)
                 (stack_push n st) (Suc n)
           | RawEnd s t \<Rightarrow> read_loop rs stop root (snd (the (stack_pop st))) n
           | RawCharData d \<Rightarrow>
               read_loop rs stop (upd top (addChild (CharData n d (isWhitespace d))) root) st (Suc n)
           | RawComment d \<Rightarrow> read_loop rs stop (upd top (addChild (Comment n d)) root) st (Suc n)
           | RawDirective d \<Rightarrow> read_loop rs stop (upd top (addChild (Directive n d)) root) st (Suc n)
           | RawProcInst t i \<Rightarrow>
               read_loop rs stop (upd top (addChild (ProcInst n t i)) root) st (Suc n))"

definition readFrom :: "decoded \<Rightarrow> token \<Rightarrow> nat \<Rightarrow> goerror option \<times> token \<times> nat" where
  "readFrom inp e n = read_loop (fst inp) (snd inp) e (stack_push (addr e) stack_new) n"

text \<open>\<open>NewDocument\<close> followed by \<open>ReadFromString\<close>; \<open>dec\<close> is the decoder.\<close>

definition ReadFromString ::
  "(string \<Rightarrow> decoded) \<Rightarrow> string \<Rightarrow> document \<Rightarrow> nat \<Rightarrow> goerror option \<times> document \<times> nat" where
  "ReadFromString dec s d n =
     (case readFrom (dec s) (d_element d) n of (err, e, n') \<Rightarrow> (err, d\<lparr>d_element := e\<rparr>, n'))"

section \<open>Writing\<close>

definition xmlReplacerNormal :: "string \<Rightarrow> string" where
  "xmlReplacerNormal = byte_replacer
     [(CHR ''&'', ''&amp;''), (CHR ''<'', ''&lt;''), (CHR ''>'', ''&gt;''),
      (CHR 0x27, ''&apos;''), (CHR 0x22, ''&quot;'')]"

definition xmlReplacerCanonicalText :: "string \<Rightarrow> string" where
  "xmlReplacerCanonicalText = byte_replacer
     [(CHR ''&'', ''&amp;''), (CHR ''<'', ''&lt;''), (CHR ''>'', ''&gt;'')]"

definition xmlReplacerCanonicalAttrVal :: "string \<Rightarrow> string" where
  "xmlReplacerCanonicalAttrVal = byte_replacer
     [(CHR ''&'', ''&amp;''), (CHR ''<'', ''&lt;''), (CHR 0x22, ''&quot;'')]"

definition name_text :: "string \<Rightarrow> string \<Rightarrow> string" where
  "name_text space key = (if space \<noteq> '''' then space @ '':'' @ key else key)"

definition attr_writeTo :: "WriteSettings \<Rightarrow> attr \<Rightarrow> string" where
  "attr_writeTo s a =
     name_text (a_space a) (a_key a) @ ''=\"''
     @ (if CanonicalAttrVal s then xmlReplacerCanonicalAttrVal else xmlReplacerNormal) (a_value a)
     @ ''\"''"

text \<open>The methods \<open>writeTo\<close> of the single tokens, then of any token.\<close>

definition CharData_writeTo :: "WriteSettings \<Rightarrow> string \<Rightarrow> string" where
  [simp]: "CharData_writeTo s d = (if CanonicalText s then xmlReplacerCanonicalText else xmlReplacerNormal) d"

definition Comment_writeTo :: "string \<Rightarrow> string" where
  [simp]: "Comment_writeTo d = ''<!--'' @ d @ ''-->''"

definition Directive_writeTo :: "string \<Rightarrow> string" where
  [simp]: "Directive_writeTo d = ''<!'' @ d @ ''>''"

definition ProcInst_writeTo :: "string \<Rightarrow> string \<Rightarrow> string" where
  [simp]: "ProcInst_writeTo target inst =
     ''<?'' @ target @ (if inst \<noteq> '''' then '' '' @ inst else '''') @ ''?>''"

definition CData_writeTo :: "string \<Rightarrow> string" where
  [simp]: "CData_writeTo v = ''<![CDATA['' @ v @ '']]>''"

fun writeTo :: "WriteSettings \<Rightarrow> token \<Rightarrow> string" where
  "writeTo s (Element n sp tag as ch) =
     ''<'' @ name_text sp tag @ concat (map (\<lambda>a. '' '' @ attr_writeTo s a) as) @
     (if length ch > 0
      then ''>'' @ concat (map (writeTo s) ch) @ ''</'' @ name_text sp tag @ ''>''
      else if CanonicalEndTags s then ''></'' @ name_text sp tag @ ''>''
      else ''/>'')"
| "writeTo s (CharData n d w) = CharData_writeTo s d"
| "writeTo s (Comment n d) = Comment_writeTo d"
| "writeTo s (Directive n d) = Directive_writeTo d"
| "writeTo s (ProcInst n target inst) = ProcInst_writeTo target inst"
| "writeTo s (CData n v) = CData_writeTo v"

text \<open>\<open>WriteTo\<close> writes the children of the document; into memory it does not fail.\<close>

definition WriteToString :: "document \<Rightarrow> string" where
  "WriteToString d = concat (map (writeTo (d_settings d)) (children (d_element d)))"

lemma writeTo_erase: "writeTo s (erase t) = writeTo s t"
proof (induction t)
  case (Element n sp tag as ch)
  then have "map (writeTo s) (map erase ch) = map (writeTo s) ch" by simp
  then show ?case by (simp only: erase.simps writeTo.simps length_map)
qed auto

lemma WriteToString_erase:
  "erase e = e' \<Longrightarrow> WriteToString (d\<lparr>d_element := e\<rparr>) = WriteToString (d\<lparr>d_element := e'\<rparr>)"
proof -
  assume e: "erase e = e'"
  have "children e' = map erase (children e)" using e by (cases e) auto
  moreover have "map (writeTo s) (map erase ch) = map (writeTo s) ch" for s ch
    by (simp add: writeTo_erase)
  ultimately have "map (writeTo s) (children e') = map (writeTo s) (children e)" for s by simp
  then show ?thesis by (simp add: WriteToString_def del: map_eq_conv)
qed

section \<open>What escaping guarantees\<close>

text \<open>
  Decoding of the five predefined entities, as the XML grammar has it: the reference that
  the replacers are measured against.
\<close>

fun unescape :: "string \<Rightarrow> string" where
  "unescape [] = []"
| "unescape (c # s) =
     (if c = CHR ''&'' then
        (if has_prefix s ''amp;'' then CHR ''&'' # unescape (drop 4 s)
         else if has_prefix s ''lt;'' then CHR ''<'' # unescape (drop 3 s)
         else if has_prefix s ''gt;'' then CHR ''>'' # unescape (drop 3 s)
         else if has_prefix s ''apos;'' then CHR 0x27 # unescape (drop 5 s)
         else if has_prefix s ''quot;'' then CHR 0x22 # unescape (drop 5 s)
         else c # unescape s)
      else c # unescape s)"

lemma unescape_normal: "unescape (xmlReplacerNormal s) = s"
  by (induction s) (auto simp: xmlReplacerNormal_def byte_replacer_Cons has_prefix_def)

lemma unescape_canonical_text: "unescape (xmlReplacerCanonicalText s) = s"
  by (induction s) (auto simp: xmlReplacerCanonicalText_def byte_replacer_Cons has_prefix_def)

lemma unescape_canonical_attr: "unescape (xmlReplacerCanonicalAttrVal s) = s"
  by (induction s) (auto simp: xmlReplacerCanonicalAttrVal_def byte_replacer_Cons has_prefix_def)

lemma replacer_safe:
  "CHR ''<'' \<notin> set (xmlReplacerNormal s)" "CHR ''<'' \<notin> set (xmlReplacerCanonicalText s)"
  "CHR ''<'' \<notin> set (xmlReplacerCanonicalAttrVal s)"
  "CHR 0x22 \<notin> set (xmlReplacerNormal s)" "CHR 0x22 \<notin> set (xmlReplacerCanonicalAttrVal s)"
  unfolding xmlReplacerNormal_def xmlReplacerCanonicalText_def xmlReplacerCanonicalAttrVal_def
  using set_byte_replacer [of _ s] by fastforce+

section \<open>Addresses of the tree that is read\<close>

text \<open>
  Adding a child with fresh addresses under an element keeps all addresses of the tree
  different. The count of each address is what the induction over the tree can carry.
\<close>

definition el_count :: "nat \<Rightarrow> token \<Rightarrow> nat" where
  "el_count a t = length (filter (\<lambda>e. is_element e \<and> addr e = a) (subtokens t))"

lemma el_count_simps [tree_simps]:
  "el_count a (Element n s t as ch) = (if n = a then 1 else 0) + sum_list (map (el_count a) ch)"
  "el_count a (CharData n d w) = 0" "el_count a (Comment n d) = 0" "el_count a (Directive n d) = 0"
  "el_count a (ProcInst n x i) = 0" "el_count a (CData n d) = 0"
  by (auto simp: el_count_def [abs_def] filter_concat length_concat comp_def)

lemma count_concat: "count (mset (concat xss)) x = sum_list (map (\<lambda>xs. count (mset xs) x) xss)"
  by (induction xss) auto

lemma count_addrs_Element:
  "count (mset (addrs (Element n s t as ch))) x =
     (if n = x then 1 else 0) + sum_list (map (\<lambda>c. count (mset (addrs c)) x) ch)"
  by (simp add: tree_simps count_concat comp_def)

lemma count_addrs_upd_addChild:
  "count (mset (addrs (upd a (addChild c) t))) x =
     count (mset (addrs t)) x + el_count a t * count (mset (addrs c)) x"
proof (induction t)
  case (Element n s t as ch)
  have sum: "sum_list (map (\<lambda>e. count (mset (addrs (upd a (addChild c) e))) x) ch) =
      sum_list (map (\<lambda>e. count (mset (addrs e)) x) ch) +
      sum_list (map (el_count a) ch) * count (mset (addrs c)) x"
    using Element by (induction ch) (auto simp: algebra_simps)
  have el: "count (mset (addrs (upd a (addChild c) (Element n s t as ch)))) x =
      (if n = x then 1 else 0) + sum_list (map (\<lambda>e. count (mset (addrs (upd a (addChild c) e))) x) ch)
      + (if n = a then count (mset (addrs c)) x else 0)"
    by (cases "n = a") (simp_all add: upd_simps count_addrs_Element comp_def)
  show ?case
    unfolding el sum by (simp add: count_addrs_Element el_count_simps algebra_simps)
qed (simp_all add: tree_simps)

text \<open>A change that adds at most the address \<open>n\<close> to the element it is applied to.\<close>

lemma count_addrs_upd_le:
  assumes "\<And>e. count (mset (addrs (f e))) x \<le> count (mset (addrs e)) x + (if x = n then 1 else 0)"
  shows "count (mset (addrs (upd a f t))) x \<le>
     count (mset (addrs t)) x + el_count a t * (if x = n then 1 else 0)"
proof (induction t)
  case (Element b s t as ch)
  let ?d = "if x = n then 1 else 0 :: nat"
  have sum: "sum_list (map (\<lambda>e. count (mset (addrs (upd a f e))) x) ch) \<le>
      sum_list (map (\<lambda>e. count (mset (addrs e)) x) ch) + sum_list (map (el_count a) ch) * ?d"
    using Element by (induction ch) (fastforce simp: algebra_simps)+
  let ?e = "Element b s t as (map (upd a f) ch)"
  have e: "count (mset (addrs ?e)) x =
      (if b = x then 1 else 0) + sum_list (map (\<lambda>e. count (mset (addrs (upd a f e))) x) ch)"
    by (simp add: count_addrs_Element comp_def)
  have "count (mset (addrs (upd a f (Element b s t as ch)))) x \<le>
      count (mset (addrs ?e)) x + (if b = a then ?d else 0)"
    using assms [of ?e] by (cases "b = a") (simp_all add: upd_simps)
  also have "\<dots> \<le> count (mset (addrs (Element b s t as ch))) x +
      el_count a (Element b s t as ch) * ?d"
    unfolding e using sum by (auto simp: count_addrs_Element el_count_simps)
  finally show ?case .
qed (simp_all add: tree_simps)

lemma el_count_le: "el_count a t \<le> count (mset (addrs t)) a"
proof (induction t)
  case (Element n s t as ch)
  then have "sum_list (map (el_count a) ch) \<le> sum_list (map (\<lambda>c. count (mset (addrs c)) a) ch)"
    by (intro sum_list_mono) auto
  then show ?case by (simp add: el_count_simps count_addrs_Element)
qed (simp_all add: tree_simps)

lemma set_addrs_addChild:
  "set (addrs (upd a (addChild c) root)) \<subseteq> set (addrs root) \<union> set (addrs c)"
proof
  fix x
  assume "x \<in> set (addrs (upd a (addChild c) root))"
  then have "0 < count (mset (addrs (upd a (addChild c) root))) x" by simp
  then show "x \<in> set (addrs root) \<union> set (addrs c)"
    by (simp add: count_addrs_upd_addChild) (metis count_eq_zero_iff gr0I mult_0_right set_mset_mset)
qed

lemma distinct_iff_count: "distinct xs \<longleftrightarrow> (\<forall>x. count (mset xs) x \<le> 1)"
proof
  assume le: "\<forall>x. count (mset xs) x \<le> 1"
  have "count (mset xs) a = (if a \<in> set xs then 1 else 0)" for a
  proof (cases "a \<in> set xs")
    case True
    then have "0 < count (mset xs) a" by simp
    moreover have "count (mset xs) a \<le> 1" using le by (rule spec)
    ultimately have "count (mset xs) a = 1" by linarith
    with True show ?thesis by simp
  qed (simp add: count_mset_0_iff)
  then show "distinct xs" by (simp add: distinct_count_atmost_1)
qed (auto simp: distinct_count_atmost_1)

lemma distinct_addrs_addChild:
  assumes "distinct (addrs root)" and "distinct (addrs c)" and "set (addrs root) \<inter> set (addrs c) = {}"
  shows "distinct (addrs (upd a (addChild c) root))"
proof -
  have le: "el_count a root \<le> 1"
    using el_count_le [of a root] assms(1) le_trans unfolding distinct_iff_count by blast
  have "count (mset (addrs (upd a (addChild c) root))) x \<le> 1" for x
  proof -
    have r: "count (mset (addrs root)) x \<le> 1" "count (mset (addrs c)) x \<le> 1"
      using assms(1,2) by (simp_all add: distinct_iff_count)
    have "count (mset (addrs root)) x = 0 \<or> count (mset (addrs c)) x = 0"
      using assms(3) by (auto simp: count_eq_zero_iff)
    moreover have "el_count a root * count (mset (addrs c)) x \<le> 1 * count (mset (addrs c)) x"
      using le by (rule mult_le_mono1)
    ultimately show ?thesis using r unfolding count_addrs_upd_addChild by linarith
  qed
  then show "distinct (addrs (upd a (addChild c) root))"
    by (simp add: distinct_iff_count)
qed

end
