(* ===== verification/EtreeRead.thy ===== *)
theory EtreeRead
  imports EtreeIO
begin

text \<open>
  What reading a document builds: every token has its own address, and reading the raw
  tokens a tree stands for builds that tree again.
\<close>

section \<open>A read document is well formed\<close>

definition fresh_tree :: "token \<Rightarrow> nat \<Rightarrow> bool" where
  "fresh_tree t n \<longleftrightarrow> is_element t \<and> distinct (addrs t) \<and> (\<forall>a \<in> set (addrs t). a < n)"

lemma add_attrs_keeps:
  "addr (add_attrs as e) = addr e \<and> is_element (add_attrs as e) = is_element e \<and>
   children (add_attrs as e) = children e \<and> addrs (add_attrs as e) = addrs e \<and>
   el_space (add_attrs as e) = el_space e \<and> el_tag (add_attrs as e) = el_tag e"
proof (induction as arbitrary: e)
  case (Cons a as)
  obtain s k v where a: "a = (s, k, v)" by (cases a)
  have "addr (createAttr s k v e) = addr e \<and> is_element (createAttr s k v e) = is_element e \<and>
    children (createAttr s k v e) = children e \<and> addrs (createAttr s k v e) = addrs e \<and>
    el_space (createAttr s k v e) = el_space e \<and> el_tag (createAttr s k v e) = el_tag e"
    by (cases e) (simp_all add: tree_simps)
  with Cons [of "createAttr s k v e"] a show ?case
    by (simp add: add_attrs_def)
qed (simp add: add_attrs_def)

lemmas add_attrs_simps [simp] =
  add_attrs_keeps [THEN conjunct1] add_attrs_keeps [THEN conjunct2, THEN conjunct1]
  add_attrs_keeps [THEN conjunct2, THEN conjunct2, THEN conjunct1]
  add_attrs_keeps [THEN conjunct2, THEN conjunct2, THEN conjunct2, THEN conjunct1]
  add_attrs_keeps [THEN conjunct2, THEN conjunct2, THEN conjunct2, THEN conjunct2, THEN conjunct1]
  add_attrs_keeps [THEN conjunct2, THEN conjunct2, THEN conjunct2, THEN conjunct2, THEN conjunct2]

lemma is_element_addChild [simp]: "is_element (addChild c e) = is_element e"
  by (cases e) auto

lemma is_element_upd_addChild [simp]: "is_element (upd a (addChild c) e) = is_element e"
  by (cases e) (auto simp: tree_simps)

lemma fresh_tree_addChild:
  assumes "fresh_tree root n" and "addrs c = [n]"
  shows "fresh_tree (upd a (addChild c) root) (Suc n)"
proof -
  have "distinct (addrs root)" "distinct (addrs c)" "set (addrs root) \<inter> set (addrs c) = {}"
    using assms by (auto simp: fresh_tree_def)
  from distinct_addrs_addChild [OF this, of a] set_addrs_addChild [of a c root] assms show ?thesis
    by (fastforce simp: fresh_tree_def)
qed

lemma read_loop_fresh:
  "fresh_tree root n \<Longrightarrow> read_loop rs stop root st n = (err, root', n') \<Longrightarrow> fresh_tree root' n'"
proof (induction rs stop root st n rule: read_loop.induct)
  case (2 r rs stop root st n)
  show ?case
  proof (cases "stack_empty st")
    case False
    note f = fresh_tree_addChild [OF 2(7), of _ "the (stack_peek st)"]
    show ?thesis
    proof (cases r)
      case (RawStart s t as)
      with 2(1) [OF False refl RawStart f] 2(8) False show ?thesis by (simp add: tree_simps)
    next
      case (RawEnd s t)
      with 2(2) [OF False refl RawEnd 2(7)] 2(8) False show ?thesis by simp
    next
      case (RawCharData d)
      with 2(3) [OF False refl RawCharData f] 2(8) False show ?thesis by (simp add: tree_simps)
    next
      case (RawComment d)
      with 2(4) [OF False refl RawComment f] 2(8) False show ?thesis by (simp add: tree_simps)
    next
      case (RawDirective d)
      with 2(5) [OF False refl RawDirective f] 2(8) False show ?thesis by (simp add: tree_simps)
    next
      case (RawProcInst t i)
      with 2(6) [OF False refl RawProcInst f] 2(8) False show ?thesis by (simp add: tree_simps)
    qed
  qed (use 2 in simp)
qed simp

lemma read_document_fresh:
  assumes "ReadFromString dec s (fst (NewDocument n)) (snd (NewDocument n)) = (err, d, n')"
  shows "fresh_tree (d_element d) n'" and "d_settings d = newWriteSettings"
proof -
  have "fresh_tree (Element n '''' '''' [] []) (Suc n)" by (simp add: fresh_tree_def tree_simps)
  with assms show "fresh_tree (d_element d) n'"
    by (auto simp: ReadFromString_def readFrom_def NewDocument_def split: prod.splits
        intro: read_loop_fresh)
  show "d_settings d = newWriteSettings"
    using assms by (auto simp: ReadFromString_def NewDocument_def split: prod.splits)
qed

section \<open>The raw tokens of a tree\<close>

text \<open>
  The raw tokens a token stands for, and the trees that reading can give: attributes with
  different names, whitespace flags as \<open>isWhitespace\<close> sets them, and no \<open>CData\<close> (the decoder
  delivers those as character data).
\<close>

definition attr_triple :: "attr \<Rightarrow> string \<times> string \<times> string" where
  "attr_triple a = (a_space a, a_key a, a_value a)"

fun events :: "token \<Rightarrow> raw_token list" where
  "events (Element n s t as ch) =
     RawStart s t (map attr_triple as) # concat (map events ch) @ [RawEnd s t]"
| "events (CharData n d w) = [RawCharData d]"
| "events (Comment n d) = [RawComment d]"
| "events (Directive n d) = [RawDirective d]"
| "events (ProcInst n t i) = [RawProcInst t i]"
| "events (CData n d) = [RawCharData d]"

fun readable :: "token \<Rightarrow> bool" where
  "readable (Element n s t as ch) \<longleftrightarrow>
     distinct (map (\<lambda>a. (a_space a, a_key a)) as) \<and> list_all readable ch"
| "readable (CharData n d w) \<longleftrightarrow> w = isWhitespace d"
| "readable (CData n d) \<longleftrightarrow> False"
| "readable _ \<longleftrightarrow> True"

lemma set_attr_new:
  "(space, key) \<notin> (\<lambda>a. (a_space a, a_key a)) ` set as \<Longrightarrow>
   set_attr space key v as = as @ [\<lparr>a_space = space, a_key = key, a_value = v\<rparr>]"
  by (induction as) auto

lemma add_attrs_distinct:
  assumes "distinct (map (\<lambda>a. (a_space a, a_key a)) (bs @ as))"
  shows "add_attrs (map attr_triple as) (Element n s t bs ch) = Element n s t (bs @ as) ch"
  using assms
proof (induction as arbitrary: bs)
  case (Cons a as)
  have "set_attr (a_space a) (a_key a) (a_value a) bs = bs @ [a]"
    using Cons.prems by (subst set_attr_new) auto
  then have "add_attrs (map attr_triple (a # as)) (Element n s t bs ch) =
      add_attrs (map attr_triple as) (Element n s t (bs @ [a]) ch)"
    by (simp add: add_attrs_def attr_triple_def)
  also have "\<dots> = Element n s t ((bs @ [a]) @ as) ch"
    using Cons.prems by (intro Cons.IH) simp
  finally show ?case by simp
qed (simp add: add_attrs_def)

text \<open>Adding several children at once, and changing a child that was just added.\<close>

fun addChildren :: "token list \<Rightarrow> token \<Rightarrow> token" where
  "addChildren cs (Element n s t as ch) = Element n s t as (ch @ cs)"
| "addChildren cs x = x"

lemma addr_addChildren [simp]: "addr (addChildren cs e) = addr e"
  by (cases e) auto

lemma addr_addChild [simp]: "addr (addChild c e) = addr e"
  by (cases e) auto

lemma upd_comp:
  assumes "a \<notin> set (addrs root)"
    and f: "\<And>e. is_element e \<Longrightarrow> addr e = b \<Longrightarrow> upd a g (f e) = f' (upd a g e)"
  shows "upd a g (upd b f root) = upd b f' root"
  using assms(1)
proof (induction root)
  case (Element n s t as ch)
  let ?e = "Element n s t as (map (upd b f) ch)"
  have "map (\<lambda>c. upd a g (upd b f c)) ch = map (upd b f') ch"
    using Element by (auto simp: tree_simps)
  then have e: "upd a g ?e = Element n s t as (map (upd b f') ch)"
    using Element.prems by (simp add: upd_simps tree_simps comp_def)
  show ?case
  proof (cases "n = b")
    case True
    then have "upd a g (f ?e) = f' (upd a g ?e)" by (intro f) simp_all
    with True e show ?thesis by (simp add: upd_simps)
  next
    case False
    with e show ?thesis by (simp add: upd_simps(1))
  qed
qed (auto simp: tree_simps)

lemma upd_addChild_then_addChildren:
  assumes "a \<notin> set (addrs root)" and "a \<noteq> b"
  shows "upd a (addChildren cs) (upd b (addChild (Element a s t as [])) root) =
    upd b (addChild (Element a s t as cs)) root"
proof (rule upd_comp [OF assms(1)])
  fix e :: token
  assume "is_element e" and "addr e = b"
  then show "upd a (addChildren cs) (addChild (Element a s t as []) e) =
      addChild (Element a s t as cs) (upd a (addChildren cs) e)"
    using assms(2) by (cases e) (auto simp: tree_simps)
qed

lemma upd_addChild_again:
  assumes "a \<notin> set (addrs c)"
  shows "upd a (addChildren cs) (upd a (addChild c) root) = upd a (addChildren (c # cs)) root"
proof (induction root)
  case (Element n s t as ch)
  have "map (\<lambda>x. upd a (addChildren cs) (upd a (addChild c) x)) ch =
      map (upd a (addChildren (c # cs))) ch"
    using Element by auto
  then show ?case using assms by (auto simp: upd_simps upd_fresh comp_def)
qed (auto simp: tree_simps)

lemma upd_addChildren_Nil [simp]: "upd a (addChildren []) root = root"
  by (induction root) (auto simp: tree_simps map_idI)

text \<open>
  A token reads back when, wherever its raw tokens come next, reading them adds a copy of it
  (up to addresses) to the element on top of the stack, and leaves the stack as it was.
\<close>

definition reads_back :: "token \<Rightarrow> bool" where
  "reads_back t \<longleftrightarrow>
     (\<forall>root st n rs stop tp. stack_peek st = Some tp \<longrightarrow> tp < n \<longrightarrow>
        (\<forall>a \<in> set (addrs root). a < n) \<longrightarrow>
        (\<exists>t' n'. n \<le> n' \<and> erase t' = erase t \<and> (\<forall>a \<in> set (addrs t'). n \<le> a \<and> a < n') \<and>
           read_loop (events t @ rs) stop root st n =
           read_loop rs stop (upd tp (addChild t') root) st n'))"

lemma reads_back_list:
  assumes "\<forall>t \<in> set ts. reads_back t" and "stack_peek st = Some tp" and "tp < n"
    and "\<forall>a \<in> set (addrs root). a < n"
  shows "\<exists>ts' n'. n \<le> n' \<and> map erase ts' = map erase ts \<and>
    (\<forall>t' \<in> set ts'. \<forall>a \<in> set (addrs t'). n \<le> a \<and> a < n') \<and>
    read_loop (concat (map events ts) @ rs) stop root st n =
    read_loop rs stop (upd tp (addChildren ts') root) st n'"
  using assms
proof (induction ts arbitrary: root n)
  case (Cons t ts)
  obtain t' n1 where t': "n \<le> n1" "erase t' = erase t" "\<forall>a \<in> set (addrs t'). n \<le> a \<and> a < n1"
    "read_loop (events t @ (concat (map events ts) @ rs)) stop root st n =
     read_loop (concat (map events ts) @ rs) stop (upd tp (addChild t') root) st n1"
    using Cons.prems unfolding reads_back_def by (metis list.set_intros(1))
  have "\<forall>a \<in> set (addrs (upd tp (addChild t') root)). a < n1"
    using set_addrs_addChild [of tp t' root] t'(1,3) Cons.prems(4) by fastforce
  moreover have "tp < n1" using Cons.prems(3) t'(1) by simp
  ultimately obtain ts' n2 where ts': "n1 \<le> n2" "map erase ts' = map erase ts"
    "\<forall>t' \<in> set ts'. \<forall>a \<in> set (addrs t'). n1 \<le> a \<and> a < n2"
    "read_loop (concat (map events ts) @ rs) stop (upd tp (addChild t') root) st n1 =
     read_loop rs stop (upd tp (addChildren ts') (upd tp (addChild t') root)) st n2"
    using Cons.IH [of n1 "upd tp (addChild t') root"] Cons.prems(1,2) by auto
  have "tp \<notin> set (addrs t')" using t'(3) Cons.prems(3) by auto
  then have "read_loop (concat (map events (t # ts)) @ rs) stop root st n =
      read_loop rs stop (upd tp (addChildren (t' # ts')) root) st n2"
    using t'(4) ts'(4) upd_addChild_again by simp
  moreover have "n \<le> n2" "map erase (t' # ts') = map erase (t # ts)"
    "\<forall>x \<in> set (t' # ts'). \<forall>a \<in> set (addrs x). n \<le> a \<and> a < n2"
    using t' ts' by fastforce+
  ultimately show ?case by blast
qed auto

lemma readable_reads_back: "readable t \<Longrightarrow> reads_back t"
proof (induction t)
  case (Element n0 s t as ch)
  show ?case unfolding reads_back_def
  proof (intro allI impI)
    fix root st n rs stop tp
    assume tp: "stack_peek st = Some tp" "tp < n" and lt: "\<forall>a \<in> set (addrs root). a < n"
    define root1 where "root1 = upd tp (addChild (Element n s t as [])) root"
    have "\<forall>a \<in> set (addrs root1). a < Suc n"
      using set_addrs_addChild [of tp "Element n s t as []" root] lt
      by (fastforce simp: root1_def tree_simps)
    moreover have "\<forall>c \<in> set ch. reads_back c" using Element by (auto simp: list_all_iff)
    ultimately obtain ch' n2 where ch': "Suc n \<le> n2" "map erase ch' = map erase ch"
      "\<forall>c \<in> set ch'. \<forall>a \<in> set (addrs c). Suc n \<le> a \<and> a < n2"
      "read_loop (concat (map events ch) @ RawEnd s t # rs) stop root1 (stack_push n st) (Suc n) =
       read_loop (RawEnd s t # rs) stop (upd n (addChildren ch') root1) (stack_push n st) n2"
      using reads_back_list [of ch "stack_push n st" n "Suc n" root1 "RawEnd s t # rs" stop]
      by (auto simp: stack_peek_push)
    have ne: "\<not> stack_empty st" using tp(1) by (auto simp: stack_empty_iff stack_peek_def)
    have attrs: "add_attrs (map attr_triple as) (Element n s t [] []) = Element n s t as []"
      using add_attrs_distinct [of "[]" as] Element.prems by simp
    have root2: "upd n (addChildren ch') root1 = upd tp (addChild (Element n s t as ch')) root"
      unfolding root1_def using lt tp(2) by (intro upd_addChild_then_addChildren) auto
    have "read_loop (events (Element n0 s t as ch) @ rs) stop root st n =
        read_loop (RawEnd s t # rs) stop (upd n (addChildren ch') root1) (stack_push n st) n2"
      using ne tp(1) attrs ch'(4) by (simp add: root1_def)
    also have "\<dots> = read_loop rs stop (upd tp (addChild (Element n s t as ch')) root) st n2"
      by (simp add: root2 stack_pop_push stack_empty_iff stack_push_def)
         (simp add: stack_pop_push [unfolded stack_push_def])
    finally show "\<exists>t' n'. n \<le> n' \<and> erase t' = erase (Element n0 s t as ch) \<and>
        (\<forall>a \<in> set (addrs t'). n \<le> a \<and> a < n') \<and>
        read_loop (events (Element n0 s t as ch) @ rs) stop root st n =
        read_loop rs stop (upd tp (addChild t') root) st n'"
      using ch' by (intro exI [of _ "Element n s t as ch'"] exI [of _ n2])
        (fastforce simp: tree_simps)
  qed
next
  case (CharData n0 d w)
  then show ?case unfolding reads_back_def
    by (auto simp: stack_empty_iff stack_peek_def tree_simps
        intro!: exI [of _ "Suc _"] exI [of _ "CharData _ d w"])
next
  case (Comment n0 d)
  then show ?case unfolding reads_back_def
    by (auto simp: stack_empty_iff stack_peek_def tree_simps
        intro!: exI [of _ "Suc _"] exI [of _ "Comment _ d"])
next
  case (Directive n0 d)
  then show ?case unfolding reads_back_def
    by (auto simp: stack_empty_iff stack_peek_def tree_simps
        intro!: exI [of _ "Suc _"] exI [of _ "Directive _ d"])
next
  case (ProcInst n0 x i)
  then show ?case unfolding reads_back_def
    by (auto simp: stack_empty_iff stack_peek_def tree_simps
        intro!: exI [of _ "Suc _"] exI [of _ "ProcInst _ x i"])
qed simp

theorem read_events:
  assumes "list_all readable ts" and "n0 < n"
  shows "\<exists>ts' n'. readFrom (concat (map events ts), None) (Element n0 sp tag as []) n =
      (None, Element n0 sp tag as ts', n') \<and> map erase ts' = map erase ts"
proof -
  have "\<forall>t \<in> set ts. reads_back t" using assms(1) by (auto simp: list_all_iff readable_reads_back)
  from reads_back_list [OF this stack_peek_push [of n0 stack_new] assms(2),
      of "Element n0 sp tag as []" "[]" None]
  obtain ts' n' where "map erase ts' = map erase ts"
    "read_loop (concat (map events ts)) None (Element n0 sp tag as []) (stack_push n0 stack_new) n =
     (None, upd n0 (addChildren ts') (Element n0 sp tag as []), n')"
    using assms(2) by (auto simp: tree_simps)
  then show ?thesis by (auto simp: readFrom_def tree_simps)
qed

section \<open>The root of a read document\<close>

lemma el_tag_addChild [simp]: "el_tag (addChild c e) = el_tag e"
  by (cases e) auto

lemma el_tag_upd_addChild [simp]: "el_tag (upd a (addChild c) e) = el_tag e"
  by (cases e) (auto simp: tree_simps)

lemma read_loop_el_tag: "el_tag (fst (snd (read_loop rs stop root st n))) = el_tag root"
  by (induction rs stop root st n rule: read_loop.induct) (auto simp: Let_def split: raw_token.splits)

lemma read_document_el_tag:
  "ReadFromString dec s (fst (NewDocument n)) (snd (NewDocument n)) = (err, d, n') \<Longrightarrow>
   el_tag (d_element d) = ''''"
  using read_loop_el_tag [of "fst (dec s)" "snd (dec s)" "Element n '''' '''' [] []"
      "stack_push n stack_new" "Suc n"]
  by (auto simp: ReadFromString_def readFrom_def NewDocument_def split: prod.splits)

end
