(* ===== verification/EtreePath.thy ===== *)
theory EtreePath
  imports EtreeRead
begin

text \<open>
  Paths of package \<open>etree\<close> (\<open>etree/path.go\<close>): the compiler from a path string to groups of
  segments, the selectors and filters, and the traversal that works off a queue of nodes.
  Elements are values of the tree here, because a traversal changes nothing; the address
  of an element is what the result set is keyed by. The root of the tree is passed along
  for the selector of the parent.
\<close>

section \<open>Paths\<close>

datatype selector =
    SelectSelf
  | SelectParent
  | SelectChildren
  | SelectDescendants
  | SelectChildrenByTag string string

datatype path_filter =
    FilterPos int
  | FilterAttr string string
  | FilterAttrVal string string string
  | FilterChild string string
  | FilterChildText string string string

record segment =
  sel :: selector
  filters :: "path_filter list"

type_synonym group = "segment list"
type_synonym path = "group list"

section \<open>The compiler\<close>

text \<open>
  The compiler keeps its last error in \<open>c.err\<close>, which every parse function may set; a filter
  that could not be parsed is \<open>nil\<close> (here \<open>None\<close>) and goes with an error.
\<close>

definition parseSelector :: "string \<Rightarrow> selector" where
  "parseSelector p =
     (if p = ''.'' then SelectSelf
      else if p = ''..'' then SelectParent
      else if p = ''*'' then SelectChildren
      else if p = '''' then SelectDescendants
      else (let (s, l) = spaceDecompose p in SelectChildrenByTag s l))"

definition parseFilter :: "string \<Rightarrow> goerror option \<Rightarrow> path_filter option \<times> goerror option" where
  "parseFilter p err =
     (if length p = 0 then (None, Some (ErrPath ''path contains an empty filter expression.''))
      else
        case str_index p [CHR ''='', CHR 0x27] of
          Some eqindex \<Rightarrow>
            (let rindex = nextIndex p [CHR 0x27] (eqindex + 2)
             in if rindex \<noteq> Some (length p - 1)
                then (None, Some (ErrPath ''path has mismatched filter quotes.''))
                else
                  let val = take (length p - 1 - (eqindex + 2)) (drop (eqindex + 2) p)
                  in if p ! 0 = CHR ''@''
                     then (let (s, l) = spaceDecompose (take (eqindex - 1) (drop 1 p))
                           in (Some (FilterAttrVal s l val), err))
                     else (let (s, l) = spaceDecompose (take eqindex p)
                           in (Some (FilterChildText s l val), err)))
        | None \<Rightarrow>
            if p ! 0 = CHR ''@'' then
              (let (s, l) = spaceDecompose (drop 1 p) in (Some (FilterAttr s l), err))
            else if isInteger p then
              (let pos = atoi p
               in (Some (FilterPos (if pos > 0 then pos - 1 else pos)), err))
            else
              (let (s, l) = spaceDecompose p in (Some (FilterChild s l), err)))"

text \<open>
  The loop over the pieces after the first \<open>[\<close> of a segment. An empty piece (a path such as
  \<open>a[\<close>) indexes an empty string and panics: \<open>None\<close>.
\<close>

fun parse_pieces ::
  "string list \<Rightarrow> path_filter list \<Rightarrow> goerror option \<Rightarrow> (path_filter list \<times> goerror option) option" where
  "parse_pieces [] fs err = Some (fs, err)"
| "parse_pieces (fpath # rest) fs err =
     (if fpath = [] then None
      else if last fpath \<noteq> CHR '']'' then
        Some (fs, Some (ErrPath ''path has invalid filter [brackets].''))
      else
        case parseFilter (butlast fpath) err of
          (Some f, err') \<Rightarrow> parse_pieces rest (fs @ [f]) err'
        | (None, err') \<Rightarrow> parse_pieces rest fs err')"

definition parseSegment :: "string \<Rightarrow> goerror option \<Rightarrow> (segment \<times> goerror option) option" where
  "parseSegment p err =
     (let pieces = split_char CHR ''['' p
      in map_option (\<lambda>(fs, err'). (\<lparr>sel = parseSelector (hd pieces), filters = fs\<rparr>, err'))
           (parse_pieces (tl pieces) [] err))"

fun parse_segments ::
  "string list \<Rightarrow> segment list \<Rightarrow> goerror option \<Rightarrow> (segment list \<times> goerror option) option" where
  "parse_segments [] segs err = Some (segs, err)"
| "parse_segments (s # rest) segs err =
     Option.bind (parseSegment s err) (\<lambda>(seg, err').
       if err' \<noteq> None then Some (segs @ [seg], err')
       else parse_segments rest (segs @ [seg]) err')"

definition parseGroup :: "string \<Rightarrow> goerror option \<Rightarrow> (group \<times> goerror option) option" where
  "parseGroup path0 err =
     (let path1 = (if has_prefix path0 ''//'' then ''.'' @ path0 else path0);
          p = (if has_suffix path1 ''//'' then path1 @ ''*'' else path1)
      in if has_prefix p ''/'' then Some ([], Some (ErrPath ''paths cannot be absolute.''))
         else parse_segments (split_char CHR ''/'' p) [] err)"

fun parse_groups ::
  "string list \<Rightarrow> group list \<Rightarrow> goerror option \<Rightarrow> (group list \<times> goerror option) option" where
  "parse_groups [] gs err = Some (gs, err)"
| "parse_groups (g # rest) gs err =
     Option.bind (parseGroup g err) (\<lambda>(grp, err').
       if err' \<noteq> None then Some (gs @ [grp], err')
       else parse_groups rest (gs @ [grp]) err')"

text \<open>\<open>CompilePath\<close>: the path or an error, \<open>None\<close> when the compiler panics.\<close>

definition CompilePath :: "string \<Rightarrow> (path res) option" where
  "CompilePath p =
     map_option (\<lambda>(gs, err). case err of Some e \<Rightarrow> Inl e | None \<Rightarrow> Inr gs)
       (parse_groups (split_char CHR ''|'' p) [] None)"

definition MustCompilePath :: "string \<Rightarrow> path option" where
  "MustCompilePath p = Option.bind (CompilePath p) (\<lambda>r. case r of Inl e \<Rightarrow> None | Inr gs \<Rightarrow> Some gs)"

section \<open>Selectors and filters\<close>

text \<open>The element whose children hold the one with the given address.\<close>

definition parent_of :: "token \<Rightarrow> token \<Rightarrow> token option" where
  "parent_of root e = find (\<lambda>p. addr e \<in> addr ` set (ChildElements p)) (subtokens root)"

text \<open>
  The breadth-first loop of \<open>selectDescendants\<close> over its own queue. The candidates grow by
  the element taken from the queue before its child elements are added.
\<close>

definition descend_step :: "token \<Rightarrow> token list \<Rightarrow> (token list \<times> token list) option" where
  "descend_step e cands = Some (cands @ [e], ChildElements e)"

partial_function (option) descend_loop ::
  "token list \<Rightarrow> token fifo \<Rightarrow> (token list \<times> token fifo) option" where
  "descend_loop cands q =
     (if fifo_len q = 0 then Some (cands, q)
      else Option.bind (fifo_remove q) (\<lambda>(v, q1). case v of None \<Rightarrow> None | Some e \<Rightarrow>
           Option.bind (descend_step e cands) (\<lambda>(cands', new).
           Option.bind (fold_opt fifo_add new q1) (descend_loop cands'))))"

definition select_apply :: "token \<Rightarrow> selector \<Rightarrow> token \<Rightarrow> token list \<Rightarrow> token list option" where
  "select_apply root s e cands =
     (case s of
        SelectSelf \<Rightarrow> Some (cands @ [e])
      | SelectParent \<Rightarrow>
          Some (case parent_of root e of Some p \<Rightarrow> cands @ [p] | None \<Rightarrow> cands)
      | SelectChildren \<Rightarrow> Some (cands @ ChildElements e)
      | SelectDescendants \<Rightarrow>
          Option.bind (fifo_add e fifo_new) (\<lambda>q. map_option fst (descend_loop cands q))
      | SelectChildrenByTag sp tag \<Rightarrow> Some (cands @ filter (tag_match sp tag) (children e)))"

definition has_attr :: "string \<Rightarrow> string \<Rightarrow> token \<Rightarrow> bool" where
  "has_attr sp key c = list_ex (\<lambda>a. spaceMatch sp (a_space a) \<and> key = a_key a) (attrs c)"

definition has_attr_val :: "string \<Rightarrow> string \<Rightarrow> string \<Rightarrow> token \<Rightarrow> bool" where
  "has_attr_val sp key val c =
     list_ex (\<lambda>a. spaceMatch sp (a_space a) \<and> key = a_key a \<and> val = a_value a) (attrs c)"

text \<open>
  The filters. \<open>filterPos\<close> negates its index as a 64-bit number (\<open>neg64\<close>) and panics when the
  index it then computes is negative. The two attribute filters stop at the first match;
  the two child filters have no \<open>break\<close> and keep a candidate once per matching child.
\<close>

definition neg64 :: "int \<Rightarrow> int" where
  "neg64 i = (if i = - (2 ^ 63) then i else - i)"

definition filter_apply :: "path_filter \<Rightarrow> token list \<Rightarrow> token list option" where
  "filter_apply f cands =
     (case f of
        FilterPos index \<Rightarrow>
          if index \<ge> 0 then
            (if index < int (length cands) then Some [cands ! nat index] else Some [])
          else if neg64 index \<le> int (length cands) then
            (if int (length cands) + index \<ge> 0
             then Some [cands ! nat (int (length cands) + index)] else None)
          else Some []
      | FilterAttr sp key \<Rightarrow> Some (filter (has_attr sp key) cands)
      | FilterAttrVal sp key val \<Rightarrow> Some (filter (has_attr_val sp key val) cands)
      | FilterChild sp tag \<Rightarrow>
          Some (concat (map (\<lambda>c. map (\<lambda>_. c) (filter (tag_match sp tag) (children c))) cands))
      | FilterChildText sp tag text \<Rightarrow>
          Some (concat (map (\<lambda>c. map (\<lambda>_. c)
            (filter (\<lambda>cc. tag_match sp tag cc \<and> text = Text cc) (children c))) cands)))"

definition segment_apply :: "token \<Rightarrow> segment \<Rightarrow> token \<Rightarrow> token list option" where
  "segment_apply root seg e =
     Option.bind (select_apply root (sel seg) e []) (\<lambda>cands. fold_opt filter_apply (filters seg) cands)"

section \<open>The traversal\<close>

text \<open>
  A node is an element and the segments left for it. The pather keeps the results and the
  set \<open>inResults\<close> of their addresses; its candidates are reset for each node.
\<close>

type_synonym node = "token \<times> segment list"

record pather =
  results :: "token list"
  inResults :: "nat list"

definition newPather :: pather where
  "newPather = \<lparr>results = [], inResults = []\<rparr>"

definition add_result :: "token \<Rightarrow> pather \<Rightarrow> pather" where
  "add_result c p =
     (if addr c \<in> set (inResults p) then p
      else p\<lparr>inResults := addr c # inResults p, results := results p @ [c]\<rparr>)"

text \<open>\<open>eval\<close>: the new state and the nodes to add; \<open>n.segments[0]\<close> panics without segments.\<close>

fun eval :: "token \<Rightarrow> node \<Rightarrow> pather \<Rightarrow> (pather \<times> node list) option" where
  "eval root (e, []) p = None"
| "eval root (e, seg # remain) p =
     Option.bind (segment_apply root seg e) (\<lambda>cands.
       if length remain = 0 then Some (fold add_result cands p, [])
       else Some (p, map (\<lambda>c. (c, remain)) cands))"

partial_function (option) traverse_loop ::
  "token \<Rightarrow> pather \<Rightarrow> node fifo \<Rightarrow> (pather \<times> node fifo) option" where
  "traverse_loop root p q =
     (if fifo_len q = 0 then Some (p, q)
      else Option.bind (fifo_remove q) (\<lambda>(v, q1). case v of None \<Rightarrow> None | Some n \<Rightarrow>
           Option.bind (eval root n p) (\<lambda>(p', new).
           Option.bind (fold_opt fifo_add new q1) (traverse_loop root p'))))"

text \<open>One queue serves all groups: it is empty again when a group is done.\<close>

fun traverse_groups ::
  "token \<Rightarrow> token \<Rightarrow> group list \<Rightarrow> pather \<Rightarrow> node fifo \<Rightarrow> token list option" where
  "traverse_groups root e [] p q = Some (results p)"
| "traverse_groups root e (g # gs) p q =
     Option.bind (fifo_add (e, g) q) (\<lambda>q1.
     Option.bind (traverse_loop root p q1) (\<lambda>(p', q').
       traverse_groups root e gs p' q'))"

definition FindElementsPath :: "token \<Rightarrow> token \<Rightarrow> path \<Rightarrow> token list option" where
  "FindElementsPath root e path = traverse_groups root e path newPather fifo_new"

definition FindElementPath :: "token \<Rightarrow> token \<Rightarrow> path \<Rightarrow> token option option" where
  "FindElementPath root e path =
     map_option (\<lambda>els. if length els > 0 then Some (els ! 0) else None)
       (FindElementsPath root e path)"

definition FindElements :: "token \<Rightarrow> token \<Rightarrow> string \<Rightarrow> token list option" where
  "FindElements root e p = Option.bind (MustCompilePath p) (FindElementsPath root e)"

definition FindElement :: "token \<Rightarrow> token \<Rightarrow> string \<Rightarrow> token option option" where
  "FindElement root e p = Option.bind (MustCompilePath p) (FindElementPath root e)"

interpretation descend: worklist fifo_new fifo_add fifo_remove fifo_len fifo_list fifo_inv
  descend_step descend_loop
  by unfold_locales (rule descend_loop.simps)

interpretation traverse: worklist fifo_new fifo_add fifo_remove fifo_len fifo_list fifo_inv
  "eval root" "traverse_loop root" for root
  by unfold_locales (rule traverse_loop.simps)

end
