(* ===== verification/EtreeFind.thy ===== *)
theory EtreeFind
  imports EtreePath
begin

text \<open>
  What a path query returns. The queue of nodes computes the levels of the path one after
  the other (\<open>levels\<close>), the results are their elements without repetitions, and the query
  \<open>//name\<close> finds exactly the matching elements below the start, each once.
\<close>

section \<open>Descendants in breadth-first order\<close>

definition elements :: "token \<Rightarrow> token list" where
  "elements t = filter is_element (subtokens t)"

lemma elements_simps [tree_simps]:
  "elements (Element n s t as ch) = Element n s t as ch # concat (map elements ch)"
  "\<not> is_element x \<Longrightarrow> elements x = []"
  by (auto simp: elements_def [abs_def] filter_concat comp_def) (cases x; simp)+

lemma elements_ChildElements:
  "concat (map elements (ChildElements e)) = concat (map elements (children e))"
proof -
  have "concat (map elements (filter is_element cs)) = concat (map elements cs)" for cs
    by (induction cs) (auto simp: elements_simps)
  then show ?thesis by (simp add: ChildElements_def)
qed

lemma elements_element:
  "is_element e \<Longrightarrow> elements e = e # concat (map elements (ChildElements e))"
  by (cases e) (auto simp: elements_ChildElements elements_simps)

lemma is_element_ChildElements: "c \<in> set (ChildElements e) \<Longrightarrow> is_element c"
  by (auto simp: ChildElements_def)

function bfs :: "token list \<Rightarrow> token list" where
  "bfs [] = []"
| "bfs (e # es) = e # bfs (es @ ChildElements e)"
  by pat_completeness auto
termination
proof (relation "measure (\<lambda>es. sum_list (map (\<lambda>e. length (subtokens e)) es))")
  fix e :: token and es
  have "sum_list (map (\<lambda>e. length (subtokens e)) (ChildElements e)) < length (subtokens e)"
  proof (cases e)
    case (Element n s t as ch)
    have "sum_list (map (\<lambda>e. length (subtokens e)) (filter is_element ch)) \<le>
        sum_list (map (\<lambda>e. length (subtokens e)) ch)"
      by (induction ch) auto
    with Element show ?thesis by (simp add: ChildElements_def length_concat comp_def)
  qed (auto simp: ChildElements_def)
  then show "(es @ ChildElements e, e # es) \<in>
      measure (\<lambda>es. sum_list (map (\<lambda>e. length (subtokens e)) es))"
    by simp
qed simp

lemma mset_bfs:
  "\<forall>e \<in> set es. is_element e \<Longrightarrow> mset (bfs es) = mset (concat (map elements es))"
proof (induction es rule: bfs.induct)
  case (2 e es)
  have "\<forall>x \<in> set (es @ ChildElements e). is_element x"
    using 2(2) by (auto simp: is_element_ChildElements)
  from 2(1) [OF this]
  have "mset (bfs (es @ ChildElements e)) = mset (concat (map elements (es @ ChildElements e)))" .
  with 2 show ?case by (simp add: elements_element)
qed simp

lemma descend_works_off: "works_off descend_step cands es (cands @ bfs es)"
proof (induction es arbitrary: cands rule: bfs.induct)
  case (2 e es)
  from 2 [of "cands @ [e]"] show ?case
    by (auto intro!: works_off.item simp: descend_step_def)
qed (simp add: works_off.finished)

lemma select_descendants:
  "select_apply root SelectDescendants e cands = Some (cands @ bfs [e])"
proof -
  from fifo.add_law [OF fifo_inv_new, of e] obtain q
    where q: "fifo_add e fifo_new = Some q" "fifo_inv q" "fifo_list q = [e]" by auto
  from descend.loop_works_off [OF descend_works_off q(2,3), of cands]
  show ?thesis using q(1) by (auto simp: select_apply_def)
qed

section \<open>A path, level by level\<close>

text \<open>All elements selected by a segment from the elements of a level, and by a whole group.\<close>

definition apply_all :: "token \<Rightarrow> segment \<Rightarrow> token list \<Rightarrow> token list option" where
  "apply_all root s cs = map_option concat (map_opt (segment_apply root s) cs)"

fun levels :: "token \<Rightarrow> segment list \<Rightarrow> token list \<Rightarrow> token list option" where
  "levels root [] cs = Some cs"
| "levels root (s # ss) cs = Option.bind (apply_all root s cs) (levels root ss)"

lemma apply_all_Cons:
  "apply_all root s (c # cs) = Some new \<Longrightarrow>
   \<exists>a b. segment_apply root s c = Some a \<and> apply_all root s cs = Some b \<and> new = a @ b"
  by (auto simp: apply_all_def elim!: bind_eq_SomeE)

lemma works_off_level:
  assumes "apply_all root s es = Some new" and "ss \<noteq> []"
    and "works_off (eval root) p (map (\<lambda>c. (c, ss)) (done @ new)) t"
  shows "works_off (eval root) p (map (\<lambda>e. (e, s # ss)) es @ map (\<lambda>c. (c, ss)) done) t"
  using assms(1,3)
proof (induction es arbitrary: "done" new)
  case Nil
  then show ?case by (simp add: apply_all_def)
next
  case (Cons e es)
  from apply_all_Cons [OF Cons.prems(1)] obtain a b
    where ab: "segment_apply root s e = Some a" "apply_all root s es = Some b" "new = a @ b"
    by blast
  have "works_off (eval root) p (map (\<lambda>e. (e, s # ss)) es @ map (\<lambda>c. (c, ss)) (done @ a)) t"
    using Cons.IH [of b "done @ a"] Cons.prems(2) ab by simp
  moreover have "eval root (e, s # ss) p = Some (p, map (\<lambda>c. (c, ss)) a)"
    using ab(1) assms(2) by simp
  ultimately show ?case by (auto intro: works_off.item)
qed

lemma works_off_last:
  "apply_all root s es = Some new \<Longrightarrow>
   works_off (eval root) p (map (\<lambda>e. (e, [s])) es) (fold add_result new p)"
proof (induction es arbitrary: p new)
  case Nil
  then show ?case by (simp add: apply_all_def)
next
  case (Cons e es)
  from apply_all_Cons [OF Cons.prems] obtain a b
    where "segment_apply root s e = Some a" "apply_all root s es = Some b" "new = a @ b" by blast
  with Cons.IH [of b "fold add_result a p"] show ?case by (auto intro!: works_off.item)
qed

lemma works_off_levels:
  "levels root segs es = Some cs \<Longrightarrow> segs \<noteq> [] \<Longrightarrow>
   works_off (eval root) p (map (\<lambda>e. (e, segs)) es) (fold add_result cs p)"
proof (induction segs arbitrary: es)
  case (Cons s ss)
  from Cons.prems obtain new
    where new: "apply_all root s es = Some new" "levels root ss new = Some cs"
    by (auto elim: bind_eq_SomeE)
  show ?case
  proof (cases "ss = []")
    case True
    with new works_off_last [OF new(1)] show ?thesis by simp
  next
    case False
    from works_off_level [OF new(1) False, of p "[]"] Cons.IH [OF new(2) False]
    show ?thesis by simp
  qed
qed simp

lemma fold_add_result:
  "set (inResults p) = addr ` set (results p) \<Longrightarrow>
   results (fold add_result cs p) = results p @ nub_by addr (inResults p) cs \<and>
   set (inResults (fold add_result cs p)) = addr ` set (results (fold add_result cs p))"
proof (induction cs arbitrary: p)
  case (Cons c cs)
  show ?case
  proof (cases "addr c \<in> set (inResults p)")
    case True
    with Cons show ?thesis by (simp add: add_result_def)
  next
    case False
    have "set (inResults (add_result c p)) = addr ` set (results (add_result c p))"
      using Cons.prems False by (simp add: add_result_def)
    from Cons.IH [OF this] False show ?thesis by (simp add: add_result_def)
  qed
qed simp

lemma traverse_groups_spec:
  assumes "map_opt (\<lambda>g. levels root g [e]) gs = Some css" and "\<forall>g \<in> set gs. g \<noteq> []"
    and "set (inResults p) = addr ` set (results p)" and "fifo_inv q" and "fifo_list q = []"
  shows "traverse_groups root e gs p q = Some (results p @ nub_by addr (inResults p) (concat css))"
  using assms
proof (induction gs arbitrary: css p q)
  case (Cons g gs)
  from Cons.prems(1) obtain cs css' where cs: "levels root g [e] = Some cs"
    and css': "map_opt (\<lambda>g. levels root g [e]) gs = Some css'" and css: "css = cs # css'"
    by (auto elim!: bind_eq_SomeE)
  from fifo.add_law [OF Cons.prems(4), of "(e, g)"] obtain q1
    where q1: "fifo_add (e, g) q = Some q1" "fifo_inv q1" "fifo_list q1 = [(e, g)]"
    using Cons.prems(5) by auto
  let ?p = "fold add_result cs p"
  have "works_off (eval root) p [(e, g)] ?p"
    using works_off_levels [OF cs] Cons.prems(2) by simp
  from traverse.loop_works_off [OF this q1(2,3)] obtain q'
    where q': "traverse_loop root p q1 = Some (?p, q')" "fifo_inv q'" "fifo_list q' = []" by blast
  note r = fold_add_result [OF Cons.prems(3), of cs]
  have "traverse_groups root e gs ?p q' =
      Some (results ?p @ nub_by addr (inResults ?p) (concat css'))"
    using Cons.IH [OF css' _ _ q'(2,3)] Cons.prems(2) r by simp
  moreover have "nub_by addr (inResults ?p) (concat css') =
      nub_by addr (map addr (nub_by addr (inResults p) cs) @ inResults p) (concat css')"
    using r Cons.prems(3) by (intro nub_by_seen_cong) auto
  ultimately show ?case
    using q1(1) q'(1) r css by (simp add: nub_by_append)
qed simp

theorem FindElementsPath_levels:
  assumes "map_opt (\<lambda>g. levels root g [e]) path = Some css" and "\<forall>g \<in> set path. g \<noteq> []"
  shows "FindElementsPath root e path = Some (nub_by addr [] (concat css))"
  using traverse_groups_spec [OF assms, of newPather fifo_new]
  by (simp add: FindElementsPath_def newPather_def fifo_inv_new)

lemma FindElementsPath_single:
  "levels root g [e] = Some cs \<Longrightarrow> g \<noteq> [] \<Longrightarrow>
   FindElementsPath root e [g] = Some (nub_by addr [] cs)"
  using FindElementsPath_levels [of root e "[g]" "[cs]"] by simp

section \<open>The paths the source uses\<close>

text \<open>Compiling \<open>//name\<close>: the current element, its descendants, their children with the name.\<close>

lemma split_char_no: "c \<notin> set s \<Longrightarrow> split_char c s = [s]"
  by (rule split_char_single)

lemma compile_descendant_tag:
  assumes "set [CHR ''/'', CHR ''['', CHR ''|''] \<inter> set name = {}"
    and "name \<noteq> ''.''" "name \<noteq> ''..''" "name \<noteq> ''*''" "name \<noteq> ''''"
  shows "CompilePath (''//'' @ name) = Some (Inr [[\<lparr>sel = SelectSelf, filters = []\<rparr>,
    \<lparr>sel = SelectDescendants, filters = []\<rparr>,
    \<lparr>sel = (case spaceDecompose name of (s, l) \<Rightarrow> SelectChildrenByTag s l), filters = []\<rparr>]])"
proof -
  have groups: "split_char CHR ''|'' (''//'' @ name) = [''//'' @ name]"
    using assms(1) by (intro split_char_single) auto
  have no_suffix: "\<not> has_suffix (''.//'' @ name) ''//''"
  proof
    assume "has_suffix (''.//'' @ name) ''//''"
    then obtain r where "''.//'' @ name = r @ ''//''" by (auto simp: has_suffix_iff)
    then have "last (''.//'' @ name) = CHR ''/''" by (metis last_appendR last.simps list.simps(3))
    then have "last name = CHR ''/''" using assms(5) by simp
    moreover have "last name \<in> set name" using assms(5) by simp
    ultimately show False using assms(1) by (metis disjoint_iff list.set_intros(1))
  qed
  have segments: "split_char CHR ''/'' (''.//'' @ name) = [''.'', '''', name]"
    using assms(1) split_char_single [of "CHR ''/''" name] by simp
  have parse: "parseSegment s None = Some (\<lparr>sel = parseSelector s, filters = []\<rparr>, None)"
    if "CHR ''['' \<notin> set s" for s
    using that by (simp add: parseSegment_def split_char_single)
  have sel: "parseSelector name = (case spaceDecompose name of (s, l) \<Rightarrow> SelectChildrenByTag s l)"
    using assms(2-5) by (simp add: parseSelector_def)
  have "parseGroup (''//'' @ name) None =
      parse_segments (split_char CHR ''/'' (''.//'' @ name)) [] None"
    using no_suffix by (simp add: parseGroup_def has_prefix_def Let_def)
  also have "\<dots> = Some ([\<lparr>sel = SelectSelf, filters = []\<rparr>,
      \<lparr>sel = SelectDescendants, filters = []\<rparr>, \<lparr>sel = parseSelector name, filters = []\<rparr>], None)"
    unfolding segments using assms(1) by (simp add: parse parseSelector_def)
  finally show ?thesis unfolding CompilePath_def groups by (simp add: sel)
qed

lemma segment_apply_simps:
  "segment_apply root \<lparr>sel = SelectSelf, filters = []\<rparr> e = Some [e]"
  "segment_apply root \<lparr>sel = SelectDescendants, filters = []\<rparr> e = Some (bfs [e])"
  "segment_apply root \<lparr>sel = SelectChildrenByTag sp tag, filters = []\<rparr> e =
     Some (filter (tag_match sp tag) (children e))"
  by (auto simp: segment_apply_def select_descendants) (auto simp: select_apply_def)

lemma mset_concat_map:
  "mset (concat (map f xs)) = sum_mset (image_mset (\<lambda>x. mset (f x)) (mset xs))"
  by (induction xs) auto

definition below :: "token \<Rightarrow> token list" where
  "below e = concat (map elements (children e))"

lemma mset_children_elements:
  "mset (concat (map (filter (tag_match sp tag) \<circ> children) (elements e))) =
   mset (filter (tag_match sp tag) (below e))"
proof (induction e)
  case (Element n s t as ch)
  have rec: "mset (concat (map (filter (tag_match sp tag) \<circ> children) (concat (map elements ch)))) =
      mset (concat (map (\<lambda>c. filter (tag_match sp tag) (below c)) ch))"
    using Element by (induction ch) auto
  have "mset (filter (tag_match sp tag) ch) +
      mset (concat (map (\<lambda>c. filter (tag_match sp tag) (below c)) ch)) =
      mset (filter (tag_match sp tag) (concat (map elements ch)))"
  proof (induction ch)
    case (Cons c cs)
    have "filter (tag_match sp tag) (elements c) =
        (if tag_match sp tag c then [c] else []) @ filter (tag_match sp tag) (below c)"
      by (cases c) (auto simp: tree_simps below_def tag_match_def)
    with Cons show ?case by (simp add: union_assoc)
  qed simp
  with rec show ?case by (simp add: tree_simps below_def comp_def)
qed (auto simp: tree_simps below_def)

lemma subtokens_below: "set (below e) \<subseteq> set (subtokens e)"
  by (cases e) (auto simp: below_def elements_def)

lemma distinct_addr_below:
  "distinct (addrs e) \<Longrightarrow> distinct (map addr (below e))"
proof (cases e)
  case (Element n s t as ch)
  have f: "map addr (filter is_element (concat xss)) = map addr (concat (map (filter is_element) xss))"
    for xss by (simp add: filter_concat)
  assume "distinct (addrs e)"
  then have "distinct (map addr (concat (map subtokens ch)))"
    using Element by (simp add: addrs_def)
  then have "distinct (map addr (filter is_element (concat (map subtokens ch))))"
    by (simp add: distinct_map_filter)
  then show ?thesis using Element
    by (simp add: below_def elements_def [abs_def] filter_concat comp_def)
qed (auto simp: below_def)

text \<open>
  A query \<open>//sp:tag\<close> from an element finds every element below it with that name, and
  nothing else, each exactly once.
\<close>

theorem find_descendants_by_tag:
  assumes "distinct (addrs e)" and "is_element e" and "spaceDecompose name = (sp, tag)"
    and "set [CHR ''/'', CHR ''['', CHR ''|''] \<inter> set name = {}"
    and "name \<noteq> ''.''" "name \<noteq> ''..''" "name \<noteq> ''*''" "name \<noteq> ''''"
  shows "\<exists>els. FindElements root e (''//'' @ name) = Some els \<and> distinct (map addr els) \<and>
    mset els = mset (filter (tag_match sp tag) (below e))"
proof -
  let ?els = "concat (map (filter (tag_match sp tag) \<circ> children) (bfs [e]))"
  let ?g = "[\<lparr>sel = SelectSelf, filters = []\<rparr>, \<lparr>sel = SelectDescendants, filters = []\<rparr>,
      \<lparr>sel = SelectChildrenByTag sp tag, filters = []\<rparr>]"
  have tag: "apply_all root \<lparr>sel = SelectChildrenByTag sp tag, filters = []\<rparr> cs =
      Some (concat (map (filter (tag_match sp tag) \<circ> children) cs))" for cs
    using map_opt_total [of cs _ "filter (tag_match sp tag) \<circ> children"]
    by (simp add: apply_all_def segment_apply_simps)
  have "apply_all root \<lparr>sel = SelectSelf, filters = []\<rparr> [e] = Some [e]"
    "apply_all root \<lparr>sel = SelectDescendants, filters = []\<rparr> [e] = Some (bfs [e])"
    by (simp_all add: apply_all_def segment_apply_simps)
  then have levels: "levels root ?g [e] = Some ?els"
    by (simp only: levels.simps tag Option.bind.simps)
  have "mset (bfs [e]) = mset (elements e)" using mset_bfs [of "[e]"] assms(2) by simp
  then have "mset ?els = mset (concat (map (filter (tag_match sp tag) \<circ> children) (elements e)))"
    unfolding mset_concat_map by simp
  then have els: "mset ?els = mset (filter (tag_match sp tag) (below e))"
    using mset_children_elements by metis
  have "distinct (map addr (filter (tag_match sp tag) (below e)))"
    using distinct_addr_below [OF assms(1)] by (simp add: distinct_map_filter)
  moreover have "mset (map addr ?els) = mset (map addr (filter (tag_match sp tag) (below e)))"
    unfolding mset_map els ..
  ultimately have dist: "distinct (map addr ?els)"
    by (metis mset_eq_imp_distinct_iff)
  have "FindElementsPath root e [?g] = Some (nub_by addr [] ?els)"
    by (rule FindElementsPath_single [OF levels]) simp
  moreover have "nub_by addr [] ?els = ?els" using dist by (intro nub_by_distinct) auto
  moreover have "MustCompilePath (''//'' @ name) = Some [?g]"
    using compile_descendant_tag [OF assms(4-8)] assms(3) by (simp add: MustCompilePath_def)
  ultimately have "FindElements root e (''//'' @ name) = Some ?els"
    by (simp add: FindElements_def)
  with dist els show ?thesis by blast
qed

end
