(* ===== verification/TreeEdit.thy ===== *)
theory TreeEdit
  imports EtreeFind
begin

text \<open>
  Editing the elements that a query returned, one after the other, through their pointers:
  the changes, seen on the tree without addresses, are those of one pass over the tree that
  applies to each element the edit of its address (\<open>edited\<close>). The components that rewrite
  documents rest on this.
\<close>

section \<open>One pass over the tree\<close>

fun edited :: "(nat \<Rightarrow> token \<Rightarrow> token) \<Rightarrow> token \<Rightarrow> token" where
  "edited g (Element a s t as ch) = g a (Element 0 s t as (map (edited g) ch))"
| "edited g x = erase x"

lemma edited_none: "edited (\<lambda>_ e. e) t = erase t"
proof (induction t)
  case (Element a s t as ch)
  then have "map (edited (\<lambda>_ e. e)) ch = map erase ch" by simp
  then show ?case by (simp only: edited.simps erase.simps)
qed auto

lemma edited_cong:
  assumes "\<And>e. e \<in> set (elements t) \<Longrightarrow> g (addr e) = h (addr e)"
  shows "edited g t = edited h t"
  using assms
proof (induction t)
  case (Element a s t as ch)
  have "map (edited g) ch = map (edited h) ch"
    using Element by (fastforce simp: tree_simps)
  moreover have "g a = h a" using Element.prems [of "Element a s t as ch"] by (simp add: tree_simps)
  ultimately show ?case by (simp only: edited.simps)
qed auto

text \<open>
  A pass that names the edit of an element by its space and tag: \<open>retag\<close> applies \<open>f\<close> to the
  elements that \<open>P\<close> selects.
\<close>

definition retag :: "(token \<Rightarrow> bool) \<Rightarrow> (token \<Rightarrow> token) \<Rightarrow> token \<Rightarrow> token" where
  "retag P f = tmap (\<lambda>e. if P e then f e else e)"

lemma edited_retag:
  assumes "\<And>e. e \<in> set (elements t) \<Longrightarrow> g (addr e) = (if P e then f else (\<lambda>e. e))"
    and P: "\<And>a s t as ch. P (Element a s t as ch) \<longleftrightarrow> Q s t"
  shows "edited g t = retag P f (erase t)"
  using assms(1)
proof (induction t)
  case (Element a s t as ch)
  have "map (edited g) ch = map (retag P f) (map erase ch)"
    using Element by (fastforce simp: tree_simps)
  moreover have "g a = (if Q s t then f else (\<lambda>e. e))"
    using Element.prems [of "Element a s t as ch"] by (simp add: tree_simps P)
  moreover have "retag P f (Element 0 s t as cs) =
      (if Q s t then f else (\<lambda>e. e)) (Element 0 s t as (map (retag P f) cs))" for cs
    by (simp add: retag_def P)
  ultimately show ?case by (simp only: edited.simps erase.simps)
qed (simp_all add: retag_def)

section \<open>Edits through pointers\<close>

text \<open>
  \<open>f\<close> applied through the pointer \<open>a\<close> is the edit \<open>h\<close> of address \<open>a\<close>, when on the element
  itself \<open>f\<close> is \<open>h\<close> up to addresses.
\<close>

lemma edited_upd:
  assumes "g a = (\<lambda>e. e)"
    and "\<And>e. is_element e \<Longrightarrow> addr e = a \<Longrightarrow> edited g (f e) = h (edited g e)"
  shows "edited g (upd a f t) = edited (g(a := h)) t"
proof (induction t)
  case (Element b s t as ch)
  have ih: "map (edited g) (map (upd a f) ch) = map (edited (g(a := h))) ch"
    unfolding map_map
    by (rule map_cong [OF refl]) (simp only: comp_apply Element)
  show ?case
  proof (cases "b = a")
    case True
    have "edited g (f (Element a s t as (map (upd a f) ch))) =
        h (edited g (Element a s t as (map (upd a f) ch)))"
      by (rule assms(2)) simp_all
    also have "\<dots> = h (Element 0 s t as (map (edited (g(a := h))) ch))"
      by (simp only: edited.simps ih assms(1))
    finally have "edited g (f (Element a s t as (map (upd a f) ch))) =
        h (Element 0 s t as (map (edited (g(a := h))) ch))" .
    with True show ?thesis by (simp add: upd_simps fun_upd_same del: fun_upd_apply)
  next
    case False
    then have "(g(a := h)) b = g b" by simp
    with ih False show ?thesis by (simp only: upd_simps edited.simps if_False)
  qed
qed (auto simp: tree_simps)

text \<open>What every edit here leaves alone: the names and addresses of the elements.\<close>

definition keys :: "token \<Rightarrow> (nat \<times> string \<times> string) list" where
  "keys t = map (\<lambda>e. (addr e, el_space e, el_tag e)) (elements t)"

lemma keys_Element:
  "keys (Element n s t as ch) = (n, s, t) # concat (map keys ch)"
  by (simp add: keys_def [abs_def] tree_simps map_concat comp_def)

lemma keys_other: "\<not> is_element x \<Longrightarrow> keys x = []"
  by (simp add: keys_def tree_simps)

lemma keys_upd:
  assumes "\<And>e. is_element e \<Longrightarrow> keys (f e) = keys e"
  shows "keys (upd a f t) = keys t"
proof (induction t)
  case (Element n s t as ch)
  then have "map keys (map (upd a f) ch) = map keys ch" by simp
  then have "keys (Element n s t as (map (upd a f) ch)) = keys (Element n s t as ch)"
    by (simp only: keys_Element)
  then show ?case
    using assms [of "Element n s t as (map (upd a f) ch)"]
    by (cases "n = a") (simp_all only: upd_simps if_True if_False is_element.simps simp_thms)
qed (auto simp: tree_simps keys_other)

lemma is_element_upd:
  "(\<And>e. is_element (f e) = is_element e) \<Longrightarrow> is_element (upd a f t) = is_element t"
  by (cases t) (auto simp: tree_simps)

lemma fresh_tree_upd:
  assumes "fresh_tree t n" and "\<And>e. is_element (f e) = is_element e"
    and "\<And>e x. count (mset (addrs (f e))) x \<le> count (mset (addrs e)) x + (if x = n then 1 else 0)"
  shows "fresh_tree (upd a f t) (Suc n)"
proof -
  have d: "\<forall>x. count (mset (addrs t)) x \<le> 1"
    using assms(1) by (simp add: fresh_tree_def distinct_iff_count)
  have el: "el_count a t \<le> 1" using el_count_le [of a t] d le_trans by blast
  have n: "count (mset (addrs t)) n = 0"
    using assms(1) by (auto simp: fresh_tree_def count_mset_0_iff)
  have bound: "count (mset (addrs (upd a f t))) x \<le>
      count (mset (addrs t)) x + (if x = n then 1 else 0)" for x
  proof -
    have "el_count a t * (if x = n then 1 else 0) \<le> (if x = n then 1 else 0)" using el by simp
    with count_addrs_upd_le [OF assms(3), of a t x] show ?thesis by linarith
  qed
  then have "count (mset (addrs (upd a f t))) x \<le> 1" for x
    using bound [of x] d [rule_format, of x] n by (cases "x = n") auto
  then have "distinct (addrs (upd a f t))" by (simp add: distinct_iff_count)
  moreover have "x < Suc n" if "x \<in> set (addrs (upd a f t))" for x
  proof (cases "x = n")
    case False
    have "0 < count (mset (addrs (upd a f t))) x" using that by simp
    moreover have "count (mset (addrs (upd a f t))) x \<le> count (mset (addrs t)) x"
      using bound [of x] False by (simp del: count_mset)
    ultimately have "0 < count (mset (addrs t)) x" by (rule less_le_trans)
    then have "x \<in> set (addrs t)" by simp
    with assms(1) show ?thesis by (auto simp: fresh_tree_def less_Suc_eq)
  qed simp
  ultimately show ?thesis
    using assms(1,2) is_element_upd [of f a t] by (simp add: fresh_tree_def)
qed

section \<open>The results of a query\<close>

text \<open>The addresses of the elements with a name.\<close>

definition tagged :: "string \<Rightarrow> string \<Rightarrow> token \<Rightarrow> nat set" where
  "tagged sp tag t = {a. \<exists>s. (a, s, tag) \<in> set (keys t) \<and> spaceMatch sp s}"

lemma elements_root: "is_element t \<Longrightarrow> elements t = t # below t"
  by (cases t) (auto simp: tree_simps below_def)

lemma is_element_elements: "e \<in> set (elements t) \<Longrightarrow> is_element e"
  by (simp add: elements_def)

lemma tagged_eq: "tagged sp tag t = addr ` set (filter (tag_match sp tag) (elements t))"
proof -
  have "a \<in> tagged sp tag t \<longleftrightarrow>
      (\<exists>e \<in> set (elements t). addr e = a \<and> el_tag e = tag \<and> spaceMatch sp (el_space e))" for a
    by (auto simp: tagged_def keys_def)
  then show ?thesis by (auto simp: tag_match_def is_element_elements)
qed

text \<open>
  A query \<open>//name\<close> on a well-formed tree whose root does not have the name itself returns
  exactly the tagged elements.
\<close>

lemma find_tagged:
  assumes "fresh_tree t n" and "el_tag t \<noteq> tag" and "spaceDecompose name = (sp, tag)"
    and "set [CHR ''/'', CHR ''['', CHR ''|''] \<inter> set name = {}"
    and "name \<noteq> ''.''" "name \<noteq> ''..''" "name \<noteq> ''*''" "name \<noteq> ''''"
  shows "\<exists>els. FindElements t t (''//'' @ name) = Some els \<and> distinct (map addr els) \<and>
    set (map addr els) = tagged sp tag t \<and> mset els = mset (filter (tag_match sp tag) (elements t))"
proof -
  have t: "distinct (addrs t)" "is_element t" using assms(1) by (auto simp: fresh_tree_def)
  obtain els where els: "FindElements t t (''//'' @ name) = Some els" "distinct (map addr els)"
    "mset els = mset (filter (tag_match sp tag) (below t))"
    using find_descendants_by_tag [OF t assms(3-8)] by blast
  have filt: "filter (tag_match sp tag) (below t) = filter (tag_match sp tag) (elements t)"
    using assms(2) elements_root [OF t(2)] by (simp add: tag_match_def)
  have "set els = set (filter (tag_match sp tag) (elements t))"
    using els(3) filt by (metis set_mset_mset)
  then have "set (map addr els) = tagged sp tag t"
    by (simp only: tagged_eq set_map)
  with els filt show ?thesis by auto
qed

lemma tagged_elements:
  assumes "distinct (addrs t)" and "e \<in> set (elements t)"
  shows "addr e \<in> tagged sp tag t \<longleftrightarrow> tag_match sp tag e"
proof
  assume "addr e \<in> tagged sp tag t"
  then obtain e' where e': "e' \<in> set (elements t)" "addr e' = addr e" "tag_match sp tag e'"
    by (auto simp: tagged_eq)
  have "inj_on addr (set (subtokens t))" using assms(1) by (simp add: addrs_def distinct_map)
  with e' assms(2) have "e' = e" by (auto simp: elements_def dest: inj_onD)
  with e' show "tag_match sp tag e" by simp
qed (use assms(2) in \<open>simp add: tagged_eq\<close>)

section \<open>Observations of an edited tree\<close>

text \<open>
  What an observer reads off an element: its name, attributes and text. An edit that leaves the
  elements below alone is seen element by element, in document order.
\<close>

definition el_view :: "token \<Rightarrow> string \<times> string \<times> attr list \<times> string" where
  "el_view e = (el_space e, el_tag e, attrs e, Text e)"

lemma elements_edited:
  assumes "\<And>a e. is_element e \<Longrightarrow> is_element (g a e) \<and> below (g a e) = below e"
    and "\<And>e. e \<in> set (elements t) \<Longrightarrow> obs (edited g e) = view e"
  shows "map obs (elements (edited g t)) = map view (elements t)"
  using assms(2)
proof (induction t)
  case (Element a s t as ch)
  let ?e = "Element 0 s t as (map (edited g) ch)"
  have g: "is_element (g a ?e)" "below (g a ?e) = concat (map elements (map (edited g) ch))"
    using assms(1) [of ?e a] by (auto simp: below_def)
  have ih: "map obs (elements (edited g c)) = map view (elements c)" if "c \<in> set ch" for c
  proof (rule Element.IH [OF that])
    fix e assume "e \<in> set (elements c)"
    with that have "e \<in> set (elements (Element a s t as ch))" by (auto simp: elements_simps)
    then show "obs (edited g e) = view e" by (rule Element.prems)
  qed
  have "concat (map (\<lambda>c. map obs (elements (edited g c))) ch) = concat (map (\<lambda>c. map view (elements c)) ch)"
    by (intro arg_cong [where f = concat] map_cong refl ih)
  then have "map obs (below (g a ?e)) = map view (concat (map elements ch))"
    unfolding g(2) by (simp add: map_concat comp_def del: map_eq_conv)
  moreover have "obs (g a ?e) = view (Element a s t as ch)"
    using Element.prems [of "Element a s t as ch"] by (simp add: tree_simps)
  ultimately show ?case
    using elements_root [OF g(1)] by (simp add: tree_simps map_concat del: map_map)
qed (simp_all add: tree_simps)

lemma elements_retag:
  assumes "\<And>e. is_element e \<Longrightarrow> is_element (f e) \<and> below (f e) = below e"
    and "\<And>e. e \<in> set (elements t) \<Longrightarrow> obs (retag P f e) = view e"
  shows "map obs (elements (retag P f t)) = map view (elements t)"
  using assms(2)
proof (induction t)
  case (Element a s t as ch)
  let ?e = "Element a s t as (map (retag P f) ch)"
  let ?r = "if P ?e then f ?e else ?e"
  have r: "retag P f (Element a s t as ch) = ?r" by (simp add: retag_def)
  have g: "is_element ?r" "below ?r = concat (map elements (map (retag P f) ch))"
    using assms(1) [of ?e] by (auto simp: below_def)
  have ih: "map obs (elements (retag P f c)) = map view (elements c)" if "c \<in> set ch" for c
  proof (rule Element.IH [OF that])
    fix e assume "e \<in> set (elements c)"
    with that have "e \<in> set (elements (Element a s t as ch))" by (auto simp: elements_simps)
    then show "obs (retag P f e) = view e" by (rule Element.prems)
  qed
  have "concat (map (\<lambda>c. map obs (elements (retag P f c))) ch) = concat (map (\<lambda>c. map view (elements c)) ch)"
    by (intro arg_cong [where f = concat] map_cong refl ih)
  then have "map obs (below ?r) = map view (concat (map elements ch))"
    unfolding g(2) by (simp add: map_concat comp_def del: map_eq_conv)
  moreover have "obs ?r = view (Element a s t as ch)"
    using Element.prems [of "Element a s t as ch"] by (simp add: tree_simps r)
  ultimately show ?case
    unfolding r elements_root [OF g(1)] by (simp add: tree_simps map_concat del: map_map)
qed (simp_all add: tree_simps retag_def)

end
