(* ===== verification/Bpmn.thy ===== *)
theory Bpmn
  imports TreeEdit
begin

text \<open>
  The rewriting of process models before deployment (\<open>lib/controller/bpmn.go\<close> and
  \<open>validateXml\<close> of \<open>lib/controller/controller.go\<close>): securing scripts, giving the processes
  their ids, and the final syntax check. The decoder \<open>dec\<close> and the strict unmarshalling of
  \<open>encoding/xml\<close> are parameters. A panic is recovered into an error.
\<close>

section \<open>SecureProcessScripts\<close>

definition script_prefix :: string where
  "script_prefix = ''var java = {}; var execution = {}; ''"

definition recovered :: "'a res" where
  "recovered = Inl (ErrMsg ''Recovered Error: '')"

text \<open>
  \<open>script.SetText(prefix + script.Text())\<close> through the pointer \<open>a\<close>. The address \<open>n\<close> is set
  aside for the character data that \<open>SetText\<close> may make.
\<close>

definition secure_at :: "nat \<Rightarrow> token \<times> nat \<Rightarrow> token \<times> nat" where
  "secure_at a s =
     (case s of (root, n) \<Rightarrow>
        (upd a (\<lambda>script. fst (SetText (script_prefix @ Text script) script n)) root, Suc n))"

lemma secure_at_pair:
  "secure_at a (root, n) =
     (upd a (\<lambda>script. fst (SetText (script_prefix @ Text script) script n)) root, Suc n)"
  by (simp add: secure_at_def)

text \<open>One of the two loops: all elements that the query finds.\<close>

definition secure_all :: "string \<Rightarrow> token \<times> nat \<Rightarrow> (token \<times> nat) option" where
  "secure_all p s =
     map_option (\<lambda>scripts. fold secure_at (map addr scripts) s) (FindElements (fst s) (fst s) p)"

definition SecureProcessScripts :: "(string \<Rightarrow> decoded) \<Rightarrow> string \<Rightarrow> string res" where
  "SecureProcessScripts dec xml =
     (let (doc, n) = NewDocument 0
      in case ReadFromString dec xml doc n of
           (Some err, doc1, n1) \<Rightarrow> Inl err
         | (None, doc1, n1) \<Rightarrow>
             (case Option.bind (secure_all ''//camunda:script'' (d_element doc1, n1))
                     (secure_all ''//bpmn:script'') of
                None \<Rightarrow> recovered
              | Some (root, n2) \<Rightarrow> Inr (WriteToString (doc1\<lparr>d_element := root\<rparr>))))"

section \<open>SetProcessId\<close>

definition normalizedId :: "string \<Rightarrow> string" where
  "normalizedId i =
     ''deplid_'' @ byte_replacer [(CHR ''-'', ''_''), (CHR '':'', ''_''), (CHR ''#'', ''_'')] i"

definition processId :: "string \<Rightarrow> nat \<Rightarrow> string" where
  "processId nid i = (if i > 0 then nid @ ''_'' @ itoa i else nid)"

text \<open>The body of the loop, on the element: nothing without an \<open>id\<close> attribute.\<close>

definition set_process_id :: "string \<Rightarrow> nat \<Rightarrow> token \<Rightarrow> token" where
  "set_process_id nid i element =
     (case SelectAttr ''id'' element of
        None \<Rightarrow> element
      | Some k \<Rightarrow> set_attr_value_at k (processId nid i) element)"

fun set_process_ids :: "string \<Rightarrow> nat \<Rightarrow> nat list \<Rightarrow> token \<Rightarrow> token" where
  "set_process_ids nid i [] root = root"
| "set_process_ids nid i (a # as) root =
     set_process_ids nid (Suc i) as (upd a (set_process_id nid i) root)"

definition SetProcessId :: "(string \<Rightarrow> decoded) \<Rightarrow> string \<Rightarrow> string \<Rightarrow> string res" where
  "SetProcessId dec xml i =
     (let (doc, n) = NewDocument 0
      in case ReadFromString dec xml doc n of
           (Some err, doc1, n1) \<Rightarrow> Inl err
         | (None, doc1, n1) \<Rightarrow>
             (case FindElements (d_element doc1) (d_element doc1) ''//bpmn:process'' of
                None \<Rightarrow> recovered
              | Some els \<Rightarrow>
                  Inr (WriteToString (doc1\<lparr>d_element :=
                    set_process_ids (normalizedId i) 0 (map addr els) (d_element doc1)\<rparr>))))"

section \<open>validateXml\<close>

definition validateXml :: "(string \<Rightarrow> decoded) \<Rightarrow> (string \<Rightarrow> goerror option) \<Rightarrow> string \<Rightarrow> bool" where
  "validateXml dec unmarshal xmlStr =
     (if xmlStr = '''' then False
      else let (doc, n) = NewDocument 0
           in case ReadFromString dec xmlStr doc n of
                (Some err, _) \<Rightarrow> False
              | (None, _) \<Rightarrow> (case unmarshal xmlStr of Some err \<Rightarrow> False | None \<Rightarrow> True))"

section \<open>What securing does to the tree\<close>

text \<open>
  The specification: one pass that prefixes the text of every script element, whatever the
  element's depth; everything else stays.
\<close>

definition is_script :: "token \<Rightarrow> bool" where
  "is_script e \<longleftrightarrow> is_element e \<and> el_tag e = ''script'' \<and> el_space e \<in> {''camunda'', ''bpmn''}"

definition prefix_text :: "token \<Rightarrow> token" where
  "prefix_text e = fst (SetText (script_prefix @ Text e) e 0)"

definition secured :: "token \<Rightarrow> token" where
  "secured = retag is_script prefix_text"

lemma SetText_keeps:
  "is_element (fst (SetText tx e n)) = is_element e"
  "el_tag (fst (SetText tx e n)) = el_tag e" "el_space (fst (SetText tx e n)) = el_space e"
  "keys (fst (SetText tx e n)) = keys e"
  "count (mset (addrs (fst (SetText tx e n)))) x \<le>
     count (mset (addrs e)) x + (if x = n then 1 else 0)"
proof -
  have "is_element (fst (SetText tx e n)) = is_element e \<and>
    el_tag (fst (SetText tx e n)) = el_tag e \<and> el_space (fst (SetText tx e n)) = el_space e \<and>
    keys (fst (SetText tx e n)) = keys e \<and>
    count (mset (addrs (fst (SetText tx e n)))) x \<le>
      count (mset (addrs e)) x + (if x = n then 1 else 0)"
  proof (cases e)
    case (Element a s t as ch)
    show ?thesis
    proof (cases "\<exists>b d w r. ch = CharData b d w # r")
      case True
      then show ?thesis using Element by (auto simp: keys_Element keys_other addrs_simps)
    next
      case False
      then show ?thesis using Element SetText_no_leading [of ch tx a s t as n]
        by (auto simp: keys_Element keys_other addrs_simps)
    qed
  qed auto
  then show
    "is_element (fst (SetText tx e n)) = is_element e"
    "el_tag (fst (SetText tx e n)) = el_tag e" "el_space (fst (SetText tx e n)) = el_space e"
    "keys (fst (SetText tx e n)) = keys e"
    "count (mset (addrs (fst (SetText tx e n)))) x \<le>
       count (mset (addrs e)) x + (if x = n then 1 else 0)"
    by auto
qed

lemma edited_prefix:
  assumes "is_element e" and "g (addr e) = (\<lambda>e. e)"
    and g: "\<And>b e. is_element e \<Longrightarrow> is_element (g b e)"
  shows "edited g (fst (SetText (script_prefix @ Text e) e n)) = prefix_text (edited g e)"
proof (cases e)
  case (Element a s t as ch)
  show ?thesis
  proof (cases "\<exists>b d w r. ch = CharData b d w # r")
    case True
    then show ?thesis using Element assms(2) by (auto simp: prefix_text_def)
  next
    case False
    have "\<nexists>b d w r. map (edited g) ch = CharData b d w # r"
    proof (cases ch)
      case (Cons c cs)
      with False have "edited g c \<noteq> CharData b d w" for b d w
        using g by (cases c) (auto, metis is_element.simps(1,2))
      with Cons show ?thesis by simp
    qed simp
    moreover have "Text (Element b s t as cs) = ''''" if "\<nexists>b d w r. cs = CharData b d w # r" for cs b
      using that by (auto split: list.splits token.splits)
    ultimately show ?thesis
      using Element False assms(2) SetText_no_leading [of ch _ a s t as n]
        SetText_no_leading [of "map (edited g) ch" _ 0 s t as 0]
      by (simp add: prefix_text_def)
  qed
qed (use assms in auto)

lemma is_element_prefix_text: "is_element e \<Longrightarrow> is_element (prefix_text e)"
  by (simp add: prefix_text_def SetText_keeps)

lemma edited_fold_secure:
  assumes "distinct as" and "\<forall>a \<in> set as. g a = (\<lambda>e. e)"
    and "\<And>b e. is_element e \<Longrightarrow> is_element (g b e)"
  shows "edited g (fst (fold secure_at as (root, n))) =
    edited (\<lambda>b. if b \<in> set as then prefix_text else g b) root"
  using assms(1,2)
proof (induction as arbitrary: root n)
  case (Cons a as)
  let ?g = "\<lambda>b. if b \<in> set as then prefix_text else g b"
  let ?f = "\<lambda>script. fst (SetText (script_prefix @ Text script) script n)"
  have id: "?g a = (\<lambda>e. e)" using Cons.prems by simp
  have elem: "is_element e \<Longrightarrow> is_element (?g b e)" for b e
    using assms(3) by (simp add: is_element_prefix_text)
  have "edited g (fst (fold secure_at (a # as) (root, n))) = edited ?g (upd a ?f root)"
    using Cons by (simp add: secure_at_pair)
  also have "\<dots> = edited (?g(a := prefix_text)) root"
  proof (rule edited_upd)
    show "?g a = (\<lambda>e. e)" by (rule id)
    show "edited ?g (?f e) = prefix_text (edited ?g e)" if "is_element e" "addr e = a" for e
    proof (rule edited_prefix)
      show "?g (addr e) = (\<lambda>e. e)" unfolding that(2) by (rule id)
    qed (use that elem in \<open>simp_all\<close>)
  qed
  also have "?g(a := prefix_text) = (\<lambda>b. if b \<in> set (a # as) then prefix_text else g b)"
    by auto
  finally show ?case .
qed simp

lemma fold_secure_keeps:
  "fresh_tree root n \<Longrightarrow>
   fresh_tree (fst (fold secure_at as (root, n))) (snd (fold secure_at as (root, n))) \<and>
   keys (fst (fold secure_at as (root, n))) = keys root \<and>
   el_tag (fst (fold secure_at as (root, n))) = el_tag root"
proof (induction as arbitrary: root n)
  case (Cons a as)
  let ?f = "\<lambda>script. fst (SetText (script_prefix @ Text script) script n)"
  have "fresh_tree (upd a ?f root) (Suc n)"
    using Cons.prems by (rule fresh_tree_upd) (rule SetText_keeps)+
  moreover have "keys (upd a ?f root) = keys root" by (rule keys_upd) (rule SetText_keeps)
  moreover have "el_tag (upd a ?f root) = el_tag root"
    by (cases root) (simp_all add: tree_simps SetText_keeps del: SetText.simps)
  ultimately show ?case using Cons.IH [of "upd a ?f root" "Suc n"] by (simp add: secure_at_pair)
qed simp

lemma secure_all_ok:
  assumes "fresh_tree root n" and "el_tag root = ''''" and "sp \<in> {''camunda'', ''bpmn''}"
  shows "\<exists>as. secure_all (''//'' @ sp @ '':script'') (root, n) = Some (fold secure_at as (root, n)) \<and>
    distinct as \<and> set as = tagged sp ''script'' root"
proof -
  have name: "spaceDecompose (sp @ '':script'') = (sp, ''script'')"
    using assms(3) spaceDecompose_prefixed [of sp "''script''"] by auto
  have "\<exists>els. FindElements root root (''//'' @ sp @ '':script'') = Some els \<and>
      distinct (map addr els) \<and> set (map addr els) = tagged sp ''script'' root"
    using find_tagged [OF assms(1) _ name] assms(2,3) by auto
  then show ?thesis by (auto simp: secure_all_def)
qed

lemma secure_scripts_tree:
  assumes "ReadFromString dec xml (fst (NewDocument 0)) (snd (NewDocument 0)) = (None, doc, n)"
  shows "SecureProcessScripts dec xml =
    Inr (WriteToString (doc\<lparr>d_element := secured (erase (d_element doc))\<rparr>))"
proof -
  let ?r = "d_element doc"
  have r: "fresh_tree ?r n" "el_tag ?r = ''''"
    using read_document_fresh [OF assms] read_document_el_tag [OF assms] by auto
  obtain as where as: "secure_all ''//camunda:script'' (?r, n) = Some (fold secure_at as (?r, n))"
    "distinct as" "set as = tagged ''camunda'' ''script'' ?r"
    using secure_all_ok [OF r, of "''camunda''"] by auto
  obtain r1 n1 where r1: "fold secure_at as (?r, n) = (r1, n1)" by (cases "fold secure_at as (?r, n)")
  have k: "fresh_tree r1 n1" "keys r1 = keys ?r" "el_tag r1 = ''''"
    using fold_secure_keeps [OF r(1), of as] r1 r(2) by auto
  obtain bs where bs: "secure_all ''//bpmn:script'' (r1, n1) = Some (fold secure_at bs (r1, n1))"
    "distinct bs" "set bs = tagged ''bpmn'' ''script'' r1"
    using secure_all_ok [OF k(1,3), of "''bpmn''"] by auto
  have tag: "set bs = tagged ''bpmn'' ''script'' ?r" using bs(3) k(2) by (simp add: tagged_def)
  let ?G = "\<lambda>b. if b \<in> set bs then prefix_text else (\<lambda>e. e)"
  have t: "addr e \<in> tagged sp ''script'' ?r \<longleftrightarrow> tag_match sp ''script'' e"
    if "e \<in> set (elements ?r)" for e sp
    using r(1) that by (intro tagged_elements) (auto simp: fresh_tree_def)
  have disj: "\<forall>a \<in> set as. ?G a = (\<lambda>e. e)"
  proof
    fix a assume "a \<in> set as"
    then obtain e where "e \<in> set (elements ?r)" "a = addr e" "tag_match ''camunda'' ''script'' e"
      using as(3) by (auto simp: tagged_eq)
    moreover from this have "el_space e = ''camunda''"
      by (simp add: tag_match_def spaceMatch_def)
    then have "\<not> tag_match ''bpmn'' ''script'' e"
      by (simp add: tag_match_def spaceMatch_def)
    ultimately have "a \<notin> set bs" using t tag by auto
    then show "?G a = (\<lambda>e. e)" by simp
  qed
  have "erase (fst (fold secure_at bs (r1, n1))) = edited ?G r1"
    using edited_fold_secure [OF bs(2), of "\<lambda>_ e. e"] by (simp add: edited_none)
  also have "\<dots> = edited (\<lambda>b. if b \<in> set as then prefix_text else ?G b) ?r"
    using edited_fold_secure [OF as(2) disj, of ?r n] r1 by (simp add: is_element_prefix_text)
  also have "\<dots> = secured (erase ?r)"
    unfolding secured_def
  proof (rule edited_retag [where Q = "\<lambda>s t. t = ''script'' \<and> s \<in> {''camunda'', ''bpmn''}"])
    fix e assume e: "e \<in> set (elements ?r)"
    have "addr e \<in> set as \<or> addr e \<in> set bs \<longleftrightarrow> is_script e"
      unfolding as(3) tag t [OF e] using is_element_elements [OF e]
      by (simp add: tag_match_def spaceMatch_def is_script_def eq_commute) blast
    then show "(if addr e \<in> set as then prefix_text else ?G (addr e)) =
        (if is_script e then prefix_text else (\<lambda>e. e))" by auto
  qed (simp add: is_script_def)
  finally have "WriteToString (doc\<lparr>d_element := fst (fold secure_at bs (r1, n1))\<rparr>) =
      WriteToString (doc\<lparr>d_element := secured (erase ?r)\<rparr>)"
    using WriteToString_erase by metis
  then show ?thesis
    using assms as(1) bs(1) r1
    by (cases "fold secure_at bs (r1, n1)") (simp add: SecureProcessScripts_def NewDocument_def)
qed

section \<open>What an observer sees of the secured document\<close>

lemma prefix_text_keeps:
  "is_element e \<Longrightarrow> is_element (prefix_text e) \<and> below (prefix_text e) = below e \<and>
   el_view (prefix_text e) = (el_space e, el_tag e, attrs e, script_prefix @ Text e)"
proof (cases e)
  case (Element a s t as ch)
  show ?thesis
  proof (cases "\<exists>b d w r. ch = CharData b d w # r")
    case True
    then show ?thesis using Element by (auto simp: prefix_text_def below_def tree_simps el_view_def)
  next
    case False
    then show ?thesis using Element SetText_no_leading [of ch _ a s t as 0]
      by (auto simp: prefix_text_def below_def tree_simps el_view_def split: list.splits token.splits)
  qed
qed auto

lemma Text_leading_cong:
  assumes "\<And>c. is_element (h c) = is_element c"
    and "\<And>c. \<not> is_element c \<Longrightarrow> h c = c \<or> h c = erase c"
  shows "Text (Element a s t as (map h ch)) = Text (Element b s t as ch)"
proof (cases ch)
  case (Cons c cs)
  then show ?thesis
  proof (cases c)
    case (Element a' s' t' as' ch')
    then have "is_element (h c)" using assms(1) by simp
    then show ?thesis using Cons Element by (cases "h c") simp_all
  qed (use assms(2) [of c] in auto)
qed simp

text \<open>The elements of the secured tree: only the text of scripts is another.\<close>

definition secured_view :: "token \<Rightarrow> string \<times> string \<times> attr list \<times> string" where
  "secured_view e =
     (el_space e, el_tag e, attrs e, if is_script e then script_prefix @ Text e else Text e)"

lemma is_element_secured: "is_element (secured c) = is_element c"
  by (cases c) (auto simp: secured_def retag_def is_element_prefix_text)

lemma secured_other: "\<not> is_element c \<Longrightarrow> secured c = c"
  by (cases c) (auto simp: secured_def retag_def)

lemma elements_secured: "map el_view (elements (secured t)) = map secured_view (elements t)"
  unfolding secured_def
proof (rule elements_retag)
  fix e assume "e \<in> set (elements t)"
  then have "is_element e" by (rule is_element_elements)
  then obtain a s tag as ch where e: "e = Element a s tag as ch" by (cases e) auto
  let ?e = "Element a s tag as (map secured ch)"
  have "Text ?e = Text e"
    unfolding e by (rule Text_leading_cong) (simp_all add: is_element_secured secured_other)
  moreover have "retag is_script prefix_text e = (if is_script ?e then prefix_text ?e else ?e)"
    by (simp add: e retag_def secured_def)
  ultimately show "el_view (retag is_script prefix_text e) = secured_view e"
    using prefix_text_keeps [of ?e]
    by (cases "is_script ?e") (auto simp: e secured_view_def el_view_def is_script_def)
qed (simp add: prefix_text_keeps)

lemma elements_erase: "map el_view (elements (erase t)) = map el_view (elements t)"
proof -
  have text_erase: "Text (erase e) = Text e" for e
  proof (cases e)
    case (Element a s tag as ch)
    show ?thesis
    proof (cases ch)
      case (Cons c cs)
      with Element show ?thesis by (cases c) auto
    qed (simp add: Element)
  qed auto
  have "el_view (erase e) = el_view e" for e
  proof -
    have "el_space (erase e) = el_space e" "el_tag (erase e) = el_tag e" "attrs (erase e) = attrs e"
      by (cases e; simp)+
    then show ?thesis by (simp add: el_view_def text_erase)
  qed
  then show ?thesis
    using elements_edited [of "\<lambda>_ e. e" t el_view el_view] by (simp add: edited_none)
qed

section \<open>What setting the process ids does to the tree\<close>

lemma set_process_id_keeps:
  "is_element e \<Longrightarrow> is_element (set_process_id nid i e) \<and>
     below (set_process_id nid i e) = below e"
  by (cases e) (auto simp: set_process_id_def below_def split: option.splits)

lemma edited_set_process_id:
  assumes "is_element e" and "g (addr e) = (\<lambda>e. e)"
  shows "edited g (set_process_id nid i e) = set_process_id nid i (edited g e)"
  using assms by (cases e) (auto simp: set_process_id_def SelectAttr_def split: option.splits prod.splits)

text \<open>The edit of each address: the process at position \<open>k\<close> of \<open>as\<close> gets the id with number \<open>k\<close>.\<close>

definition process_edit :: "string \<Rightarrow> nat \<Rightarrow> nat list \<Rightarrow> nat \<Rightarrow> token \<Rightarrow> token" where
  "process_edit nid i as a =
     (case map_of (zip as [i..<i + length as]) a of
        None \<Rightarrow> (\<lambda>e. e) | Some k \<Rightarrow> set_process_id nid k)"

lemma process_edit_keeps:
  "is_element e \<Longrightarrow> is_element (process_edit nid i as a e) \<and>
     below (process_edit nid i as a e) = below e"
  by (simp add: process_edit_def set_process_id_keeps split: option.split)

lemma edited_set_process_ids:
  assumes "distinct as" and "\<forall>a \<in> set as. g a = (\<lambda>e. e)"
  shows "edited g (set_process_ids nid i as root) =
    edited (\<lambda>b. case map_of (zip as [i..<i + length as]) b of
              None \<Rightarrow> g b | Some k \<Rightarrow> set_process_id nid k) root"
  using assms
proof (induction as arbitrary: i root)
  case (Cons a as)
  let ?g = "\<lambda>b. case map_of (zip as [Suc i..<Suc i + length as]) b of
              None \<Rightarrow> g b | Some k \<Rightarrow> set_process_id nid k"
  have id: "?g a = (\<lambda>e. e)"
  proof -
    have "map_of (zip as [Suc i..<Suc i + length as]) a = None"
      using Cons.prems(1) by (simp add: map_of_zip_is_None)
    then show ?thesis using Cons.prems(2) by simp
  qed
  have "edited g (set_process_ids nid i (a # as) root) =
      edited ?g (upd a (set_process_id nid i) root)"
    using Cons by simp
  also have "\<dots> = edited (?g(a := set_process_id nid i)) root"
  proof (rule edited_upd)
    show "?g a = (\<lambda>e. e)" by (rule id)
    show "edited ?g (set_process_id nid i e) = set_process_id nid i (edited ?g e)"
      if "is_element e" "addr e = a" for e
      by (rule edited_set_process_id [OF that(1)]) (simp only: that(2) id)
  qed
  also have "?g(a := set_process_id nid i) =
      (\<lambda>b. case map_of (zip (a # as) [i..<i + length (a # as)]) b of
         None \<Rightarrow> g b | Some k \<Rightarrow> set_process_id nid k)"
    by (rule ext) (simp add: upt_conv_Cons del: upt_Suc)
  finally show ?case .
qed simp

text \<open>
  The documents that the rewriting steps read are well-formed, so the query for processes
  returns; the processes are the elements with that name.
\<close>

definition is_process :: "token \<Rightarrow> bool" where
  "is_process e \<longleftrightarrow> is_element e \<and> el_tag e = ''process'' \<and> el_space e = ''bpmn''"

lemma find_processes:
  assumes "ReadFromString dec xml (fst (NewDocument 0)) (snd (NewDocument 0)) = (None, doc, n)"
  shows "\<exists>els. FindElements (d_element doc) (d_element doc) ''//bpmn:process'' = Some els \<and>
    distinct (map addr els) \<and> mset els = mset (filter is_process (elements (d_element doc)))"
proof -
  let ?r = "d_element doc"
  have r: "fresh_tree ?r n" "el_tag ?r = ''''"
    using read_document_fresh [OF assms] read_document_el_tag [OF assms] by auto
  have name: "spaceDecompose (''bpmn:process'') = (''bpmn'', ''process'')"
    using spaceDecompose_prefixed [of "''bpmn''" "''process''"] by auto
  have "tag_match ''bpmn'' ''process'' = is_process"
    by (auto simp: fun_eq_iff tag_match_def spaceMatch_def is_process_def)
  then show ?thesis using find_tagged [OF r(1) _ name] r(2) by auto
qed

lemma set_process_id_tree:
  assumes "ReadFromString dec xml (fst (NewDocument 0)) (snd (NewDocument 0)) = (None, doc, n)"
    and "FindElements (d_element doc) (d_element doc) ''//bpmn:process'' = Some els"
    and "distinct (map addr els)"
  shows "SetProcessId dec xml i = Inr (WriteToString (doc\<lparr>d_element :=
    edited (process_edit (normalizedId i) 0 (map addr els)) (d_element doc)\<rparr>))"
proof -
  let ?r = "d_element doc"
  have "erase (set_process_ids (normalizedId i) 0 (map addr els) ?r) =
      edited (process_edit (normalizedId i) 0 (map addr els)) ?r"
    using edited_set_process_ids [OF assms(3), of "\<lambda>_ e. e" "normalizedId i" 0 ?r]
    by (simp add: edited_none process_edit_def [abs_def])
  then have "WriteToString (doc\<lparr>d_element := set_process_ids (normalizedId i) 0 (map addr els) ?r\<rparr>) =
      WriteToString (doc\<lparr>d_element := edited (process_edit (normalizedId i) 0 (map addr els)) ?r\<rparr>)"
    by (rule WriteToString_erase)
  then show ?thesis using assms(1,2) by (simp add: SetProcessId_def NewDocument_def)
qed

lemma processId_inj: "processId nid i = processId nid j \<Longrightarrow> i = j"
  by (auto simp: processId_def split: if_splits dest: itoa_inj)

definition with_id :: "string \<Rightarrow> attr list \<Rightarrow> attr list" where
  "with_id v as =
     (case find_attr '''' ''id'' as of None \<Rightarrow> as | Some k \<Rightarrow> as[k := (as ! k)\<lparr>a_value := v\<rparr>])"

text \<open>
  The specification: the id with a number, written out, and the tree in which the first \<open>id\<close>
  attribute of each numbered element has its value from it, and every other token is the same:
  \<open>num\<close> gives the number of a process by its address, nothing for other elements. (Addresses
  are set to 0, they are not part of the text.)
\<close>

definition numbered_id :: "string \<Rightarrow> nat \<Rightarrow> string" where
  "numbered_id i k =
     ''deplid_'' @ List.map (\<lambda>c. if c \<in> {CHR ''-'', CHR '':'', CHR ''#''} then CHR ''_'' else c) i @
     (if k = 0 then '''' else ''_'' @ itoa k)"

fun numbered :: "string \<Rightarrow> (nat \<rightharpoonup> nat) \<Rightarrow> token \<Rightarrow> token" where
  "numbered i num (Element a s tag as ch) =
     Element 0 s tag (case num a of None \<Rightarrow> as | Some k \<Rightarrow> with_id (numbered_id i k) as)
       (map (numbered i num) ch)"
| "numbered i num (CharData a d ws) = CharData 0 d ws"
| "numbered i num (Comment a d) = Comment 0 d"
| "numbered i num (Directive a d) = Directive 0 d"
| "numbered i num (ProcInst a target inst) = ProcInst 0 target inst"
| "numbered i num (CData a d) = CData 0 d"

lemma numbered_id: "processId (normalizedId i) k = numbered_id i k"
proof -
  have "byte_replacer [(CHR ''-'', ''_''), (CHR '':'', ''_''), (CHR ''#'', ''_'')] i =
      List.map (\<lambda>c. if c \<in> {CHR ''-'', CHR '':'', CHR ''#''} then CHR ''_'' else c) i"
    by (induction i) (simp_all add: byte_replacer_Cons)
  then show ?thesis by (simp add: processId_def normalizedId_def numbered_id_def)
qed

lemma process_edit_numbered:
  "process_edit (normalizedId i) 0 as a (Element 0 s tag at cs) =
     Element 0 s tag (case map_of (zip as [0..<length as]) a of
       None \<Rightarrow> at | Some k \<Rightarrow> with_id (numbered_id i k) at) cs"
proof -
  have "SelectAttr ''id'' (Element 0 s tag at cs) = find_attr '''' ''id'' at"
    by (simp add: SelectAttr_def spaceDecompose_def)
  then show ?thesis
    by (auto simp: process_edit_def set_process_id_def with_id_def numbered_id
        simp del: map_of_zip_is_None split: option.splits)
qed

lemma edited_numbered:
  "edited (process_edit (normalizedId i) 0 as) t = numbered i (map_of (zip as [0..<length as])) t"
proof (induction t)
  case (Element a s tag at ch)
  then have "map (edited (process_edit (normalizedId i) 0 as)) ch = map (numbered i (map_of (zip as [0..<length as]))) ch"
    by simp
  then show ?case by (simp only: edited.simps numbered.simps process_edit_numbered)
qed simp_all

lemma secured_view_erase:
  "map secured_view (elements (erase t)) = map secured_view (elements t)"
proof -
  let ?f = "\<lambda>(s, tag, as, tx).
     (s, tag, as, if tag = ''script'' \<and> s \<in> {''camunda'', ''bpmn''} then script_prefix @ tx else tx)"
  have "map secured_view (elements r) = map ?f (map el_view (elements r))" for r
    by (auto simp: secured_view_def el_view_def is_script_def dest: is_element_elements)
  then show ?thesis by (simp only: elements_erase)
qed

section \<open>Properties\<close>

text \<open>
  C12: \<open>SecureProcessScripts\<close> on any document that can be read: the result is the document
  written back, with the text of every \<open>camunda:script\<close> and \<open>bpmn:script\<close> element, at any
  depth, preceded by the declarations that hide \<open>java\<close> and \<open>execution\<close>; name, attributes and
  text of every other element are the same, in the same order.
\<close>

theorem SecureProcessScripts_prefixes_scripts:
  assumes "ReadFromString dec xml (fst (NewDocument 0)) (snd (NewDocument 0)) = (None, doc, n)"
  shows "SecureProcessScripts dec xml =
      Inr (WriteToString (doc\<lparr>d_element := secured (erase (d_element doc))\<rparr>)) \<and>
    map el_view (elements (secured (erase (d_element doc)))) =
      map secured_view (elements (d_element doc))"
  using secure_scripts_tree [OF assms] by (simp only: elements_secured secured_view_erase simp_thms)

theorem SecureProcessScripts_prefixes_scripts_witness:
  "SecureProcessScripts
     (\<lambda>_. ([RawStart ''bpmn'' ''script'' [], RawCharData ''f(1 < 2)'', RawEnd ''bpmn'' ''script''], None))
     ''doc'' =
   Inr ''<bpmn:script>var java = {}; var execution = {}; f(1 &lt; 2)</bpmn:script>''"
proof -
  let ?dec = "\<lambda>_. ([RawStart ''bpmn'' ''script'' [], RawCharData ''f(1 < 2)'',
    RawEnd ''bpmn'' ''script''], None)"
  let ?doc = "\<lparr>d_element = Element 0 '''' '''' []
      [Element 1 ''bpmn'' ''script'' [] [CharData 2 ''f(1 < 2)'' False]],
    d_settings = newWriteSettings\<rparr>"
  have "ReadFromString ?dec ''doc'' (fst (NewDocument 0)) (snd (NewDocument 0)) = (None, ?doc, 3)"
    by code_simp
  from SecureProcessScripts_prefixes_scripts [OF this]
  have "SecureProcessScripts ?dec ''doc'' =
    Inr (WriteToString (?doc\<lparr>d_element := secured (erase (d_element ?doc))\<rparr>))" by (rule conjunct1)
  also have "WriteToString (?doc\<lparr>d_element := secured (erase (d_element ?doc))\<rparr>) =
    ''<bpmn:script>var java = {}; var execution = {}; f(1 &lt; 2)</bpmn:script>''" by code_simp
  finally show ?thesis .
qed

text \<open>
  C25: \<open>SetProcessId\<close> on any document that can be read: the \<open>bpmn:process\<close> elements are found
  each once and numbered, and the result is exactly the document with their \<open>id\<close> attributes set,
  written back: the \<open>id\<close> of the one with number 0 becomes \<open>deplid_\<close> and the deployment id, in which
  \<open>_\<close> stands for each \<open>-\<close>, \<open>:\<close> and \<open>#\<close>, that of each other one the same with \<open>_\<close> and its number. A process
  without an \<open>id\<close> stays as it is; every other attribute, element, text, comment, directive and
  instruction of the document is the same, at the same place.
\<close>

theorem SetProcessId_numbers_processes:
  assumes "ReadFromString dec xml (fst (NewDocument 0)) (snd (NewDocument 0)) = (None, doc, n)"
  shows "\<exists>els. distinct (map addr els) \<and> mset els = mset (filter is_process (elements (d_element doc))) \<and>
    SetProcessId dec xml i = Inr (WriteToString (doc\<lparr>d_element :=
      numbered i (map_of (zip (map addr els) [0..<length els])) (d_element doc)\<rparr>))"
proof -
  obtain els where els: "FindElements (d_element doc) (d_element doc) ''//bpmn:process'' = Some els"
    "distinct (map addr els)" "mset els = mset (filter is_process (elements (d_element doc)))"
    using find_processes [OF assms] by blast
  with set_process_id_tree [OF assms els(1,2), of i] show ?thesis by (auto simp: edited_numbered)
qed

theorem SetProcessId_numbers_processes_witness:
  "SetProcessId
     (\<lambda>_. ([RawStart ''bpmn'' ''process'' [('''', ''id'', ''P'')], RawCharData ''x'', RawComment ''c'',
            RawEnd ''bpmn'' ''process''], None))
     ''doc'' ''a-b:c#d'' =
   Inr (''<bpmn:process id='' @ [CHR 0x22] @ ''deplid_a_b_c_d'' @ [CHR 0x22] @ ''>x<!--c--></bpmn:process>'')"
proof -
  let ?as = "[\<lparr>a_space = '''', a_key = ''id'', a_value = ''P''\<rparr>]"
  let ?dec = "\<lambda>_. ([RawStart ''bpmn'' ''process'' [('''', ''id'', ''P'')], RawCharData ''x'', RawComment ''c'',
            RawEnd ''bpmn'' ''process''], None)"
  let ?p = "Element 1 ''bpmn'' ''process'' ?as [CharData 2 ''x'' False, Comment 3 ''c'']"
  let ?r = "Element 0 '''' '''' [] [?p]"
  let ?doc = "\<lparr>d_element = ?r, d_settings = newWriteSettings\<rparr>"
  have "ReadFromString ?dec ''doc'' (fst (NewDocument 0)) (snd (NewDocument 0)) = (None, ?doc, 4)"
    by code_simp
  from SetProcessId_numbers_processes [OF this, of "''a-b:c#d''"] obtain els where *:
    "mset els = mset (filter is_process (elements ?r))"
    "SetProcessId ?dec ''doc'' ''a-b:c#d'' = Inr (WriteToString (?doc\<lparr>d_element :=
       numbered ''a-b:c#d'' (map_of (zip (map addr els) [0..<length els])) ?r\<rparr>))"
    by auto
  have "filter is_process (elements ?r) = [?p]" by code_simp
  with *(1) have "mset els = mset [?p]" by metis
  then have "els = [?p]" by simp
  then have "map_of (zip (map addr els) [0..<length els]) = map_of [(1, 0)]" by simp
  moreover have "WriteToString (?doc\<lparr>d_element := numbered ''a-b:c#d'' (map_of [(1, 0)]) ?r\<rparr>) =
      ''<bpmn:process id='' @ [CHR 0x22] @ ''deplid_a_b_c_d'' @ [CHR 0x22] @ ''>x<!--c--></bpmn:process>''"
    by code_simp
  ultimately show ?thesis using *(2) by simp
qed

text \<open>
  rewriting never ends in a recovered panic: both rewriting steps fail exactly when the
  document cannot be read, with the reader's error.
\<close>

theorem rewriting_fails_as_reading:
  "(SecureProcessScripts dec xml = Inl err \<longleftrightarrow>
      fst (ReadFromString dec xml (fst (NewDocument 0)) (snd (NewDocument 0))) = Some err) \<and>
   (SetProcessId dec xml i = Inl err \<longleftrightarrow>
      fst (ReadFromString dec xml (fst (NewDocument 0)) (snd (NewDocument 0))) = Some err)"
proof -
  obtain e doc n where r:
    "ReadFromString dec xml (fst (NewDocument 0)) (snd (NewDocument 0)) = (e, doc, n)"
    by (metis prod_cases3)
  show ?thesis
  proof (cases e)
    case None
    with r have r0:
      "ReadFromString dec xml (fst (NewDocument 0)) (snd (NewDocument 0)) = (None, doc, n)" by simp
    obtain els where "FindElements (d_element doc) (d_element doc) ''//bpmn:process'' = Some els"
      "distinct (map addr els)" using find_processes [OF r0] by blast
    from set_process_id_tree [OF r0 this, of i] secure_scripts_tree [OF r0] None r
    show ?thesis by simp
  next
    case (Some x)
    with r show ?thesis by (auto simp: SecureProcessScripts_def SetProcessId_def NewDocument_def)
  qed
qed

text \<open>
  the ids of the processes of one document are pairwise distinct, and carry none of the
  characters that the normalization replaces.
\<close>

theorem process_ids_distinct:
  "distinct (map (processId (normalizedId i)) [0..<n]) \<and>
   (\<forall>k. \<not> list_ex (\<lambda>c. c = CHR ''-'' \<or> c = CHR '':'' \<or> c = CHR ''#'') (processId (normalizedId i) k))"
proof
  show "distinct (map (processId (normalizedId i)) [0..<n])"
    by (auto simp: distinct_map inj_on_def dest: processId_inj)
  have "set (normalizedId i) \<inter> {CHR ''-'', CHR '':'', CHR ''#''} = {}"
    using set_byte_replacer [of "[(CHR ''-'', ''_''), (CHR '':'', ''_''), (CHR ''#'', ''_'')]" i]
    by (auto simp: normalizedId_def)
  moreover have "set (itoa k) \<inter> {CHR ''-'', CHR '':'', CHR ''#''} = {}" for k
    using itoa_digits [of k] by (auto simp: list_all_iff is_digit_char_def)
  ultimately show "\<forall>k. \<not> list_ex (\<lambda>c. c = CHR ''-'' \<or> c = CHR '':'' \<or> c = CHR ''#'')
      (processId (normalizedId i) k)"
    unfolding list_ex_iff processId_def by (auto simp: disjoint_iff)
qed

end
