(* ===== verification/System.thy ===== *)
theory System
  imports Auth Vid Bpmn
begin

text \<open>
  The running wrapper: the state that its operations share (the two databases with the cache, the
  access token, the counter of events, the environment) and what they call outside (\<open>system\<close>).
  \<open>sent\<close> records the requests in order; no operation reads it, the properties do.
  \<open>lib/camunda/request.go\<close>, \<open>lib/notification\<close> and \<open>lib/processio\<close> are here, because the
  operations of the others use them.
\<close>

section \<open>State and surroundings\<close>

record ('e, 'c) world =
  env :: 'e
  shards :: "'c \<times> shard_db sql"
  vids :: "vid_db sql"
  access :: OpenidToken
  event_messages :: nat
  sent :: "request list"

text \<open>
  What the operations are given: the network and the clock (on the environment), a URL without its
  user and password (\<open>url.Parse\<close>, \<open>User\<close> reset, \<open>String\<close>; only in texts of errors), the methods of
  the cache at the two types of values, the order in which maps are visited, the configuration,
  the three methods of the client of the incident service (another module), the decoders of XML and
  JSON texts, the parser of JWTs (a library), which reads the claims, and the generated description
  of the API. \<open>body_error\<close>: the error, if any, that ended reading the body of the reply received last
  (the bytes read before it are the body in the reply), for the two readers of a body that look at it.
\<close>

record ('e, 'c) system =
  http :: "request \<Rightarrow> 'e \<Rightarrow> reply \<times> 'e"
  clock :: "'e \<Rightarrow> rat"
  time_text :: "'e \<Rightarrow> string"
  anonymous_url :: "string \<Rightarrow> string"
  cache_use :: "string \<Rightarrow> (shard_db sql \<Rightarrow> string res \<times> shard_db sql) \<Rightarrow> 'c \<times> shard_db sql \<Rightarrow>
                 string res \<times> 'c \<times> shard_db sql"
  cache_use_list :: "string \<Rightarrow> (shard_db sql \<Rightarrow> string list res \<times> shard_db sql) \<Rightarrow> 'c \<times> shard_db sql \<Rightarrow>
                 string list res \<times> 'c \<times> shard_db sql"
  map_order :: "(string \<times> int) list \<Rightarrow> (string \<times> int) list"
  auth_cfg :: auth_config
  ProcessIoUrl :: string
  NotificationUrl :: string
  SetOnIncidentHandler :: "string \<Rightarrow> bool \<Rightarrow> bool \<Rightarrow> 'e \<Rightarrow> goerror option \<times> 'e"
  DeleteIncidentByProcessDefinitionId :: "string \<Rightarrow> 'e \<Rightarrow> goerror option \<times> 'e"
  DeleteIncidentByProcessInstanceId :: "string \<Rightarrow> 'e \<Rightarrow> (goerror option \<times> int) \<times> 'e"
  xml_decoder :: "string \<Rightarrow> decoded"
  xml_unmarshal :: "string \<Rightarrow> goerror option"
  json_decoder :: "string \<Rightarrow> json res"
  parse_jwt :: "string \<Rightarrow> Token res"
  ReadDoc :: "string res"
  body_error :: "'e \<Rightarrow> goerror option"

type_synonym ('e, 'c, 'a) act = "('e, 'c) world \<Rightarrow> 'a res \<times> ('e, 'c) world"

definition return :: "'a \<Rightarrow> ('e, 'c, 'a) act" where
  "return x w = (Inr x, w)"

definition fail_with :: "goerror \<Rightarrow> ('e, 'c, 'a) act" where
  "fail_with err w = (Inl err, w)"

definition on_vids :: "(vid_db sql \<Rightarrow> 'a \<times> vid_db sql) \<Rightarrow> ('e, 'c) world \<Rightarrow> 'a \<times> ('e, 'c) world" where
  "on_vids m w = (case m (vids w) of (r, s) \<Rightarrow> (r, w\<lparr>vids := s\<rparr>))"

definition on_shards ::
  "('c \<times> shard_db sql \<Rightarrow> 'a \<times> 'c \<times> shard_db sql) \<Rightarrow> ('e, 'c) world \<Rightarrow> 'a \<times> ('e, 'c) world" where
  "on_shards m w = (case m (shards w) of (r, s) \<Rightarrow> (r, w\<lparr>shards := s\<rparr>))"

definition ensure_shard :: "('e, 'c) system \<Rightarrow> string \<Rightarrow> ('e, 'c, string) act" where
  "ensure_shard sys userId = on_shards (EnsureShardForUser (cache_use sys) (map_order sys) userId)"

definition get_shards :: "('e, 'c) system \<Rightarrow> ('e, 'c, string list) act" where
  "get_shards sys = on_shards (GetShards (cache_use_list sys))"

section \<open>Requests\<close>

definition send :: "('e, 'c) system \<Rightarrow> request \<Rightarrow> ('e, 'c) world \<Rightarrow> reply \<times> ('e, 'c) world" where
  "send sys rq w =
     (case http sys rq (env w) of (rp, e) \<Rightarrow> (rp, w\<lparr>env := e, sent := sent w @ [rq]\<rparr>))"

text \<open>\<open>Get\<close> of \<open>request.go\<close>: status below 300, then decode; \<open>dec\<close> is the type of \<open>result\<close>.\<close>

definition Get :: "('e, 'c) system \<Rightarrow> (json \<Rightarrow> 'a res) \<Rightarrow> string \<Rightarrow> ('e, 'c, 'a) act" where
  "Get sys dec url w =
     (case send sys (get_request url) w of
        (HttpFail err, w1) \<Rightarrow> (Inl err, w1)
      | (Reply st status body js, w1) \<Rightarrow>
          if st \<ge> 300 then (Inl (HttpError (status @ '' '' @ body)), w1)
          else (Sum_Type.case_sum Inl dec js, w1))"

text \<open>
  A request whose reply counts as success for some status codes; \<open>msg\<close> makes the error of the
  others from the status text and the body.
\<close>

definition request_ok ::
  "('e, 'c) system \<Rightarrow> request \<Rightarrow> (int \<Rightarrow> bool) \<Rightarrow> (string \<Rightarrow> string \<Rightarrow> string) \<Rightarrow> ('e, 'c, string \<times> json res) act"
  where
  "request_ok sys rq good msg w =
     (case send sys rq w of
        (HttpFail err, w1) \<Rightarrow> (Inl err, w1)
      | (Reply st status body js, w1) \<Rightarrow>
          if good st then (Inr (body, js), w1) else (Inl (HttpError (msg status body)), w1))"

section \<open>Notifications\<close>

record Message =
  ms_UserId :: string
  ms_Title :: string
  ms_Message :: string

definition Send :: "('e, 'c) system \<Rightarrow> string \<Rightarrow> Message \<Rightarrow> ('e, 'c, unit) act" where
  "Send sys notificationUrl message =
     (if notificationUrl = '''' then return ()
      else andThen (request_ok sys
             (post_request (notificationUrl @ ''/notifications'') ''application/json''
               (JsonBody (JObj [(''userId'', JStr (ms_UserId message)), (''title'', JStr (ms_Title message)),
                  (''message'', JStr (ms_Message message))])))
             (\<lambda>st. st < 300) (\<lambda>status body. ''unexpected response status from notifier '' @ status))
           (\<lambda>_. return ()))"

section \<open>The process-io service\<close>

definition ensure_access :: "('e, 'c) system \<Rightarrow> ('e, 'c, string) act" where
  "ensure_access sys w =
     (let net = (\<lambda>rq (e, tr). case http sys rq e of (rp, e1) \<Rightarrow> (rp, e1, tr @ [rq]))
      in case EnsureAccess net (\<lambda>(e, tr). clock sys e) (auth_cfg sys) (access w, env w, sent w) of
           (r, tok, e, tr) \<Rightarrow> (r, w\<lparr>access := tok, env := e, sent := tr\<rparr>))"

definition process_io_delete :: "('e, 'c) system \<Rightarrow> string \<Rightarrow> ('e, 'c, unit) act" where
  "process_io_delete sys path =
     andThen (ensure_access sys) (\<lambda>tok.
     andThen (request_ok sys ((delete_request (ProcessIoUrl sys @ path))\<lparr>rq_auth := tok\<rparr>)
                (\<lambda>st. st < 300) (\<lambda>status body. body)) (\<lambda>_. return ()))"

definition DeleteProcessDefinition :: "('e, 'c) system \<Rightarrow> string \<Rightarrow> ('e, 'c, unit) act" where
  "DeleteProcessDefinition sys definitionId =
     process_io_delete sys (''/process-definitions/'' @ PathEscape definitionId)"

definition DeleteProcessInstance :: "('e, 'c) system \<Rightarrow> string \<Rightarrow> ('e, 'c, unit) act" where
  "DeleteProcessInstance sys instanceId =
     process_io_delete sys (''/process-instances/'' @ PathEscape instanceId)"

text \<open>\<open>NewOrNil\<close>: without a URL there is no process-io, and the operations skip it.\<close>

definition has_process_io :: "('e, 'c) system \<Rightarrow> bool" where
  "has_process_io sys \<longleftrightarrow> ProcessIoUrl sys \<noteq> ''''"

section \<open>What an operation leaves alone\<close>

text \<open>
  \<open>always P m\<close>: the states before and after \<open>m\<close> are related by \<open>P\<close>. For a preorder, this is closed
  under the ways the code combines operations; the contract is stated once and interpreted for
  every such relation, so that it is proved for an operation by introduction rules alone.
\<close>

definition always ::
  "(('e, 'c) world \<Rightarrow> ('e, 'c) world \<Rightarrow> bool) \<Rightarrow> (('e, 'c) world \<Rightarrow> 'a \<times> ('e, 'c) world) \<Rightarrow> bool" where
  "always P m \<longleftrightarrow> (\<forall>w. P w (snd (m w)))"

lemma alwaysI: "(\<And>w r w1. m w = (r, w1) \<Longrightarrow> P w w1) \<Longrightarrow> always P m"
  unfolding always_def by (metis prod.collapse)

lemma alwaysD: "always P m \<Longrightarrow> m w = (r, w1) \<Longrightarrow> P w w1"
  unfolding always_def by (metis snd_conv)

lemma always_cases:
  "always P a \<Longrightarrow> always P b \<Longrightarrow> always P (if c then a else b)"
  "always P a' \<Longrightarrow> (\<And>x. always P (b' x)) \<Longrightarrow> always P (case z of None \<Rightarrow> a' | Some x \<Rightarrow> b' x)"
  "always P a'' \<Longrightarrow> (\<And>x xs. always P (b'' x xs)) \<Longrightarrow>
     always P (case l of [] \<Rightarrow> a'' | x # xs \<Rightarrow> b'' x xs)"
  "(\<And>x. always P (k1 x)) \<Longrightarrow> (\<And>x. always P (k2 x)) \<Longrightarrow>
     always P (case y of Inl x \<Rightarrow> k1 x | Inr x \<Rightarrow> k2 x)"
  by (simp_all split: option.split list.split sum.split)

locale world_preorder =
  fixes P :: "('e, 'c) world \<Rightarrow> ('e, 'c) world \<Rightarrow> bool"
  assumes refl: "P w w"
    and trans: "P w w1 \<Longrightarrow> P w1 w2 \<Longrightarrow> P w w2"
begin

lemma pure: "always P (return x)" "always P (fail_with err)"
  by (simp_all add: always_def return_def fail_with_def refl)

lemma seq:
  assumes "always P m" and "\<And>x. always P (k x)"
  shows "always P (andThen m k)"
proof (rule alwaysI)
  fix w r w1 assume "andThen m k w = (r, w1)"
  then show "P w w1"
    using alwaysD [OF assms(1)] alwaysD [OF assms(2)] trans
    by (fastforce simp: andThen_def split: prod.splits sum.splits)
qed

end

text \<open>
  The same for a preorder that no request, no use of the shards and no change of the environment
  leaves: the operations of the engine and of the other services keep it.
\<close>

locale engine_preorder = world_preorder P for P :: "('e, 'c) world \<Rightarrow> ('e, 'c) world \<Rightarrow> bool" +
  fixes sys :: "('e, 'c) system"
  assumes outside: "P w (w\<lparr>env := e\<rparr>)"
    and sends: "always P (send sys rq)"
    and uses_shards: "always P (ensure_shard sys u)" "always P (get_shards sys)"
    and gets_access: "always P (ensure_access sys)"
begin

lemma Gets: "always P (Get sys dec url)"
  using alwaysD [OF sends]
  by (fastforce simp: Get_def intro!: alwaysI split: prod.splits reply.splits if_splits)

lemma requests: "always P (request_ok sys rq good msg)"
  using alwaysD [OF sends]
  by (fastforce simp: request_ok_def intro!: alwaysI split: prod.splits reply.splits if_splits)

lemma notifies: "always P (Send sys url msg)"
  unfolding Send_def by (intro always_cases seq pure requests)

lemma process_io:
  "always P (DeleteProcessDefinition sys i)" "always P (DeleteProcessInstance sys i)"
  unfolding DeleteProcessDefinition_def DeleteProcessInstance_def process_io_delete_def
  by (intro seq pure requests gets_access)+

lemmas operations = pure seq always_cases [of P] uses_shards gets_access Gets requests notifies process_io

end

abbreviation leaves_vids :: "(('e, 'c) world \<Rightarrow> 'a \<times> ('e, 'c) world) \<Rightarrow> bool" where
  "leaves_vids \<equiv> always (\<lambda>w w1. vids w1 = vids w)"

interpretation leaves: engine_preorder "\<lambda>w w1. vids w1 = vids w" sys for sys :: "('e, 'c) system"
  by unfold_locales
    (auto simp: always_def send_def ensure_shard_def get_shards_def on_shards_def ensure_access_def Let_def
      split: prod.split)

lemmas leaves_vids_def = always_def [of "\<lambda>w w1. vids w1 = vids w"]
lemmas leaves_vidsI = alwaysI [of _ "\<lambda>w w1. vids w1 = vids w"]
lemmas leaves_vidsD = alwaysD [of "\<lambda>w w1. vids w1 = vids w"]

section \<open>Requests that were made\<close>

lemma Get_sent:
  "Get sys dec url w = (r, w1) \<Longrightarrow> sent w1 = sent w @ [get_request url] \<and> shards w1 = shards w"
  by (auto simp: Get_def send_def split: prod.splits reply.splits if_splits)

lemma ensure_shard_sent:
  "ensure_shard sys u w = (r, w1) \<Longrightarrow> sent w1 = sent w \<and> vids w1 = vids w \<and> env w1 = env w"
  by (auto simp: ensure_shard_def on_shards_def split: prod.splits)

end
