(* ===== verification/Camunda.thy ===== *)
theory Camunda
  imports System
begin

text \<open>
  The client of the Camunda engines (\<open>lib/camunda/camunda.go\<close>): every operation first ensures the
  shard of the user and then talks to that engine. The error values are those of the code;
  texts of errors are kept where the code builds them.
\<close>

section \<open>Starting processes\<close>

text \<open>A Go map with JSON values; the encoder writes its keys in order.\<close>

definition json_map :: "(string \<times> json) list \<Rightarrow> json" where
  "json_map m = JObj (sort_key fst m)"

definition createStartMessage :: "(string \<times> json) list \<Rightarrow> string \<Rightarrow> json" where
  "createStartMessage parameter businessKey =
     (let result = (if businessKey \<noteq> '''' then [(''businessKey'', JStr businessKey)] else [])
      in if length parameter = 0 then json_map result
         else json_map (result @
           [(''variables'', json_map (map (\<lambda>(key, val). (key, json_map [(''value'', val)])) parameter))]))"

definition status_and_body :: "string \<Rightarrow> string \<Rightarrow> string" where
  "status_and_body status body = status @ '' '' @ body"

definition start_request :: "string \<Rightarrow> string \<Rightarrow> json \<Rightarrow> request" where
  "start_request shard processDefinitionId message =
     post_request (shard @ ''/engine-rest/process-definition/'' @ QueryEscape processDefinitionId @ ''/submit-form'')
       ''application/json'' (JsonBody message)"

definition StartProcess ::
  "('e, 'c) system \<Rightarrow> string \<Rightarrow> string \<Rightarrow> string \<Rightarrow> (string \<times> json) list \<Rightarrow> ('e, 'c, unit) act" where
  "StartProcess sys processDefinitionId businessKey userId parameter =
     andThen (ensure_shard sys userId) (\<lambda>shard.
     andThen (request_ok sys (start_request shard processDefinitionId (createStartMessage parameter businessKey))
                (\<lambda>st. st = 200) status_and_body) (\<lambda>_. return ()))"

definition decoded_reply :: "(json \<Rightarrow> 'a res) \<Rightarrow> string \<times> json res \<Rightarrow> ('e, 'c, 'a) act" where
  "decoded_reply dec rp w = (Sum_Type.case_sum Inl dec (snd rp), w)"

definition StartProcessGetId ::
  "('e, 'c) system \<Rightarrow> string \<Rightarrow> string \<Rightarrow> string \<Rightarrow> (string \<times> json) list \<Rightarrow> ('e, 'c, ProcessInstance) act"
  where
  "StartProcessGetId sys processDefinitionId businessKey userId parameter =
     andThen (ensure_shard sys userId) (\<lambda>shard.
     andThen (request_ok sys (start_request shard processDefinitionId (createStartMessage parameter businessKey))
                (\<lambda>st. st = 200) status_and_body) (decoded_reply decode_ProcessInstance))"

section \<open>Access checks\<close>

definition definition_url :: "string \<Rightarrow> string \<Rightarrow> string" where
  "definition_url shard i = shard @ ''/engine-rest/process-definition/'' @ QueryEscape i"

definition deployment_url :: "string \<Rightarrow> string \<Rightarrow> string" where
  "deployment_url shard i = shard @ ''/engine-rest/deployment/'' @ QueryEscape i"

definition instance_url :: "string \<Rightarrow> string \<Rightarrow> string" where
  "instance_url shard i = shard @ ''/engine-rest/process-instance/'' @ QueryEscape i"

definition history_url :: "string \<Rightarrow> string \<Rightarrow> string" where
  "history_url shard i = shard @ ''/engine-rest/history/process-instance/'' @ QueryEscape i"

definition CheckProcessDefinitionAccess :: "('e, 'c) system \<Rightarrow> string \<Rightarrow> string \<Rightarrow> ('e, 'c, unit) act" where
  "CheckProcessDefinitionAccess sys i userId =
     andThen (ensure_shard sys userId) (\<lambda>shard.
     andThen (Get sys decode_ProcessDefinition (definition_url shard i)) (\<lambda>d.
       if pd_TenantId d \<noteq> userId then fail_with (ErrMsg ''access denied'') else return ()))"

definition CheckDeploymentAccess :: "('e, 'c) system \<Rightarrow> string \<Rightarrow> string \<Rightarrow> ('e, 'c, unit) act" where
  "CheckDeploymentAccess sys vid userId =
     andThen (ensure_shard sys userId) (\<lambda>shard.
     andThen (on_vids (GetDeploymentId vid)) (\<lambda>found.
       (case found of
          None \<Rightarrow> fail_with ErrUnknownVid
        | Some i \<Rightarrow>
            andThen (Get sys decode_CamundaDeployment (deployment_url shard i)) (\<lambda>wrapper.
              if cd_Id wrapper = '''' then fail_with ErrCamundaDeploymentUnknown
              else if cd_TenantId wrapper \<noteq> userId then fail_with ErrAccessDenied
              else return ()))))"

text \<open>
  \<open>CheckProcessInstanceAccess\<close> returns an error and a status code; when the request fails it
  returns the named results as they are, with the code \<open>0\<close>. \<open>ErrAccessDenied\<close> of the code is a
  different value from its \<open>AccessDenied\<close>; both have this text.
\<close>

definition CheckProcessInstanceAccess ::
  "('e, 'c) system \<Rightarrow> string \<Rightarrow> string \<Rightarrow> ('e, 'c) world \<Rightarrow> (goerror option \<times> int) \<times> ('e, 'c) world" where
  "CheckProcessInstanceAccess sys i userId w =
     (case ensure_shard sys userId w of
        (Inl err, w1) \<Rightarrow> ((Some err, 500), w1)
      | (Inr shard, w1) \<Rightarrow>
          (case send sys (get_request (instance_url shard i)) w1 of
             (HttpFail err, w2) \<Rightarrow> ((Some err, 0), w2)
           | (Reply st status body js, w2) \<Rightarrow>
               if st \<noteq> 200 then ((Some (HttpError (status_and_body status body)), st), w2)
               else (case Sum_Type.case_sum Inl decode_ProcessInstance js of
                       Inl err \<Rightarrow> ((Some err, 500), w2)
                     | Inr wrapper \<Rightarrow>
                         if pi_TenantId wrapper \<noteq> userId then ((Some (ErrMsg ''access denied''), 403), w2)
                         else ((None, 200), w2))))"

definition CheckHistoryAccess :: "('e, 'c) system \<Rightarrow> string \<Rightarrow> string \<Rightarrow> ('e, 'c, string) act" where
  "CheckHistoryAccess sys i userId =
     andThen (ensure_shard sys userId) (\<lambda>shard.
     andThen (Get sys decode_HistoricProcessInstance (history_url shard i)) (\<lambda>wrapper.
       if hi_TenantId wrapper \<noteq> userId then fail_with (ErrMsg ''access denied'')
       else return (hi_ProcessDefinitionId wrapper)))"

section \<open>Removing instances\<close>

definition process_io_first :: "('e, 'c) system \<Rightarrow> string \<Rightarrow> ('e, 'c, unit) act" where
  "process_io_first sys i = (if has_process_io sys then DeleteProcessInstance sys i else return ())"

definition delete_error :: "string \<Rightarrow> string \<Rightarrow> string \<Rightarrow> string" where
  "delete_error url status body = ''error on delete in engine for '' @ url @ '': '' @ status_and_body status body"

definition RemoveProcessInstance :: "('e, 'c) system \<Rightarrow> string \<Rightarrow> string \<Rightarrow> ('e, 'c, unit) act" where
  "RemoveProcessInstance sys i userId =
     andThen (process_io_first sys i) (\<lambda>_.
     andThen (ensure_shard sys userId) (\<lambda>shard.
     andThen (request_ok sys (delete_request (instance_url shard i @ ''?skipIoMappings=true''))
                (\<lambda>st. st = 200 \<or> st = 204)
                (delete_error (instance_url (anonymous_url sys shard) i))) (\<lambda>_. return ())))"

definition RemoveProcessInstanceHistory :: "('e, 'c) system \<Rightarrow> string \<Rightarrow> string \<Rightarrow> ('e, 'c, unit) act" where
  "RemoveProcessInstanceHistory sys i userId =
     andThen (process_io_first sys i) (\<lambda>_.
     andThen (ensure_shard sys userId) (\<lambda>shard.
     andThen (request_ok sys (delete_request (history_url shard i)) (\<lambda>st. st = 200 \<or> st = 204)
                (delete_error (history_url (anonymous_url sys shard) i))) (\<lambda>_. return ())))"

section \<open>Lists and counts\<close>

definition engine_get ::
  "('e, 'c) system \<Rightarrow> (json \<Rightarrow> 'a res) \<Rightarrow> string \<Rightarrow> string \<Rightarrow> ('e, 'c, 'a) act" where
  "engine_get sys dec path userId =
     andThen (ensure_shard sys userId) (\<lambda>shard. Get sys dec (shard @ ''/engine-rest/'' @ path))"

definition GetProcessInstanceHistoryByProcessDefinition ::
  "('e, 'c) system \<Rightarrow> string \<Rightarrow> string \<Rightarrow> ('e, 'c, HistoricProcessInstance list) act" where
  "GetProcessInstanceHistoryByProcessDefinition sys i userId =
     engine_get sys (decode_list decode_HistoricProcessInstance)
       (''history/process-instance?processDefinitionId='' @ QueryEscape i) userId"

definition GetProcessInstanceHistoryByProcessDefinitionFinished ::
  "('e, 'c) system \<Rightarrow> string \<Rightarrow> string \<Rightarrow> ('e, 'c, HistoricProcessInstance list) act" where
  "GetProcessInstanceHistoryByProcessDefinitionFinished sys i userId =
     engine_get sys (decode_list decode_HistoricProcessInstance)
       (''history/process-instance?processDefinitionId='' @ QueryEscape i @ ''&finished=true'') userId"

definition GetProcessInstanceHistoryByProcessDefinitionUnfinished ::
  "('e, 'c) system \<Rightarrow> string \<Rightarrow> string \<Rightarrow> ('e, 'c, HistoricProcessInstance list) act" where
  "GetProcessInstanceHistoryByProcessDefinitionUnfinished sys i userId =
     engine_get sys (decode_list decode_HistoricProcessInstance)
       (''history/process-instance?processDefinitionId='' @ QueryEscape i @ ''&unfinished=true'') userId"

definition GetProcessInstanceHistoryList ::
  "('e, 'c) system \<Rightarrow> string \<Rightarrow> ('e, 'c, HistoricProcessInstance list) act" where
  "GetProcessInstanceHistoryList sys userId =
     engine_get sys (decode_list decode_HistoricProcessInstance)
       (''history/process-instance?tenantIdIn='' @ QueryEscape userId) userId"

definition GetFilteredProcessInstanceHistoryList ::
  "('e, 'c) system \<Rightarrow> string \<Rightarrow> url_values \<Rightarrow> ('e, 'c, HistoricProcessInstance list) act" where
  "GetFilteredProcessInstanceHistoryList sys userId query =
     engine_get sys (decode_list decode_HistoricProcessInstance)
       (''history/process-instance?tenantIdIn='' @ QueryEscape userId @ ''&'' @
        values_encode (values_del ''tenantIdIn'' query)) userId"

text \<open>
  The list and its total are two requests; when the second fails, the list is returned with the
  error, which callers treat as a failure.
\<close>

definition GetFilteredProcessInstanceHistoryListWithTotal ::
  "('e, 'c) system \<Rightarrow> string \<Rightarrow> url_values \<Rightarrow> ('e, 'c, HistoricProcessInstancesWithTotal) act" where
  "GetFilteredProcessInstanceHistoryListWithTotal sys userId query =
     andThen (ensure_shard sys userId) (\<lambda>shard.
       let q = values_encode (values_del ''tenantIdIn'' query)
       in andThen (Get sys (decode_list decode_HistoricProcessInstance)
            (shard @ ''/engine-rest/history/process-instance?tenantIdIn='' @ QueryEscape userId @ ''&'' @ q)) (\<lambda>data.
          andThen (Get sys decode_Count
            (shard @ ''/engine-rest/history/process-instance/count?tenantIdIn='' @ QueryEscape userId @ ''&'' @ q))
          (\<lambda>count. return \<lparr>ht_Total = count_Count count, ht_Data = data\<rparr>)))"

definition GetProcessInstanceHistoryListFinished ::
  "('e, 'c) system \<Rightarrow> string \<Rightarrow> ('e, 'c, HistoricProcessInstance list) act" where
  "GetProcessInstanceHistoryListFinished sys userId =
     engine_get sys (decode_list decode_HistoricProcessInstance)
       (''history/process-instance?tenantIdIn='' @ QueryEscape userId @ ''&finished=true'') userId"

definition GetProcessInstanceHistoryListUnfinished ::
  "('e, 'c) system \<Rightarrow> string \<Rightarrow> ('e, 'c, HistoricProcessInstance list) act" where
  "GetProcessInstanceHistoryListUnfinished sys userId =
     engine_get sys (decode_list decode_HistoricProcessInstance)
       (''history/process-instance?tenantIdIn='' @ QueryEscape userId @ ''&unfinished=true'') userId"

definition GetProcessInstanceCount :: "('e, 'c) system \<Rightarrow> string \<Rightarrow> ('e, 'c, Count) act" where
  "GetProcessInstanceCount sys userId =
     engine_get sys decode_Count (''process-instance/count?tenantIdIn='' @ QueryEscape userId) userId"

definition GetProcessInstanceList :: "('e, 'c) system \<Rightarrow> string \<Rightarrow> ('e, 'c, ProcessInstance list) act" where
  "GetProcessInstanceList sys userId =
     engine_get sys (decode_list decode_ProcessInstance)
       (''process-instance?tenantIdIn='' @ QueryEscape userId) userId"

section \<open>Definitions and deployments by virtual id\<close>

definition set_vid_definition :: "ProcessDefinition \<Rightarrow> ('e, 'c, ProcessDefinition) act" where
  "set_vid_definition d =
     on_vids (SetVid ProcessDefinition_GetDeploymentId ProcessDefinition_SetDeploymentId d)"

definition set_vid_deployment :: "CamundaDeployment \<Rightarrow> ('e, 'c, CamundaDeployment) act" where
  "set_vid_deployment d =
     on_vids (SetVid CamundaDeployment_GetDeploymentId CamundaDeployment_SetDeploymentId d)"

definition GetProcessDefinition ::
  "('e, 'c) system \<Rightarrow> string \<Rightarrow> string \<Rightarrow> ('e, 'c, ProcessDefinition) act" where
  "GetProcessDefinition sys i userId =
     andThen (ensure_shard sys userId) (\<lambda>shard.
     andThen (Get sys decode_ProcessDefinition (definition_url shard i)) set_vid_definition)"

text \<open>The reply itself is handed on, whatever its status.\<close>

definition GetProcessDefinitionDiagram ::
  "('e, 'c) system \<Rightarrow> string \<Rightarrow> string \<Rightarrow> ('e, 'c, reply) act" where
  "GetProcessDefinitionDiagram sys i userId =
     andThen (ensure_shard sys userId) (\<lambda>shard w.
       case send sys (get_request (definition_url shard i @ ''/diagram'')) w of
         (HttpFail err, w1) \<Rightarrow> (Inl err, w1)
       | (rp, w1) \<Rightarrow> (Inr rp, w1))"

text \<open>The loop over the deployments: one without a virtual id is left out.\<close>

fun known_deployments :: "CamundaDeployment list \<Rightarrow> ('e, 'c) world \<Rightarrow> CamundaDeployment list \<times> ('e, 'c) world"
  where
  "known_deployments [] w = ([], w)"
| "known_deployments (d # ds) w =
     (case set_vid_deployment d w of
        (r, w1) \<Rightarrow> (case known_deployments ds w1 of
           (rest, w2) \<Rightarrow> ((case r of Inl _ \<Rightarrow> rest | Inr d' \<Rightarrow> d' # rest), w2)))"

definition GetDeploymentList ::
  "('e, 'c) system \<Rightarrow> string \<Rightarrow> url_values \<Rightarrow> ('e, 'c, CamundaDeployment list) act" where
  "GetDeploymentList sys userId params =
     andThen (ensure_shard sys userId) (\<lambda>shard.
     andThen (Get sys (decode_list decode_CamundaDeployment)
                (shard @ ''/engine-rest/deployment?tenantIdIn='' @ QueryEscape userId @ ''&'' @
                 values_encode (values_del ''tenantIdIn'' params))) (\<lambda>temp w.
       (case known_deployments temp w of (ds, w1) \<Rightarrow> (Inr ds, w1))))"

definition GetRawDefinitionsByDeployment ::
  "('e, 'c) system \<Rightarrow> string \<Rightarrow> string \<Rightarrow> ('e, 'c, ProcessDefinition list) act" where
  "GetRawDefinitionsByDeployment sys deploymentId userId =
     engine_get sys (decode_list decode_ProcessDefinition)
       (''process-definition?deploymentId='' @ QueryEscape deploymentId) userId"

fun set_vid_all :: "ProcessDefinition list \<Rightarrow> ('e, 'c, ProcessDefinition list) act" where
  "set_vid_all [] = return []"
| "set_vid_all (d # ds) =
     andThen (set_vid_definition d) (\<lambda>d'. andThen (set_vid_all ds) (\<lambda>ds'. return (d' # ds')))"

definition GetDefinitionByDeploymentVid ::
  "('e, 'c) system \<Rightarrow> string \<Rightarrow> string \<Rightarrow> ('e, 'c, ProcessDefinition list) act" where
  "GetDefinitionByDeploymentVid sys vid userId =
     andThen (on_vids (GetDeploymentId vid)) (\<lambda>found.
       (case found of
          None \<Rightarrow> fail_with ErrUnknownVid
        | Some i \<Rightarrow> andThen (GetRawDefinitionsByDeployment sys i userId) set_vid_all))"

definition GetInstancesByDeploymentVid ::
  "('e, 'c) system \<Rightarrow> string \<Rightarrow> string \<Rightarrow> ('e, 'c, ProcessInstance list) act" where
  "GetInstancesByDeploymentVid sys vid userId =
     andThen (on_vids (GetDeploymentId vid)) (\<lambda>found.
       (case found of
          None \<Rightarrow> fail_with ErrUnknownVid
        | Some i \<Rightarrow> engine_get sys (decode_list decode_ProcessInstance)
            (''process-instance?tenantIdIn='' @ QueryEscape userId @ ''&deploymentId='' @ QueryEscape i) userId))"

definition GetDeployment ::
  "('e, 'c) system \<Rightarrow> string \<Rightarrow> string \<Rightarrow> ('e, 'c, CamundaDeployment) act" where
  "GetDeployment sys vid userId =
     andThen (ensure_shard sys userId) (\<lambda>shard.
     andThen (on_vids (GetDeploymentId vid)) (\<lambda>found.
       (case found of
          None \<Rightarrow> fail_with ErrUnknownVid
        | Some i \<Rightarrow>
            andThen (Get sys decode_CamundaDeployment (deployment_url shard i)) set_vid_deployment)))"

definition GetDeploymentCountByShard ::
  "('e, 'c) system \<Rightarrow> string \<Rightarrow> string \<Rightarrow> ('e, 'c, Count) act" where
  "GetDeploymentCountByShard sys deploymentId shard =
     Get sys decode_Count (shard @ ''/engine-rest/deployment/count?id='' @ QueryEscape deploymentId)"

section \<open>Deploying\<close>

definition CRLF :: string where
  "CRLF = [CHR 0x0D, CHR 0x0A]"

definition quoted :: "string \<Rightarrow> string" where
  "quoted s = [CHR 0x22] @ s @ [CHR 0x22]"

definition file_segment :: "string \<Rightarrow> string \<Rightarrow> string \<Rightarrow> string \<Rightarrow> string" where
  "file_segment field filename typ content =
     ''Content-Disposition: form-data; name='' @ quoted field @ ''; filename='' @ quoted filename @ CRLF @
     ''Content-Type: '' @ typ @ CRLF @ CRLF @ content @ CRLF"

definition value_segment :: "string \<Rightarrow> string \<Rightarrow> string" where
  "value_segment field content =
     ''Content-Disposition: form-data; name='' @ quoted field @ CRLF @ CRLF @ content @ CRLF"

definition payload_segments :: "string \<Rightarrow> string \<Rightarrow> string \<Rightarrow> string \<Rightarrow> string \<Rightarrow> string list" where
  "payload_segments name xml svg owner deploymentSource =
     [file_segment ''data'' (name @ ''.bpmn'') ''text/xml'' xml,
      file_segment ''diagram'' (name @ ''.svg'') ''image/svg+xml'' svg,
      value_segment ''deployment-name'' name,
      value_segment ''deployment-source'' (if deploymentSource = '''' then ''sepl'' else deploymentSource),
      value_segment ''tenant-id'' owner]"

definition buildPayLoad ::
  "string \<Rightarrow> string \<Rightarrow> string \<Rightarrow> string \<Rightarrow> string \<Rightarrow> string \<Rightarrow> string" where
  "buildPayLoad name xml svg boundary owner deploymentSource =
     ''--'' @ boundary @ CRLF @
     str_join (payload_segments name xml svg owner deploymentSource) (''--'' @ boundary @ CRLF) @
     ''--'' @ boundary @ ''--'' @ CRLF"

definition deployProcess ::
  "('e, 'c) system \<Rightarrow> string \<Rightarrow> string \<Rightarrow> string \<Rightarrow> string \<Rightarrow> string \<Rightarrow> ('e, 'c, string \<rightharpoonup> json) act" where
  "deployProcess sys name xml svg owner source =
     andThen (ensure_shard sys owner) (\<lambda>shard w.
       let boundary = ''---------------------------'' @ time_text sys (env w)
       in andThen (request_ok sys
            (post_request (shard @ ''/engine-rest/deployment/create'')
               (''multipart/form-data; boundary='' @ boundary)
               (TextBody (buildPayLoad name xml svg boundary owner source)))
            (\<lambda>st. True) status_and_body) (decoded_reply decode_map) w)"

definition format_int :: "int \<Rightarrow> string" where
  "format_int i = (if i < 0 then ''-'' @ itoa (nat (- i)) else itoa (nat i))"

definition CreateBlankSvg :: string where
  "CreateBlankSvg =
     ''<svg xmlns='' @ quoted ''http://www.w3.org/2000/svg'' @
     '' xmlns:xlink='' @ quoted ''http://www.w3.org/1999/xlink'' @
     '' version='' @ quoted ''1.2'' @ '' id='' @ quoted ''Layer_1'' @
     '' x='' @ quoted ''0px'' @ '' y='' @ quoted ''0px'' @ '' viewBox='' @ quoted ''0 0 20 16'' @
     '' xml:space='' @ quoted ''preserve'' @ ''>'' @ [CHR 0x0A] @
     ''<path fill='' @ quoted ''#D61F33'' @
     '' d='' @ quoted ''M10,0L0,16h20L10,0z M11,13.908H9v-2h2V13.908z M9,10.908v-6h2v6H9z'' @ ''/>'' @ [CHR 0x0A] @
     ''</svg>''"

definition apos :: "string \<Rightarrow> string" where
  "apos s = [CHR 0x27] @ s @ [CHR 0x27]"

text \<open>The template in two parts: up to and including the first \<open>PROCESSID\<close>, and the rest.\<close>

definition blank_template :: string where
  "blank_template =
     ''<bpmn:definitions xmlns:xsi='' @ apos ''http://www.w3.org/2001/XMLSchema-instance'' @
     '' xmlns:bpmn='' @ apos ''http://www.omg.org/spec/BPMN/20100524/MODEL'' @
     '' xmlns:bpmndi='' @ apos ''http://www.omg.org/spec/BPMN/20100524/DI'' @
     '' xmlns:dc='' @ apos ''http://www.omg.org/spec/DD/20100524/DC'' @
     '' id='' @ apos ''Definitions_1'' @ '' targetNamespace='' @ apos ''http://bpmn.io/schema/bpmn'' @
     ''><bpmn:process id='' @ apos ''PROCESSID'' @ '' isExecutable='' @ apos ''true'' @
     ''><bpmn:startEvent id='' @ apos ''StartEvent_1'' @
     ''/></bpmn:process><bpmndi:BPMNDiagram id='' @ apos ''BPMNDiagram_1'' @
     ''><bpmndi:BPMNPlane id='' @ apos ''BPMNPlane_1'' @ '' bpmnElement='' @ apos ''PROCESSID'' @
     ''><bpmndi:BPMNShape id='' @ apos ''_BPMNShape_StartEvent_2'' @ '' bpmnElement='' @ apos ''StartEvent_1'' @
     ''><dc:Bounds x='' @ apos ''173'' @ '' y='' @ apos ''102'' @ '' width='' @ apos ''36'' @
     '' height='' @ apos ''36'' @ ''/></bpmndi:BPMNShape></bpmndi:BPMNPlane></bpmndi:BPMNDiagram></bpmn:definitions>''"

definition CreateBlankProcess :: "rat \<Rightarrow> string" where
  "CreateBlankProcess t = replace_first blank_template ''PROCESSID'' (''id_'' @ format_int (floor t))"

definition json_string :: "json option \<Rightarrow> string option" where
  "json_string j = (case j of Some (JStr s) \<Rightarrow> Some s | _ \<Rightarrow> None)"

text \<open>
  \<open>DeployProcess\<close>: when the engine reports a \<open>ProcessEngineException\<close>, the user is notified and a
  placeholder is deployed instead; an empty id is an error.
\<close>

definition uninterpretable :: goerror where
  "uninterpretable = ErrMsg ''unable to interpret process engine deployment response''"

definition nonempty_id :: "string \<Rightarrow> string \<Rightarrow> ('e, 'c, string) act" where
  "nonempty_id xml deploymentId =
     (if deploymentId = '''' then fail_with (ErrMsg (''process-engine didnt deploy process: '' @ xml))
      else return deploymentId)"

definition deploy_placeholder ::
  "('e, 'c) system \<Rightarrow> string \<Rightarrow> string \<Rightarrow> string \<Rightarrow> string \<Rightarrow> (string \<rightharpoonup> json) \<Rightarrow> ('e, 'c, string) act" where
  "deploy_placeholder sys name xml owner source responseWrapper w =
     (let msg = (case json_string (responseWrapper ''message'') of Some m \<Rightarrow> m | None \<Rightarrow> '''');
          w1 = snd (Send sys (NotificationUrl sys)
                 \<lparr>ms_UserId = owner, ms_Title = ''Deployment Error: ProcessEngineException'', ms_Message = msg\<rparr> w)
      in case deployProcess sys name (CreateBlankProcess (clock sys (env w1))) CreateBlankSvg owner source w1 of
           (Inl err, w2) \<Rightarrow> (Inl uninterpretable, w2)
         | (Inr responseWrapper2, w2) \<Rightarrow>
             (case json_string (responseWrapper2 ''id'') of
                None \<Rightarrow> (Inl uninterpretable, w2)
              | Some i \<Rightarrow> nonempty_id xml i w2))"

definition DeployProcess ::
  "('e, 'c) system \<Rightarrow> string \<Rightarrow> string \<Rightarrow> string \<Rightarrow> string \<Rightarrow> string \<Rightarrow> ('e, 'c, string) act" where
  "DeployProcess sys name xml svg owner source =
     andThen (deployProcess sys name xml svg owner source) (\<lambda>responseWrapper.
       (case json_string (responseWrapper ''id'') of
          Some i \<Rightarrow> nonempty_id xml i
        | None \<Rightarrow>
            if json_string (responseWrapper ''type'') = Some ''ProcessEngineException''
            then deploy_placeholder sys name xml owner source responseWrapper
            else fail_with uninterpretable))"

section \<open>Removing deployments\<close>

definition RemoveProcessForShard :: "('e, 'c) system \<Rightarrow> string \<Rightarrow> string \<Rightarrow> ('e, 'c, unit) act" where
  "RemoveProcessForShard sys deploymentId shard =
     andThen (GetDeploymentCountByShard sys deploymentId shard) (\<lambda>count.
       if count_Count count = 0 then return ()
       else andThen (request_ok sys
              (delete_request (shard @ ''/engine-rest/deployment/'' @ deploymentId @
                 ''?cascade=true&skipIoMappings=true''))
              (\<lambda>st. \<not> (st \<ge> 300 \<and> st \<noteq> 404)) (\<lambda>status body. status)) (\<lambda>_. return ()))"

definition RemoveProcess :: "('e, 'c) system \<Rightarrow> string \<Rightarrow> string \<Rightarrow> ('e, 'c, unit) act" where
  "RemoveProcess sys deploymentId userId =
     andThen (ensure_shard sys userId) (\<lambda>shard. RemoveProcessForShard sys deploymentId shard)"

fun remove_from_shards :: "('e, 'c) system \<Rightarrow> string \<Rightarrow> string list \<Rightarrow> ('e, 'c, unit) act" where
  "remove_from_shards sys deploymentId [] = return ()"
| "remove_from_shards sys deploymentId (shard # rest) =
     andThen (RemoveProcessForShard sys deploymentId shard) (\<lambda>_. remove_from_shards sys deploymentId rest)"

definition RemoveProcessFromAllShards :: "('e, 'c) system \<Rightarrow> string \<Rightarrow> ('e, 'c, unit) act" where
  "RemoveProcessFromAllShards sys deploymentId =
     andThen (get_shards sys) (remove_from_shards sys deploymentId)"

section \<open>Extended lists, events, variables\<close>

text \<open>\<open>io.ReadAll\<close> of the body of a reply that was just received.\<close>

definition reply_body :: "reply \<Rightarrow> string" where
  "reply_body rp = (case rp of Reply st status b js \<Rightarrow> b | HttpFail err \<Rightarrow> '''')"

definition read_body :: "('e, 'c) system \<Rightarrow> reply \<Rightarrow> ('e, 'c, string) act" where
  "read_body sys rp w =
     (case body_error sys (env w) of None \<Rightarrow> (Inr (reply_body rp), w) | Some err \<Rightarrow> (Inl err, w))"

definition GetExtendedDeployment ::
  "('e, 'c) system \<Rightarrow> CamundaDeployment \<Rightarrow> string \<Rightarrow> ('e, 'c, ExtendedDeployment) act" where
  "GetExtendedDeployment sys deployment userId =
     andThen (GetDefinitionByDeploymentVid sys (cd_Id deployment) userId) (\<lambda>definitions.
       if length definitions < 1 then fail_with (ErrMsg ''missing definition for given deployment'')
       else if length definitions > 1 then fail_with (ErrMsg ''more than one definition for given deployment'')
       else andThen (GetProcessDefinitionDiagram sys (pd_Id (definitions ! 0)) userId) (\<lambda>svgResp.
         andThen (read_body sys svgResp) (\<lambda>svg.
         return \<lparr>ed_deployment = deployment, ed_Diagram = svg,
                 ed_DefinitionId = pd_Id (definitions ! 0), ed_Error = ''''\<rparr>)))"

text \<open>\<open>err.Error()\<close>: the text of an error.\<close>

definition error_text :: "goerror \<Rightarrow> string" where
  "error_text e =
     (case e of ErrMsg m \<Rightarrow> m | ErrShardNotFound \<Rightarrow> ''no shard assigned to user''
      | ErrFreecacheNotFound \<Rightarrow> ''Entry not found'' | ErrCacheMiss \<Rightarrow> ''memcache: cache miss''
      | ErrCacheNotFound \<Rightarrow> ''key not found in cache'' | ErrUnknownVid \<Rightarrow> ''unknown vid''
      | ErrCamundaDeploymentUnknown \<Rightarrow> ''deployment unknown in camunda'' | ErrAccessDenied \<Rightarrow> ''access denied''
      | ErrXml \<Rightarrow> ''etree: invalid XML format'' | ErrPath m \<Rightarrow> ''etree: '' @ m | DbError m \<Rightarrow> m
      | HttpError m \<Rightarrow> m | XmlError m \<Rightarrow> m | JsonError m \<Rightarrow> m)"

fun extend_all ::
  "('e, 'c) system \<Rightarrow> string \<Rightarrow> CamundaDeployment list \<Rightarrow> ('e, 'c) world \<Rightarrow>
   ExtendedDeployment list \<times> ('e, 'c) world" where
  "extend_all sys userId [] w = ([], w)"
| "extend_all sys userId (d # ds) w =
     (case GetExtendedDeployment sys d userId w of
        (r, w1) \<Rightarrow> (case extend_all sys userId ds w1 of
           (rest, w2) \<Rightarrow>
             ((case r of
                 Inl err \<Rightarrow> \<lparr>ed_deployment = d, ed_Diagram = '''', ed_DefinitionId = '''', ed_Error = error_text err\<rparr>
               | Inr x \<Rightarrow> x) # rest, w2)))"

definition GetExtendedDeploymentList ::
  "('e, 'c) system \<Rightarrow> string \<Rightarrow> url_values \<Rightarrow> ('e, 'c, ExtendedDeployment list) act" where
  "GetExtendedDeploymentList sys userId params =
     andThen (GetDeploymentList sys userId params) (\<lambda>deployments w.
       (case extend_all sys userId deployments w of (r, w1) \<Rightarrow> (Inr r, w1)))"

definition history_params ::
  "string \<Rightarrow> string \<Rightarrow> string \<Rightarrow> string \<Rightarrow> string \<Rightarrow> string \<Rightarrow> string \<Rightarrow> bool \<Rightarrow> url_values" where
  "history_params userId searchtype searchvalue limit offset sortby sortdirection finished =
     [(''tenantIdIn'', [userId]), (''maxResults'', [limit]), (''firstResult'', [offset]),
      (''sortBy'', [sortby]), (''sortOrder'', [sortdirection])] @
     (if searchtype \<noteq> '''' \<and> searchvalue \<noteq> '''' then
        (if searchtype = ''processDefinitionId'' then [(''processDefinitionId'', [searchvalue])] else []) @
        (if searchtype = ''processDefinitionNameLike''
         then [(''processDefinitionNameLike'', [''%'' @ searchvalue @ ''%''])] else [])
      else []) @
     (if finished then [(''finished'', [''true''])] else [(''unfinished'', [''true''])])"

definition GetProcessInstanceHistoryListWithTotal ::
  "('e, 'c) system \<Rightarrow> string \<Rightarrow> string \<Rightarrow> string \<Rightarrow> string \<Rightarrow> string \<Rightarrow> string \<Rightarrow> string \<Rightarrow> bool \<Rightarrow>
   ('e, 'c, HistoricProcessInstancesWithTotal) act" where
  "GetProcessInstanceHistoryListWithTotal sys userId searchtype searchvalue limit offset sortby sortdirection finished =
     andThen (ensure_shard sys userId) (\<lambda>shard.
       let params = values_encode (history_params userId searchtype searchvalue limit offset sortby sortdirection finished)
       in andThen (Get sys (decode_list decode_HistoricProcessInstance)
            (shard @ ''/engine-rest/history/process-instance?'' @ params)) (\<lambda>temp.
          andThen (Get sys decode_Count (shard @ ''/engine-rest/history/process-instance/count?'' @ params)) (\<lambda>count.
            return \<lparr>ht_Total = count_Count count, ht_Data = temp\<rparr>)))"

text \<open>\<open>SendEventTrigger\<close> overwrites the tenant of the message; the reply's body is the response.\<close>

definition SendEventTrigger ::
  "('e, 'c) system \<Rightarrow> string \<Rightarrow> (string \<times> json) list \<Rightarrow> ('e, 'c, string) act" where
  "SendEventTrigger sys userId msg =
     andThen (ensure_shard sys userId) (\<lambda>shard.
     andThen (request_ok sys (post_request (shard @ ''/engine-rest/message'') ''application/json''
                (JsonBody (json_map (AList.update ''tenantId'' (JStr userId) msg))))
                (\<lambda>st. st < 300) (\<lambda>status body. body)) (\<lambda>rp. return (fst rp)))"

definition SetProcessInstanceVariable ::
  "('e, 'c) system \<Rightarrow> string \<Rightarrow> string \<Rightarrow> string \<Rightarrow> json \<Rightarrow> ('e, 'c, unit) act" where
  "SetProcessInstanceVariable sys instanceId userId variableName variableValue =
     andThen (ensure_shard sys userId) (\<lambda>shard.
     andThen (request_ok sys
        (post_request (shard @ ''/engine-rest/process-instance/'' @ PathEscape instanceId @ ''/variables'')
           ''application/json''
           (JsonBody (json_map [(''modifications'', json_map [(variableName, json_map [(''value'', variableValue)])])])))
        (\<lambda>st. st < 300) status_and_body) (\<lambda>_. return ()))"

end
