(* ===== verification/Parameter.thy ===== *)
theory Parameter
  imports Camunda
begin

text \<open>
  The variables that a process asks for when it is started (\<open>lib/camunda/parameter.go\<close>): the form
  variables of the engine, without those whose form field in the BPMN document carries the property
  \<open>ignore_on_start\<close>.
\<close>

section \<open>Form fields\<close>

record CamundaXmlWrapper =
  cx_Id :: string
  cx_Bpmn :: string

definition decode_CamundaXmlWrapper :: "json \<Rightarrow> CamundaXmlWrapper res" where
  "decode_CamundaXmlWrapper = decode_struct
     [(''id'', string_field cx_Id_update), (''bpmn20Xml'', string_field cx_Bpmn_update)]
     \<lparr>cx_Id = '''', cx_Bpmn = ''''\<rparr>"

record ProcessStartParameter =
  sp_Id :: string
  sp_Label :: string
  sp_Type :: string
  sp_Default :: string
  sp_Properties :: "string \<rightharpoonup> string"

text \<open>The inner loop: later properties overwrite earlier ones, those without a name are skipped.\<close>

definition add_property :: "token \<Rightarrow> (string \<rightharpoonup> string) \<Rightarrow> (string \<rightharpoonup> string)" where
  "add_property p properties =
     (let propertyName = SelectAttrValue ''id'' '''' p; propertyValue = SelectAttrValue ''value'' '''' p
      in if propertyName \<noteq> '''' then properties(propertyName \<mapsto> propertyValue) else properties)"

text \<open>One form field: nothing without an id; \<open>None\<close> when the query panics.\<close>

definition start_parameter :: "token \<Rightarrow> token \<Rightarrow> ProcessStartParameter list option" where
  "start_parameter rt element =
     (let i = SelectAttrValue ''id'' '''' element
      in if i = '''' then Some []
         else map_option (\<lambda>props.
           [\<lparr>sp_Id = i, sp_Label = SelectAttrValue ''label'' '''' element,
             sp_Type = SelectAttrValue ''type'' ''string'' element,
             sp_Default = SelectAttrValue ''defaultValue'' '''' element,
             sp_Properties = fold add_property props Map.empty\<rparr>])
           (FindElements rt element ''.//camunda:property''))"

fun start_parameters :: "token \<Rightarrow> token list \<Rightarrow> ProcessStartParameter list option" where
  "start_parameters rt [] = Some []"
| "start_parameters rt (e # es) =
     Option.bind (start_parameter rt e) (\<lambda>p. map_option (\<lambda>ps. p @ ps) (start_parameters rt es))"

definition form_field_path :: string where
  "form_field_path = ''//bpmn:startEvent/bpmn:extensionElements/camunda:formData/camunda:formField''"

definition estimateStartParameter :: "(string \<Rightarrow> decoded) \<Rightarrow> string \<Rightarrow> ProcessStartParameter list res" where
  "estimateStartParameter dec xml =
     (let (doc, n) = NewDocument 0
      in case ReadFromString dec xml doc n of
           (Some err, doc1, n1) \<Rightarrow> Inl err
         | (None, doc1, n1) \<Rightarrow>
             (case Option.bind (FindElements (d_element doc1) (d_element doc1) form_field_path)
                     (start_parameters (d_element doc1)) of
                None \<Rightarrow> recovered
              | Some ps \<Rightarrow> Inr ps))"

section \<open>Filtering\<close>

definition getProcessDefinitionXml ::
  "('e, 'c) system \<Rightarrow> string \<Rightarrow> string \<Rightarrow> ('e, 'c, CamundaXmlWrapper) act" where
  "getProcessDefinitionXml sys shard processDefinitionId =
     andThen (request_ok sys (get_request (definition_url shard processDefinitionId @ ''/xml''))
                (\<lambda>st. st = 200) status_and_body) (decoded_reply decode_CamundaXmlWrapper)"

definition ignored :: "ProcessStartParameter list \<Rightarrow> string \<Rightarrow> bool" where
  "ignored parameter key \<longleftrightarrow>
     list_ex (\<lambda>p. sp_Properties p ''ignore_on_start'' = Some ''true'' \<and> sp_Id p = key) parameter"

text \<open>\<open>filterParameter\<close> never fails: without a readable document nothing is filtered.\<close>

definition filterParameter ::
  "('e, 'c) system \<Rightarrow> string \<Rightarrow> string \<Rightarrow> (string \<times> Variable) list \<Rightarrow> ('e, 'c, (string \<times> Variable) list) act"
  where
  "filterParameter sys shard i variables w =
     (case getProcessDefinitionXml sys shard i w of
        (Inl err, w1) \<Rightarrow> (Inr variables, w1)
      | (Inr xml, w1) \<Rightarrow>
          (case estimateStartParameter (xml_decoder sys) (cx_Bpmn xml) of
             Inl err \<Rightarrow> (Inr variables, w1)
           | Inr parameter \<Rightarrow> (Inr (filter (\<lambda>kv. \<not> ignored parameter (fst kv)) variables), w1)))"

text \<open>A \<open>map[string]Variable\<close>: the last member of a name counts, at the place of its first.\<close>

fun decode_vars :: "(string \<times> json) list \<Rightarrow> (string \<times> Variable) list \<Rightarrow> (string \<times> Variable) list res" where
  "decode_vars [] acc = Inr acc"
| "decode_vars ((k, j) # ms) acc =
     (case decode_Variable j of Inl err \<Rightarrow> Inl err | Inr v \<Rightarrow> decode_vars ms (AList.update k v acc))"

definition decode_VariableMap :: "json \<Rightarrow> (string \<times> Variable) list res" where
  "decode_VariableMap j =
     (case j of
        JNull \<Rightarrow> Inr []
      | JObj ms \<Rightarrow> decode_vars ms []
      | _ \<Rightarrow> Inl (JsonError ''json: cannot unmarshal into Go value of type map''))"

definition GetProcessParameters ::
  "('e, 'c) system \<Rightarrow> string \<Rightarrow> string \<Rightarrow> ('e, 'c, (string \<times> Variable) list) act" where
  "GetProcessParameters sys processDefinitionId userId =
     andThen (ensure_shard sys userId) (\<lambda>shard.
     andThen (request_ok sys (get_request (definition_url shard processDefinitionId @ ''/form-variables''))
                (\<lambda>st. st = 200) status_and_body) (\<lambda>rp.
     andThen (decoded_reply decode_VariableMap rp) (\<lambda>variables.
       filterParameter sys shard processDefinitionId variables)))"

end
