(* ===== verification/Controller.thy ===== *)
theory Controller
  imports Parameter
begin

text \<open>
  Deployments and their removal across the engine, the incident service, process-io and the
  relation of ids (\<open>lib/controller/controller.go\<close>). The errors of the incident client and the
  state of the databases are those of the surroundings; \<open>RemoveVidRelation\<close> hands back an open
  transaction, which is committed or rolled back at the end.
\<close>

section \<open>Removing a deployment\<close>

text \<open>A call of the incident client, of which only the error is used.\<close>

definition incident :: "('e \<Rightarrow> goerror option \<times> 'e) \<Rightarrow> ('e, 'c, unit) act" where
  "incident f w =
     (case f (env w) of
        (None, e) \<Rightarrow> (Inr (), w\<lparr>env := e\<rparr>)
      | (Some err, e) \<Rightarrow> (Inl err, w\<lparr>env := e\<rparr>))"

fun for_each :: "('a \<Rightarrow> ('e, 'c, unit) act) \<Rightarrow> 'a list \<Rightarrow> ('e, 'c, unit) act" where
  "for_each f [] = return ()"
| "for_each f (x # xs) = andThen (f x) (\<lambda>_. for_each f xs)"

definition deleteIncidentsByDeploymentId :: "('e, 'c) system \<Rightarrow> string \<Rightarrow> string \<Rightarrow> ('e, 'c, unit) act" where
  "deleteIncidentsByDeploymentId sys i userId =
     andThen (GetRawDefinitionsByDeployment sys i userId)
       (for_each (\<lambda>d. incident (DeleteIncidentByProcessDefinitionId sys (pd_Id d))))"

definition deleteIoVariablesByDeploymentId :: "('e, 'c) system \<Rightarrow> string \<Rightarrow> string \<Rightarrow> ('e, 'c, unit) act" where
  "deleteIoVariablesByDeploymentId sys i userId =
     (if has_process_io sys then
        andThen (GetRawDefinitionsByDeployment sys i userId)
          (for_each (\<lambda>d. DeleteProcessDefinition sys (pd_Id d)))
      else return ())"

definition rollback_vids :: "('e, 'c) world \<Rightarrow> ('e, 'c) world" where
  "rollback_vids w = w\<lparr>vids := rollback (vids w)\<rparr>"

text \<open>The end of the removal, in the open transaction of the relation.\<close>

definition engine_removal :: "('e, 'c) system \<Rightarrow> string \<Rightarrow> string \<Rightarrow> ('e, 'c, unit) act" where
  "engine_removal sys i userId =
     (if userId \<noteq> '''' then RemoveProcess sys i userId else RemoveProcessFromAllShards sys i)"

definition remove_and_commit :: "('e, 'c) system \<Rightarrow> string \<Rightarrow> string \<Rightarrow> ('e, 'c, unit) act" where
  "remove_and_commit sys i userId w =
     (case engine_removal sys i userId w of
        (Inl err, w1) \<Rightarrow> (Inl err, rollback_vids w1)
      | (Inr _, w1) \<Rightarrow> on_vids commit w1)"

definition DeleteDeployment :: "('e, 'c) system \<Rightarrow> string \<Rightarrow> string \<Rightarrow> ('e, 'c, unit) act" where
  "DeleteDeployment sys userId vid =
     andThen (on_vids (GetDeploymentId vid)) (\<lambda>found.
       (case found of
          None \<Rightarrow> return ()
        | Some i \<Rightarrow>
            andThen (deleteIncidentsByDeploymentId sys i userId) (\<lambda>_.
            andThen (deleteIoVariablesByDeploymentId sys i userId) (\<lambda>_.
            andThen (on_vids (RemoveVidRelation vid i)) (\<lambda>_. remove_and_commit sys i userId)))))"

definition cleanupExistingDeployment :: "('e, 'c) system \<Rightarrow> string \<Rightarrow> string \<Rightarrow> ('e, 'c, unit) act" where
  "cleanupExistingDeployment sys userId vid =
     andThen (on_vids (VidExists vid)) (\<lambda>exists.
       if exists then DeleteDeployment sys userId vid else return ())"

section \<open>Deploying\<close>

text \<open>\<open>if err != nil { RemoveProcess(..); return err, 500 }\<close>: the error of the removal is only logged.\<close>

definition or_undeploy ::
  "('e, 'c) system \<Rightarrow> string \<Rightarrow> string \<Rightarrow> ('e, 'c, 'a) act \<Rightarrow> ('e, 'c, 'a) act" where
  "or_undeploy sys deploymentId userId m w =
     (case m w of
        (Inr x, w1) \<Rightarrow> (Inr x, w1)
      | (Inl err, w1) \<Rightarrow> (Inl err, snd (RemoveProcess sys deploymentId userId w1)))"

definition incident_handling ::
  "('e, 'c) system \<Rightarrow> DeploymentMessage \<Rightarrow> string \<Rightarrow> ('e, 'c, unit) act" where
  "incident_handling sys depl deploymentId =
     (case dm_IncidentHandling depl of
        None \<Rightarrow> return ()
      | Some ih \<Rightarrow>
          andThen (or_undeploy sys deploymentId (dm_UserId depl)
                     (GetRawDefinitionsByDeployment sys deploymentId (dm_UserId depl)))
            (for_each (\<lambda>d. or_undeploy sys deploymentId (dm_UserId depl)
               (incident (SetOnIncidentHandler sys (pd_Id d) (ih_Restart ih) (ih_Notify ih))))))"

text \<open>The part of \<open>Deploy\<close> after the document is prepared: \<open>xml\<close> is what goes to the engine.\<close>

definition deploy_prepared ::
  "('e, 'c) system \<Rightarrow> DeploymentMessage \<Rightarrow> string \<Rightarrow> ('e, 'c, unit) act" where
  "deploy_prepared sys depl xml =
     andThen (cleanupExistingDeployment sys (dm_UserId depl) (dm_Id depl)) (\<lambda>_.
     andThen (DeployProcess sys (dm_Name depl) xml (dg_Svg (dm_Diagram depl)) (dm_UserId depl) (dm_Source depl))
       (\<lambda>deploymentId.
     andThen (incident_handling sys depl deploymentId) (\<lambda>_.
       or_undeploy sys deploymentId (dm_UserId depl) (on_vids (SaveVidRelation (dm_Id depl) deploymentId)))))"

text \<open>The checks and rewritings before: the document to deploy, or an error with its status code.\<close>

definition prepare_xml ::
  "('e, 'c) system \<Rightarrow> DeploymentMessage \<Rightarrow> (goerror \<times> int) + string" where
  "prepare_xml sys depl =
     (case SecureProcessScripts (xml_decoder sys) (dg_XmlDeployed (dm_Diagram depl)) of
        Inl err \<Rightarrow> Inl (err, 500)
      | Inr xml \<Rightarrow>
          if dm_Id depl = '''' then Inl (ErrMsg ''no deployment id provided'', 400)
          else if dm_UserId depl = '''' then Inl (ErrMsg ''no user id provided'', 400)
          else if dg_Svg (dm_Diagram depl) = '''' then Inl (ErrMsg ''no svg provided'', 400)
          else (case SetProcessId (xml_decoder sys) xml (dm_Id depl) of
                  Inl err \<Rightarrow> Inl (err, 500)
                | Inr xml2 \<Rightarrow>
                    if \<not> validateXml (xml_decoder sys) (xml_unmarshal sys) xml2
                    then Inl (ErrMsg ''invalid bpmn'', 400) else Inr xml2))"

definition Deploy ::
  "('e, 'c) system \<Rightarrow> DeploymentMessage \<Rightarrow> ('e, 'c) world \<Rightarrow> (goerror option \<times> int) \<times> ('e, 'c) world" where
  "Deploy sys depl w =
     (case prepare_xml sys depl of
        Inl (err, code) \<Rightarrow> ((Some err, code), w)
      | Inr xml \<Rightarrow>
          (case deploy_prepared sys depl xml w of
             (Inl err, w1) \<Rightarrow> ((Some err, 500), w1)
           | (Inr _, w1) \<Rightarrow> ((None, 200), w1)))"

section \<open>Removing a historic instance\<close>

text \<open>The code of the incident service's reply is returned with an error of the engine.\<close>

definition DeleteHistoricProcessInstance ::
  "('e, 'c) system \<Rightarrow> string \<Rightarrow> string \<Rightarrow> ('e, 'c) world \<Rightarrow> (goerror option \<times> int) \<times> ('e, 'c) world" where
  "DeleteHistoricProcessInstance sys userId instanceId w =
     (case CheckHistoryAccess sys instanceId userId w of
        (Inl err, w1) \<Rightarrow> ((Some (ErrMsg ''access denied''), 401), w1)
      | (Inr _, w1) \<Rightarrow>
          (case DeleteIncidentByProcessInstanceId sys instanceId (env w1) of
             ((Some err, code), e) \<Rightarrow> ((Some err, code), w1\<lparr>env := e\<rparr>)
           | ((None, code), e) \<Rightarrow>
               (case RemoveProcessInstanceHistory sys instanceId userId (w1\<lparr>env := e\<rparr>) of
                  (Inl err, w2) \<Rightarrow> ((Some err, code), w2)
                | (Inr _, w2) \<Rightarrow> ((None, 200), w2))))"

section \<open>What the parts leave alone\<close>

context engine_preorder
begin

lemma decodes: "always P (decoded_reply dec rp)"
  by (simp add: always_def decoded_reply_def refl)

lemma engine_gets:
  "always P (engine_get sys dec path u)" "always P (GetRawDefinitionsByDeployment sys i u)"
  unfolding engine_get_def GetRawDefinitionsByDeployment_def by (intro operations)+

lemma incidents: "always P (incident f)"
  by (auto simp: incident_def outside intro!: alwaysI split: prod.splits option.splits)

lemma for_each_all: "(\<And>x. always P (f x)) \<Longrightarrow> always P (for_each f xs)"
  by (induction xs) (simp_all add: pure seq)

lemma deletes:
  "always P (deleteIncidentsByDeploymentId sys i u)" "always P (deleteIoVariablesByDeploymentId sys i u)"
  unfolding deleteIncidentsByDeploymentId_def deleteIoVariablesByDeploymentId_def
  by (intro operations engine_gets incidents for_each_all)+

lemma removes_from_shard: "always P (RemoveProcessForShard sys i s)"
  unfolding RemoveProcessForShard_def GetDeploymentCountByShard_def by (intro operations)

lemma removes_from_shards: "always P (remove_from_shards sys i ss)"
  by (induction ss) (simp_all add: pure seq removes_from_shard)

lemma removes:
  "always P (RemoveProcess sys i u)" "always P (RemoveProcessFromAllShards sys i)"
  "always P (engine_removal sys i u)"
  unfolding engine_removal_def RemoveProcess_def RemoveProcessFromAllShards_def
  by (intro operations removes_from_shard removes_from_shards)+

lemma deploys_once: "always P (deployProcess sys name xml svg owner source)"
proof (rule alwaysI)
  fix w r w1 assume a: "deployProcess sys name xml svg owner source w = (r, w1)"
  obtain re we where e: "ensure_shard sys owner w = (re, we)" by (cases "ensure_shard sys owner w")
  have "always P (andThen (request_ok sys rq good msg) (decoded_reply dec))" for rq good msg and dec :: "json \<Rightarrow> 'x res"
    by (intro seq requests decodes)
  note d = alwaysD [OF this]
  have "w1 = we \<or> P we w1"
    using a e by (cases re) (auto simp: deployProcess_def andThen_Inl andThen_Inr Let_def andThen_def [of "ensure_shard sys owner"] dest: d)
  with alwaysD [OF uses_shards(1) e] trans show "P w w1" by blast
qed

lemma checks_id: "always P (nonempty_id xml i)"
  unfolding nonempty_id_def by (intro operations)

lemma deploys_placeholder: "always P (deploy_placeholder sys name xml owner source m)"
proof (rule alwaysI)
  fix w r w1 assume a: "deploy_placeholder sys name xml owner source m w = (r, w1)"
  define wn where "wn = snd (Send sys (NotificationUrl sys) \<lparr>ms_UserId = owner,
    ms_Title = ''Deployment Error: ProcessEngineException'',
    ms_Message = (case json_string (m ''message'') of Some m \<Rightarrow> m | None \<Rightarrow> '''')\<rparr> w)"
  have "P w wn" using notifies unfolding always_def wn_def by blast
  moreover have "P wn w1"
  proof -
    obtain rd wd where d: "deployProcess sys name (CreateBlankProcess (clock sys (env wn))) CreateBlankSvg
      owner source wn = (rd, wd)" by fastforce
    have "w1 = wd \<or> P wd w1"
      using a d by (auto simp: deploy_placeholder_def Let_def wn_def [symmetric] dest: alwaysD [OF checks_id]
        split: sum.splits option.splits)
    with alwaysD [OF deploys_once d] trans show ?thesis by blast
  qed
  ultimately show "P w w1" by (rule trans)
qed

lemma deploys: "always P (DeployProcess sys name xml svg owner source)"
  unfolding DeployProcess_def by (intro operations deploys_once checks_id deploys_placeholder)

lemma undeploys:
  assumes "always P m"
  shows "always P (or_undeploy sys i u m)"
proof (rule alwaysI)
  fix w r w1 assume a: "or_undeploy sys i u m w = (r, w1)"
  obtain rm wm where m: "m w = (rm, wm)" by (cases "m w")
  have "P wm (snd (RemoveProcess sys i u wm))" using removes(1) unfolding always_def by blast
  with a m alwaysD [OF assms m] trans show "P w w1"
    by (auto simp: or_undeploy_def split: sum.splits)
qed

lemma handles_incidents: "always P (incident_handling sys depl i)"
  unfolding incident_handling_def
  by (intro operations undeploys engine_gets for_each_all incidents)

end

section \<open>Removal follows the engine\<close>

lemma on_vids_eq: "on_vids m w = (r, w1) \<longleftrightarrow> (\<exists>s. m (vids w) = (r, s) \<and> w1 = w\<lparr>vids := s\<rparr>)"
  by (auto simp: on_vids_def split: prod.splits)

text \<open>The requests that ask an engine whether it has a deployment, and to delete it.\<close>

definition count_request :: "string \<Rightarrow> string \<Rightarrow> request" where
  "count_request i shard = get_request (shard @ ''/engine-rest/deployment/count?id='' @ QueryEscape i)"

definition undeploy_request :: "string \<Rightarrow> string \<Rightarrow> request" where
  "undeploy_request i shard =
     delete_request (shard @ ''/engine-rest/deployment/'' @ i @ ''?cascade=true&skipIoMappings=true'')"

lemma request_ok_sent:
  "request_ok sys rq good msg w = (r, w1) \<Longrightarrow> sent w1 = sent w @ [rq]"
  by (auto simp: request_ok_def send_def split: prod.splits reply.splits if_splits)

lemma RemoveProcessForShard_sent:
  assumes "RemoveProcessForShard sys i shard w = (Inr (), w1)"
  shows "sent w1 = sent w @ [count_request i shard] \<or>
    sent w1 = sent w @ [count_request i shard, undeploy_request i shard]"
  using assms unfolding RemoveProcessForShard_def GetDeploymentCountByShard_def andThen_Inr
  by (auto simp: count_request_def undeploy_request_def return_def andThen_Inr
      dest!: Get_sent request_ok_sent split: if_splits)

lemma RemoveProcess_sent:
  assumes "RemoveProcess sys i u w = (Inr (), w1)"
  shows "\<exists>shard w0. ensure_shard sys u w = (Inr shard, w0) \<and>
    (sent w1 = sent w @ [count_request i shard] \<or>
     sent w1 = sent w @ [count_request i shard, undeploy_request i shard])"
proof -
  from assms obtain shard w0 where e: "ensure_shard sys u w = (Inr shard, w0)"
    and r: "RemoveProcessForShard sys i shard w0 = (Inr (), w1)"
    by (auto simp: RemoveProcess_def andThen_Inr)
  from ensure_shard_sent [OF e] RemoveProcessForShard_sent [OF r] e show ?thesis by auto
qed

text \<open>
  How a removal can end: the relation is as before, or without the rows of both ids, and then
  the engine has reported success before.
\<close>

lemma remove_and_commit_cases:
  assumes "remove_and_commit sys i u w = (r, w1)"
    and "tx (vids w) = Some (d', False)"
  shows "(committed (vids w1) = committed (vids w) \<and> r \<noteq> Inr () \<or> committed (vids w1) = d' \<and>
    (\<exists>w2. engine_removal sys i u w = (Inr (), w2) \<and> sent w1 = sent w2))"
proof -
  obtain re w2 where e: "engine_removal sys i u w = (re, w2)" by (cases "engine_removal sys i u w")
  have v: "vids w2 = vids w" using leaves_vidsD [OF leaves.removes(3) e] .
  show ?thesis
  proof (cases re)
    case (Inl err)
    with assms e v show ?thesis by (auto simp: remove_and_commit_def rollback_vids_def)
  next
    case (Inr x)
    with assms e obtain s where s: "commit (vids w2) = (r, s)" "w1 = w2\<lparr>vids := s\<rparr>"
      by (auto simp: remove_and_commit_def on_vids_eq)
    have "working (vids w2) = Some d'" using assms(2) v by (simp add: working_def)
    with commit_cases(1,2) [OF s(1)] s(2) e Inr v show ?thesis by (cases r) auto
  qed
qed

lemma DeleteDeployment_cases:
  assumes "DeleteDeployment sys u vid w = (r, w1)"
  shows "committed (vids w1) = committed (vids w) \<and>
      (r = Inr () \<longrightarrow> fst (GetDeploymentId vid (vids w)) = Inr None) \<or>
    (\<exists>i w2 w3. (i, vid) \<in> set (committed (vids w)) \<and>
      committed (vids w1) = without_relation vid i (committed (vids w)) \<and>
      engine_removal sys i u w2 = (Inr (), w3) \<and> sent w1 = sent w3)"
proof -
  obtain rg wg where g: "on_vids (GetDeploymentId vid) w = (rg, wg)"
    by (cases "on_vids (GetDeploymentId vid) w")
  then obtain sg where sg: "GetDeploymentId vid (vids w) = (rg, sg)" "wg = w\<lparr>vids := sg\<rparr>"
    by (auto simp: on_vids_eq)
  note gc = GetDeploymentId_cases [OF sg(1)]
  show ?thesis
  proof (cases "\<exists>i. rg = Inr (Some i)")
    case False
    with assms g sg gc(1) show ?thesis
      by (auto simp: DeleteDeployment_def andThen_def return_def split: sum.splits option.splits)
  next
    case True
    then obtain i where i: "rg = Inr (Some i)" by blast
    have row: "(i, vid) \<in> set (committed (vids w))" by (rule gc(3) [OF i])
    obtain ra wa where a: "deleteIncidentsByDeploymentId sys i u wg = (ra, wa)"
      by (cases "deleteIncidentsByDeploymentId sys i u wg")
    obtain rb wb where b: "deleteIoVariablesByDeploymentId sys i u wa = (rb, wb)"
      by (cases "deleteIoVariablesByDeploymentId sys i u wa")
    have vb: "vids wa = sg" "vids wb = sg"
      using leaves_vidsD [OF leaves.deletes(1) a] leaves_vidsD [OF leaves.deletes(2) b] sg(2) by simp_all
    obtain rr wr where rm: "on_vids (RemoveVidRelation vid i) wb = (rr, wr)"
      by (cases "on_vids (RemoveVidRelation vid i) wb")
    then obtain sr where sr: "RemoveVidRelation vid i sg = (rr, sr)" "wr = wb\<lparr>vids := sr\<rparr>"
      using vb by (auto simp: on_vids_eq)
    note rc = RemoveVidRelation_cases [OF sr(1)]
    show ?thesis
    proof (cases "ra = Inr () \<and> rb = Inr () \<and> rr = Inr ()")
      case False
      then have "r \<noteq> Inr () \<and> committed (vids w1) = committed (vids w)"
        using assms g i a b rm vb sr rc(1) gc(1) sg
        by (auto simp: DeleteDeployment_def andThen_def split: sum.splits)
      then show ?thesis by blast
    next
      case True
      with assms g i a b rm have "remove_and_commit sys i u wr = (r, w1)"
        by (simp add: DeleteDeployment_def andThen_def)
      moreover have "tx (vids wr) = Some (without_relation vid i (committed (vids w)), False)"
        using True rc(2) sr(2) gc(1) by simp
      ultimately have "(committed (vids w1) = committed (vids wr) \<and> r \<noteq> Inr () \<or>
        committed (vids w1) = without_relation vid i (committed (vids w)) \<and>
        (\<exists>w2. engine_removal sys i u wr = (Inr (), w2) \<and> sent w1 = sent w2))"
        by (rule remove_and_commit_cases)
      moreover have "committed (vids wr) = committed (vids w)" using rc(1) sr(2) gc(1) by simp
      ultimately show ?thesis using row by (elim disjE) auto
    qed
  qed
qed

section \<open>What deploying does to the relation\<close>

text \<open>The id in the reply of an engine, and a request to create a deployment that was answered with it.\<close>

definition reply_id :: "reply \<Rightarrow> string option" where
  "reply_id rp =
     (case rp of
        Reply st status body (Inr j) \<Rightarrow> (case decode_map j of Inl err \<Rightarrow> None | Inr m \<Rightarrow> json_string (m ''id''))
      | _ \<Rightarrow> None)"

definition created :: "('e, 'c) system \<Rightarrow> request \<Rightarrow> string \<Rightarrow> bool" where
  "created sys rq i \<longleftrightarrow> rq_method rq = ''POST'' \<and> has_suffix (rq_url rq) ''/engine-rest/deployment/create'' \<and>
     (\<exists>e. reply_id (fst (http sys rq e)) = Some i)"

lemma deployProcess_created:
  assumes "deployProcess sys name xml svg owner source w = (Inr m, w1)"
  shows "\<exists>rq. sent w1 = sent w @ [rq] \<and> (\<forall>i. json_string (m ''id'') = Some i \<longrightarrow> created sys rq i)"
proof -
  let ?rq = "\<lambda>shard. post_request (shard @ ''/engine-rest/deployment/create'')
    (''multipart/form-data; boundary='' @ ''---------------------------'' @ time_text sys (env w))
    (TextBody (buildPayLoad name xml svg (''---------------------------'' @ time_text sys (env w)) owner source))"
  from assms obtain shard w0 where e: "ensure_shard sys owner w = (Inr shard, w0)"
    and k: "andThen (request_ok sys (?rq shard) (\<lambda>st. True) status_and_body) (decoded_reply decode_map) w0 = (Inr m, w1)"
    using ensure_shard_sent by (fastforce simp: deployProcess_def andThen_Inr Let_def)
  from k obtain st status body j e1 where h: "http sys (?rq shard) (env w0) = (Reply st status body (Inr j), e1)"
    and j: "decode_map j = Inr m" "sent w1 = sent w0 @ [?rq shard]"
    by (auto simp: andThen_Inr request_ok_def send_def decoded_reply_def split: prod.splits reply.splits sum.splits)
  from h j(1) have "reply_id (fst (http sys (?rq shard) (env w0))) = json_string (m ''id'')" by (simp add: reply_id_def)
  then have "\<forall>i. json_string (m ''id'') = Some i \<longrightarrow> created sys (?rq shard) i"
    unfolding created_def by (auto simp: post_request_def has_suffix_iff intro: exI [of _ "env w0"])
  with j(2) ensure_shard_sent [OF e] show ?thesis by auto
qed

lemma Send_sent: "\<exists>rqs. sent (snd (Send sys url msg w)) = sent w @ rqs"
  by (auto simp: Send_def return_def andThen_def request_ok_def send_def split: prod.split sum.split reply.split)

lemma DeployProcess_created:
  assumes "DeployProcess sys name xml svg owner source w = (Inr i, w1)"
  shows "i \<noteq> ''''" and "\<exists>rqs rq. sent w1 = sent w @ rqs @ [rq] \<and> created sys rq i"
proof -
  from assms obtain m w0 where d: "deployProcess sys name xml svg owner source w = (Inr m, w0)"
    and k: "json_string (m ''id'') = Some i \<and> i \<noteq> '''' \<and> w1 = w0 \<or>
      deploy_placeholder sys name xml owner source m w0 = (Inr i, w1)"
    by (auto simp: DeployProcess_def andThen_Inr fail_with_def nonempty_id_def return_def
        split: option.splits if_splits)
  have placeholder: "i \<noteq> '''' \<and> (\<exists>rqs rq. sent w1 = sent w0 @ rqs @ [rq] \<and> created sys rq i)"
    if "deploy_placeholder sys name xml owner source m w0 = (Inr i, w1)"
  proof -
    from that obtain msg m2 ws where s: "ws = snd (Send sys (NotificationUrl sys) msg w0)"
      and "deployProcess sys name (CreateBlankProcess (clock sys (env ws))) CreateBlankSvg owner source ws = (Inr m2, w1)"
      and "json_string (m2 ''id'') = Some i" "i \<noteq> ''''"
      by (fastforce simp: deploy_placeholder_def Let_def nonempty_id_def return_def fail_with_def
          split: prod.splits sum.splits option.splits if_splits)
    with deployProcess_created Send_sent [of sys "NotificationUrl sys" msg w0] show ?thesis
      by (metis append_assoc)
  qed
  obtain rq where rq: "sent w0 = sent w @ [rq]" "json_string (m ''id'') = Some i \<Longrightarrow> created sys rq i"
    using deployProcess_created [OF d] by auto
  have "i \<noteq> '''' \<and> (\<exists>rqs rq. sent w1 = sent w @ rqs @ [rq] \<and> created sys rq i)"
  proof (cases "deploy_placeholder sys name xml owner source m w0 = (Inr i, w1)")
    case True
    with placeholder rq(1) show ?thesis by (metis append_assoc)
  next
    case False
    with k rq show ?thesis by (metis append_Nil)
  qed
  then show "i \<noteq> ''''" "\<exists>rqs rq. sent w1 = sent w @ rqs @ [rq] \<and> created sys rq i" by auto
qed

lemma cleanup_cases:
  assumes "cleanupExistingDeployment sys u vid w = (r, w1)" and "one_to_one (committed (vids w))"
  shows "committed (vids w1) = committed (vids w) \<or> committed (vids w1) = others vid (committed (vids w))"
    and "r = Inr () \<Longrightarrow> cuts (vids w) = [] \<Longrightarrow> committed (vids w1) = others vid (committed (vids w))"
proof -
  let ?d = "committed (vids w)"
  obtain re we where e: "on_vids (VidExists vid) w = (re, we)" by (cases "on_vids (VidExists vid) w")
  then obtain se where se: "VidExists vid (vids w) = (re, se)" "we = w\<lparr>vids := se\<rparr>"
    by (auto simp: on_vids_eq)
  note ec = VidExists_cases [OF se(1)]
  have "(committed (vids w1) = ?d \<or> committed (vids w1) = others vid ?d) \<and>
    (r = Inr () \<longrightarrow> cuts (vids w) = [] \<longrightarrow> committed (vids w1) = others vid ?d)"
  proof (cases "re = Inr True")
    case False
    with assms(1) e se(2) ec(1,4) show ?thesis
      by (cases re) (auto simp: cleanupExistingDeployment_def andThen_def return_def others_absent)
  next
    case True
    with assms(1) e have d: "DeleteDeployment sys u vid we = (r, w1)"
      by (simp add: cleanupExistingDeployment_def andThen_def)
    have we: "committed (vids we) = ?d" "cuts (vids we) = cuts (vids w)" using ec(1,3) se(2) by simp_all
    have "r = Inr () \<and> cuts (vids w) = [] \<and> fst (GetDeploymentId vid (vids we)) = Inr None \<Longrightarrow> False"
      using GetDeploymentId_absent [of vid "vids we"] we ec(4) [OF True]
      by (cases "GetDeploymentId vid (vids we)") auto
    with DeleteDeployment_cases [OF d] we without_is_others [OF assms(2)] show ?thesis by auto
  qed
  then show "committed (vids w1) = ?d \<or> committed (vids w1) = others vid ?d"
    "r = Inr () \<Longrightarrow> cuts (vids w) = [] \<Longrightarrow> committed (vids w1) = others vid ?d" by auto
qed

lemma or_undeploy_save_cases:
  assumes "or_undeploy sys i u (on_vids (SaveVidRelation vid i)) w = (r, w1)"
  shows "committed (vids w1) = committed (vids w) \<or> committed (vids w1) = committed (vids w) @ [(i, vid)]"
    and "r = Inr () \<Longrightarrow> committed (vids w1) = committed (vids w) @ [(i, vid)]"
proof -
  obtain rs ws where s: "on_vids (SaveVidRelation vid i) w = (rs, ws)"
    by (cases "on_vids (SaveVidRelation vid i) w")
  then obtain ss where ss: "SaveVidRelation vid i (vids w) = (rs, ss)" "ws = w\<lparr>vids := ss\<rparr>"
    by (auto simp: on_vids_eq)
  note sc = SaveVidRelation_cases [OF ss(1)]
  have v: "vids w1 = vids ws \<and> (r = Inr () \<longrightarrow> rs = Inr ())"
    using assms s leaves.removes(1) [of sys i u, unfolded leaves_vids_def]
    by (auto simp: or_undeploy_def split: sum.splits)
  with sc(1) ss(2)
  show "committed (vids w1) = committed (vids w) \<or> committed (vids w1) = committed (vids w) @ [(i, vid)]"
    by simp
  show "r = Inr () \<Longrightarrow> committed (vids w1) = committed (vids w) @ [(i, vid)]"
    using v sc(2) ss(2) by simp
qed

lemma deploy_prepared_cases:
  assumes "deploy_prepared sys depl xml w = (r, w1)" and "one_to_one (committed (vids w))"
  shows "others (dm_Id depl) (committed (vids w1)) = others (dm_Id depl) (committed (vids w))"
    and "r = Inr () \<Longrightarrow> cuts (vids w) = [] \<Longrightarrow>
      \<exists>i wc wd. cleanupExistingDeployment sys (dm_UserId depl) (dm_Id depl) w = (Inr (), wc) \<and>
        DeployProcess sys (dm_Name depl) xml (dg_Svg (dm_Diagram depl)) (dm_UserId depl) (dm_Source depl) wc =
          (Inr i, wd) \<and>
        committed (vids w1) = others (dm_Id depl) (committed (vids w)) @ [(i, dm_Id depl)]"
proof -
  let ?vid = "dm_Id depl" and ?d = "committed (vids w)"
  obtain rc wc where c: "cleanupExistingDeployment sys (dm_UserId depl) ?vid w = (rc, wc)"
    by (cases "cleanupExistingDeployment sys (dm_UserId depl) ?vid w")
  note cc = cleanup_cases [OF c assms(2)]
  have oc: "others ?vid (committed (vids wc)) = others ?vid ?d" using cc(1) by auto
  let ?deploy = "DeployProcess sys (dm_Name depl) xml (dg_Svg (dm_Diagram depl)) (dm_UserId depl) (dm_Source depl)"
  have "others ?vid (committed (vids w1)) = others ?vid ?d \<and>
    (r = Inr () \<longrightarrow> cuts (vids w) = [] \<longrightarrow>
      (\<exists>i wd. rc = Inr () \<and> ?deploy wc = (Inr i, wd) \<and> committed (vids w1) = others ?vid ?d @ [(i, ?vid)]))"
  proof (cases rc)
    case (Inl err)
    with assms(1) c oc show ?thesis by (auto simp: deploy_prepared_def andThen_def)
  next
    case (Inr x)
    obtain rd wd where d: "DeployProcess sys (dm_Name depl) xml (dg_Svg (dm_Diagram depl))
        (dm_UserId depl) (dm_Source depl) wc = (rd, wd)" by fastforce
    have vd: "vids wd = vids wc" using leaves_vidsD [OF leaves.deploys d] .
    show ?thesis
    proof (cases rd)
      case (Inl err)
      with assms(1) c \<open>rc = Inr x\<close> d vd oc show ?thesis by (auto simp: deploy_prepared_def andThen_def)
    next
      case (Inr i)
      obtain rh wh where h: "incident_handling sys depl i wd = (rh, wh)"
        by (cases "incident_handling sys depl i wd")
      have vh: "vids wh = vids wc" using leaves_vidsD [OF leaves.handles_incidents h] vd by simp
      show ?thesis
      proof (cases rh)
        case (Inl err)
        with assms(1) c \<open>rc = Inr x\<close> d Inr h vh oc show ?thesis
          by (auto simp: deploy_prepared_def andThen_def)
      next
        case (Inr y)
        with assms(1) c \<open>rc = Inr x\<close> d \<open>rd = Inr i\<close> h
        have s: "or_undeploy sys i (dm_UserId depl) (on_vids (SaveVidRelation ?vid i)) wh = (r, w1)"
          by (simp add: deploy_prepared_def andThen_def)
        with or_undeploy_save_cases [OF s] vh oc cc(2) \<open>rc = Inr x\<close> d \<open>rd = Inr i\<close> show ?thesis by auto
      qed
    qed
  qed
  with c show "others ?vid (committed (vids w1)) = others ?vid ?d"
    "r = Inr () \<Longrightarrow> cuts (vids w) = [] \<Longrightarrow>
      \<exists>i wc wd. cleanupExistingDeployment sys (dm_UserId depl) ?vid w = (Inr (), wc) \<and>
        ?deploy wc = (Inr i, wd) \<and> committed (vids w1) = others ?vid ?d @ [(i, ?vid)]" by auto
qed

end
