(* ===== verification/Api.thy ===== *)
theory Api
  imports Controller
begin

text \<open>
  The HTTP endpoints (\<open>lib/api\<close>): every handler as a function from a request to a response, with
  its guards in the order of the code. A response carries the value that the code encodes as JSON.
  The endpoints of version 1 that have the code of version 2 are defined by it.
\<close>

section \<open>Requests and responses\<close>

text \<open>
  What handlers read of a request: the values of the wildcards of the path, the query, the header
  \<open>Authorization\<close>, and the body as the JSON value that it denotes, or the error of decoding it.
\<close>

record api_request =
  path_value :: "string \<Rightarrow> string"
  query :: url_values
  authorization :: string
  body :: "json res"

text \<open>
  \<open>Json\<close>: status 200 and the encoding of a value. \<open>Text\<close>: status 200 and this body. \<open>Empty\<close>: status 200
  without a body. \<open>Failure\<close>: \<open>http.Error\<close> with a text and a code. \<open>Panicked\<close>: the handler panics, the
  server closes the connection without an answer.
\<close>

datatype 'a response = Json 'a | Text string | Empty | Failure string int | Panicked

type_synonym ('e, 'c, 'a) handler = "('e, 'c) world \<Rightarrow> 'a response \<times> ('e, 'c) world"

text \<open>\<open>http.Error\<close>: the server refuses a status code that does not have three digits, by a panic.\<close>

definition http_error :: "string \<Rightarrow> int \<Rightarrow> 'a response" where
  "http_error msg code = (if 100 \<le> code \<and> code \<le> 999 then Failure msg code else Panicked)"

definition respond :: "'a response \<Rightarrow> ('e, 'c, 'a) handler" where
  "respond r w = (r, w)"

text \<open>\<open>x, err := m(); if err != nil { http.Error(..); return }\<close>, with the response to an error.\<close>

definition attempt ::
  "('e, 'c, 'a) act \<Rightarrow> (goerror \<Rightarrow> 'b response) \<Rightarrow> ('a \<Rightarrow> ('e, 'c, 'b) handler) \<Rightarrow> ('e, 'c, 'b) handler" where
  "attempt m failed k w =
     (case m w of (Inl err, w1) \<Rightarrow> (failed err, w1) | (Inr x, w1) \<Rightarrow> k x w1)"

text \<open>The same for the operations that return an error with a code.\<close>

definition attempt_code ::
  "(('e, 'c) world \<Rightarrow> (goerror option \<times> int) \<times> ('e, 'c) world) \<Rightarrow> ('e, 'c, 'b) handler \<Rightarrow> ('e, 'c, 'b) handler"
  where
  "attempt_code m k w =
     (case m w of
        ((Some err, code), w1) \<Rightarrow> (http_error (error_text err) code, w1)
      | ((None, code), w1) \<Rightarrow> k w1)"

definition internal :: "goerror \<Rightarrow> 'a response" where
  "internal err = http_error (error_text err) 500"

definition bad_request :: "goerror \<Rightarrow> 'a response" where
  "bad_request err = http_error (error_text err) 400"

definition access_denied :: "goerror \<Rightarrow> 'a response" where
  "access_denied err = http_error ''Access denied'' 401"

definition encode :: "('e, 'c, 'a) act \<Rightarrow> ('e, 'c, 'a) handler" where
  "encode m = attempt m internal (\<lambda>x. respond (Json x))"

text \<open>\<open>auth.GetParsedToken\<close> and the answer to its failure, at the start of almost every handler.\<close>

definition GetParsedToken :: "('e, 'c) system \<Rightarrow> api_request \<Rightarrow> Token res" where
  "GetParsedToken sys rq = Parse (parse_jwt sys) (authorization rq)"

definition with_token ::
  "('e, 'c) system \<Rightarrow> api_request \<Rightarrow> (Token \<Rightarrow> ('e, 'c, 'b) handler) \<Rightarrow> ('e, 'c, 'b) handler" where
  "with_token sys rq k =
     (case GetParsedToken sys rq of Inl err \<Rightarrow> respond (bad_request err) | Inr token \<Rightarrow> k token)"

definition with_body :: "api_request \<Rightarrow> (json \<Rightarrow> 'a res) \<Rightarrow> ('a \<Rightarrow> ('e, 'c, 'b) handler) \<Rightarrow> ('e, 'c, 'b) handler"
  where
  "with_body rq dec k =
     (case Sum_Type.case_sum Inl dec (body rq) of Inl err \<Rightarrow> respond (bad_request err) | Inr x \<Rightarrow> k x)"

definition query_get :: "url_values \<Rightarrow> string \<Rightarrow> string" where
  "query_get q key = (case map_of q key of Some (v # vs) \<Rightarrow> v | _ \<Rightarrow> '''')"

text \<open>The inputs of a process: each parameter as the JSON value of its text, or the text itself.\<close>

definition parseQueryParameter :: "('e, 'c) system \<Rightarrow> url_values \<Rightarrow> (string \<times> json) list" where
  "parseQueryParameter sys q =
     (if length q = 0 then []
      else map (\<lambda>(key, _). let temp = query_get q key
             in (key, case json_decoder sys temp of Inl err \<Rightarrow> JStr temp | Inr val \<Rightarrow> val)) q)"

text \<open>What the parts of a handler keep, the handler keeps.\<close>

context world_preorder
begin

lemma responds: "always P (respond r)"
  by (simp add: always_def respond_def refl)

lemma attempts:
  assumes "always P m" and "\<And>x. always P (k x)"
  shows "always P (attempt m f k)"
proof (rule alwaysI)
  fix w r w1 assume "attempt m f k w = (r, w1)"
  then show "P w w1"
    using alwaysD [OF assms(1)] alwaysD [OF assms(2)] trans
    by (fastforce simp: attempt_def split: prod.splits sum.splits)
qed

lemma attempts_code:
  assumes "always P m" and "always P k"
  shows "always P (attempt_code m k)"
proof (rule alwaysI)
  fix w r w1 assume "attempt_code m k w = (r, w1)"
  then show "P w w1"
    using alwaysD [OF assms(1)] alwaysD [OF assms(2)] trans
    by (fastforce simp: attempt_code_def split: prod.splits option.splits)
qed

lemma handles:
  "(\<And>token. GetParsedToken sys rq = Inr token \<Longrightarrow> always P (k1 token)) \<Longrightarrow> always P (with_token sys rq k1)"
  "(\<And>x. always P (k2 x)) \<Longrightarrow> always P (with_body rq dec k2)"
  "always P m \<Longrightarrow> always P (encode m)"
  unfolding with_token_def with_body_def encode_def
  by (auto intro!: always_cases(4) responds attempts split: sum.split)

end

section \<open>Deployments (internal)\<close>

definition decode_IncidentHandling :: "json \<Rightarrow> IncidentHandling option \<Rightarrow> IncidentHandling option res" where
  "decode_IncidentHandling j old =
     (if j = JNull then Inr None
      else Sum_Type.map_sum (\<lambda>e. e) Some (decode_struct
        [(''restart'', bool_field ih_Restart_update), (''notify'', bool_field ih_Notify_update)]
        (case old of None \<Rightarrow> \<lparr>ih_Restart = False, ih_Notify = False\<rparr> | Some ih \<Rightarrow> ih) j))"

definition decode_Diagram :: "json \<Rightarrow> Diagram \<Rightarrow> Diagram res" where
  "decode_Diagram j old = decode_struct
     [(''xml_raw'', string_field (\<lambda>f d. d)), (''xml_deployed'', string_field dg_XmlDeployed_update),
      (''svg'', string_field dg_Svg_update)] old j"

text \<open>The embedded \<open>Deployment\<close> has its fields at the level of the message.\<close>

definition decode_DeploymentMessage :: "json \<Rightarrow> DeploymentMessage res" where
  "decode_DeploymentMessage = decode_struct
     [(''id'', string_field dm_Id_update), (''name'', string_field dm_Name_update),
      (''diagram'', \<lambda>j s. Sum_Type.map_sum (\<lambda>e. e) (\<lambda>d. s\<lparr>dm_Diagram := d\<rparr>) (decode_Diagram j (dm_Diagram s))),
      (''incident_handling'', \<lambda>j s. Sum_Type.map_sum (\<lambda>e. e) (\<lambda>h. s\<lparr>dm_IncidentHandling := h\<rparr>)
         (decode_IncidentHandling j (dm_IncidentHandling s))),
      (''user_id'', string_field dm_UserId_update), (''source'', string_field dm_Source_update)]
     \<lparr>dm_Id = '''', dm_Name = '''', dm_Diagram = \<lparr>dg_XmlDeployed = '''', dg_Svg = ''''\<rparr>,
      dm_IncidentHandling = None, dm_UserId = '''', dm_Source = ''''\<rparr>"

definition Api_Deploy :: "('e, 'c) system \<Rightarrow> api_request \<Rightarrow> ('e, 'c, unit) handler" where
  "Api_Deploy sys rq =
     with_body rq decode_DeploymentMessage (\<lambda>depl.
     with_token sys rq (\<lambda>token.
       if \<not> IsAdmin token then respond (http_error ''only admins may create deployments'' 403)
       else attempt_code (Deploy sys depl) (respond Empty)))"

definition Api_DeleteDeployment :: "('e, 'c) system \<Rightarrow> api_request \<Rightarrow> ('e, 'c, unit) handler" where
  "Api_DeleteDeployment sys rq =
     with_token sys rq (\<lambda>token.
       if \<not> IsAdmin token then respond (http_error ''only admins may delete deployments'' 403)
       else attempt (DeleteDeployment sys (path_value rq ''userid'') (path_value rq ''deplid'')) internal
              (\<lambda>_. respond Empty))"

section \<open>Starting processes\<close>

definition V2_StartProcessDefinition ::
  "('e, 'c) system \<Rightarrow> api_request \<Rightarrow> ('e, 'c, string list) handler" where
  "V2_StartProcessDefinition sys rq =
     (let i = path_value rq ''id''
      in with_token sys rq (\<lambda>token.
         attempt (CheckProcessDefinitionAccess sys i (GetUserId token)) access_denied (\<lambda>_.
         attempt (StartProcess sys i (query_get (query rq) ''business_key'') (GetUserId token)
                    (parseQueryParameter sys (query rq))) internal (\<lambda>_. respond (Json [])))))"

definition V2_StartProcessDefinitionAndGetInstanceId ::
  "('e, 'c) system \<Rightarrow> api_request \<Rightarrow> ('e, 'c, ProcessInstance) handler" where
  "V2_StartProcessDefinitionAndGetInstanceId sys rq =
     (let i = path_value rq ''id''
      in with_token sys rq (\<lambda>token.
         attempt (CheckProcessDefinitionAccess sys i (GetUserId token)) access_denied (\<lambda>_.
         encode (StartProcessGetId sys i (query_get (query rq) ''business_key'') (GetUserId token)
                   (parseQueryParameter sys (query rq))))))"

text \<open>The first definition of a deployment, for the two endpoints that start or describe it.\<close>

definition first_definition ::
  "('e, 'c) system \<Rightarrow> string \<Rightarrow> string \<Rightarrow> (ProcessDefinition \<Rightarrow> ('e, 'c, 'b) handler) \<Rightarrow> ('e, 'c, 'b) handler"
  where
  "first_definition sys i userId k =
     attempt (CheckDeploymentAccess sys i userId) access_denied (\<lambda>_.
     attempt (GetDefinitionByDeploymentVid sys i userId) internal (\<lambda>definitions.
       (case definitions of
          [] \<Rightarrow> respond (http_error ''no definition for deployment found'' 500)
        | d # ds \<Rightarrow> k d)))"

definition V2_StartDeployment :: "('e, 'c) system \<Rightarrow> api_request \<Rightarrow> ('e, 'c, ProcessInstance) handler" where
  "V2_StartDeployment sys rq =
     with_token sys rq (\<lambda>token.
     first_definition sys (path_value rq ''id'') (GetUserId token) (\<lambda>d.
     encode (StartProcessGetId sys (pd_Id d) (query_get (query rq) ''business_key'') (GetUserId token)
               (parseQueryParameter sys (query rq)))))"

section \<open>Deployments of a user\<close>

definition V2_GetDeployment :: "('e, 'c) system \<Rightarrow> api_request \<Rightarrow> ('e, 'c, CamundaDeployment) handler" where
  "V2_GetDeployment sys rq =
     (let i = path_value rq ''id''
      in with_token sys rq (\<lambda>token.
         attempt (CheckDeploymentAccess sys i (GetUserId token)) access_denied (\<lambda>_.
         encode (GetDeployment sys i (GetUserId token)))))"

definition V2_DeploymentExists :: "('e, 'c) system \<Rightarrow> api_request \<Rightarrow> ('e, 'c, bool) handler" where
  "V2_DeploymentExists sys rq =
     with_token sys rq (\<lambda>token.
       attempt (CheckDeploymentAccess sys (path_value rq ''id'') (GetUserId token))
         (\<lambda>err. if err = ErrUnknownVid \<or> err = ErrCamundaDeploymentUnknown then Json False else internal err)
         (\<lambda>_. respond (Json True)))"

definition V2_GetDeploymentParameters ::
  "('e, 'c) system \<Rightarrow> api_request \<Rightarrow> ('e, 'c, (string \<times> Variable) list) handler" where
  "V2_GetDeploymentParameters sys rq =
     with_token sys rq (\<lambda>token.
     first_definition sys (path_value rq ''id'') (GetUserId token) (\<lambda>d.
     encode (GetProcessParameters sys (pd_Id d) (GetUserId token))))"

definition V2_GetDeploymentDefinition ::
  "('e, 'c) system \<Rightarrow> api_request \<Rightarrow> ('e, 'c, ProcessDefinition list) handler" where
  "V2_GetDeploymentDefinition sys rq =
     (let i = path_value rq ''id''
      in with_token sys rq (\<lambda>token.
         attempt (CheckDeploymentAccess sys i (GetUserId token)) access_denied (\<lambda>_.
         encode (GetDefinitionByDeploymentVid sys i (GetUserId token)))))"

definition V2_GetDeploymentInstances ::
  "('e, 'c) system \<Rightarrow> api_request \<Rightarrow> ('e, 'c, ProcessInstance list) handler" where
  "V2_GetDeploymentInstances sys rq =
     with_token sys rq (\<lambda>token.
       attempt (GetInstancesByDeploymentVid sys (path_value rq ''id'') (GetUserId token))
         (\<lambda>err. if err = ErrUnknownVid then bad_request err else internal err) (\<lambda>x. respond (Json x)))"

text \<open>An unknown virtual id is answered by one repetition, after a second.\<close>

definition V2_ListDeployments ::
  "('e, 'c) system \<Rightarrow> api_request \<Rightarrow> ('e, 'c, ExtendedDeployment list) handler" where
  "V2_ListDeployments sys rq =
     with_token sys rq (\<lambda>token w.
       (case GetExtendedDeploymentList sys (GetUserId token) (query rq) w of
          (r, w1) \<Rightarrow>
            if r = Inl ErrUnknownVid then encode (GetExtendedDeploymentList sys (GetUserId token) (query rq)) w1
            else encode (\<lambda>w2. (r, w2)) w1))"

section \<open>Definitions\<close>

definition V2_GetProcessDefinition ::
  "('e, 'c) system \<Rightarrow> api_request \<Rightarrow> ('e, 'c, ProcessDefinition) handler" where
  "V2_GetProcessDefinition sys rq =
     (let i = path_value rq ''id''
      in with_token sys rq (\<lambda>token.
         attempt (CheckProcessDefinitionAccess sys i (GetUserId token)) access_denied (\<lambda>_.
         encode (GetProcessDefinition sys i (GetUserId token)))))"

text \<open>
  \<open>io.Copy\<close> of the body of the engine's reply: the first byte of it sends the status 200, the headers
  that are set after it are lost. When reading the body ends with an error, \<open>http.Error\<close> answers 501 if
  nothing was written before; else its status is lost as well, and its text (with a newline) follows
  the part of the body. Errors of writing to the client are not modelled, here as elsewhere.
\<close>

definition copy_body :: "('e, 'c) system \<Rightarrow> reply \<Rightarrow> ('e, 'c, unit) handler" where
  "copy_body sys rp w =
     (case body_error sys (env w) of
        None \<Rightarrow> (Text (reply_body rp), w)
      | Some err \<Rightarrow>
          (if reply_body rp = '''' then http_error (error_text err) 501
           else Text (reply_body rp @ error_text err @ [CHR 0x0A]), w))"

definition V2_GetProcessDefinitionDiagram :: "('e, 'c) system \<Rightarrow> api_request \<Rightarrow> ('e, 'c, unit) handler" where
  "V2_GetProcessDefinitionDiagram sys rq =
     (let i = path_value rq ''id''
      in with_token sys rq (\<lambda>token.
         attempt (CheckProcessDefinitionAccess sys i (GetUserId token)) access_denied (\<lambda>_.
         attempt (GetProcessDefinitionDiagram sys i (GetUserId token)) internal (copy_body sys))))"

section \<open>Instances\<close>

definition V2_ListProcessInstances ::
  "('e, 'c) system \<Rightarrow> api_request \<Rightarrow> ('e, 'c, ProcessInstance list) handler" where
  "V2_ListProcessInstances sys rq =
     with_token sys rq (\<lambda>token. encode (GetProcessInstanceList sys (GetUserId token)))"

definition V2_GetProcessInstanceCount :: "('e, 'c) system \<Rightarrow> api_request \<Rightarrow> ('e, 'c, Count) handler" where
  "V2_GetProcessInstanceCount sys rq =
     with_token sys rq (\<lambda>token. encode (GetProcessInstanceCount sys (GetUserId token)))"

text \<open>The response is the list, or with \<open>with_total\<close> the list and its total.\<close>

definition V2_GetHistoricProcessInstances ::
  "('e, 'c) system \<Rightarrow> api_request \<Rightarrow>
   ('e, 'c, HistoricProcessInstancesWithTotal + HistoricProcessInstance list) handler" where
  "V2_GetHistoricProcessInstances sys rq =
     with_token sys rq (\<lambda>token.
       if query_get (query rq) ''with_total'' = ''true'' then
         attempt (GetFilteredProcessInstanceHistoryListWithTotal sys (GetUserId token)
             (values_del ''with_total'' (query rq))) internal (\<lambda>x. respond (Json (Inl x)))
       else
         attempt (GetFilteredProcessInstanceHistoryList sys (GetUserId token) (query rq)) internal
           (\<lambda>x. respond (Json (Inr x))))"

definition V2_DeleteHistoricProcessInstance ::
  "('e, 'c) system \<Rightarrow> api_request \<Rightarrow> ('e, 'c, string) handler" where
  "V2_DeleteHistoricProcessInstance sys rq =
     with_token sys rq (\<lambda>token.
       attempt_code (DeleteHistoricProcessInstance sys (GetUserId token) (path_value rq ''id''))
         (respond (Json ''ok'')))"

definition V2_DeleteProcessInstance :: "('e, 'c) system \<Rightarrow> api_request \<Rightarrow> ('e, 'c, string) handler" where
  "V2_DeleteProcessInstance sys rq =
     (let i = path_value rq ''id''
      in with_token sys rq (\<lambda>token.
         attempt_code (CheckProcessInstanceAccess sys i (GetUserId token))
           (attempt (RemoveProcessInstance sys i (GetUserId token)) internal (\<lambda>_. respond (Json ''ok'')))))"

definition V2_SetProcessInstanceVariable ::
  "('e, 'c) system \<Rightarrow> api_request \<Rightarrow> ('e, 'c, string) handler" where
  "V2_SetProcessInstanceVariable sys rq =
     (let i = path_value rq ''id''
      in with_body rq Inr (\<lambda>varValue.
         with_token sys rq (\<lambda>token.
         attempt_code (CheckProcessInstanceAccess sys i (GetUserId token))
           (attempt (SetProcessInstanceVariable sys i (GetUserId token) (path_value rq ''variable_name'') varValue)
              internal (\<lambda>_. respond (Json ''ok''))))))"

section \<open>Many instances\<close>

definition decode_string :: "json \<Rightarrow> string res" where
  "decode_string j =
     (case j of JStr s \<Rightarrow> Inr s | JNull \<Rightarrow> Inr ''''
      | _ \<Rightarrow> Inl (JsonError ''json: cannot unmarshal into Go value of type string''))"

fun remove_instances :: "('e, 'c) system \<Rightarrow> string \<Rightarrow> string list \<Rightarrow> ('e, 'c, string) handler" where
  "remove_instances sys userId [] = respond (Json ''ok'')"
| "remove_instances sys userId (i # is) =
     attempt_code (CheckProcessInstanceAccess sys i userId)
       (attempt (RemoveProcessInstance sys i userId) internal (\<lambda>_. remove_instances sys userId is))"

definition V2_DeleteProcessMultipleInstances ::
  "('e, 'c) system \<Rightarrow> api_request \<Rightarrow> ('e, 'c, string) handler" where
  "V2_DeleteProcessMultipleInstances sys rq =
     with_token sys rq (\<lambda>token.
     with_body rq (decode_list decode_string) (remove_instances sys (GetUserId token)))"

fun remove_historic :: "('e, 'c) system \<Rightarrow> string \<Rightarrow> string list \<Rightarrow> ('e, 'c, string) handler" where
  "remove_historic sys userId [] = respond (Json ''ok'')"
| "remove_historic sys userId (i # is) =
     attempt_code (DeleteHistoricProcessInstance sys userId i) (remove_historic sys userId is)"

definition V2_DeleteMultipleHistoricProcessInstances ::
  "('e, 'c) system \<Rightarrow> api_request \<Rightarrow> ('e, 'c, string) handler" where
  "V2_DeleteMultipleHistoricProcessInstances sys rq =
     with_token sys rq (\<lambda>token.
     with_body rq (decode_list decode_string) (remove_historic sys (GetUserId token)))"

text \<open>\<open>errors.Join\<close>: the texts on lines of their own.\<close>

definition join_errors :: "goerror option \<Rightarrow> goerror option \<Rightarrow> goerror option" where
  "join_errors a b =
     (case (a, b) of
        (None, None) \<Rightarrow> None
      | (Some e, None) \<Rightarrow> Some (ErrMsg (error_text e))
      | (None, Some e) \<Rightarrow> Some (ErrMsg (error_text e))
      | (Some e, Some f) \<Rightarrow> Some (ErrMsg (error_text e @ [CHR 0x0A] @ error_text f)))"

fun remove_each ::
  "('e, 'c) system \<Rightarrow> string \<Rightarrow> string list \<Rightarrow> goerror option \<Rightarrow> ('e, 'c) world \<Rightarrow> goerror option \<times> ('e, 'c) world"
  where
  "remove_each sys userId [] err w = (err, w)"
| "remove_each sys userId (i # is) err w =
     (case RemoveProcessInstance sys i userId w of
        (r, w1) \<Rightarrow> remove_each sys userId is
          (join_errors err (case r of Inl e \<Rightarrow> Some e | Inr _ \<Rightarrow> None)) w1)"

definition running_with_key :: "string \<Rightarrow> HistoricProcessInstance list \<Rightarrow> string list" where
  "running_with_key businessKey instances =
     map hi_Id (filter (\<lambda>x. hi_EndTime x = '''' \<and> hi_BusinessKey x = businessKey) instances)"

definition V2_DeleteProcessInstancesByBusinessKey ::
  "('e, 'c) system \<Rightarrow> api_request \<Rightarrow> ('e, 'c, string) handler" where
  "V2_DeleteProcessInstancesByBusinessKey sys rq =
     with_token sys rq (\<lambda>token.
       let businessKey = path_value rq ''business_key''; userId = GetUserId token
       in attempt (GetFilteredProcessInstanceHistoryList sys userId [(''processInstanceBusinessKey'', [businessKey])])
            internal (\<lambda>instances w.
              (case remove_each sys userId (running_with_key businessKey instances) None w of
                 (Some err, w1) \<Rightarrow> (internal err, w1)
               | (None, w1) \<Rightarrow> (Json ''ok'', w1))))"

section \<open>Events\<close>

text \<open>\<open>fmt.Fprint\<close> of a byte slice: the numbers of the bytes in brackets.\<close>

definition print_bytes :: "string \<Rightarrow> string" where
  "print_bytes bs = ''['' @ str_join (map (\<lambda>c. itoa (of_char c)) bs) '' '' @ '']''"

definition decode_object :: "json \<Rightarrow> (string \<times> json) list option res" where
  "decode_object j =
     (case j of
        JNull \<Rightarrow> Inr None
      | JObj ms \<Rightarrow> Inr (Some (fold (\<lambda>(k, v). AList.update k v) ms []))
      | _ \<Rightarrow> Inl (JsonError ''json: cannot unmarshal into Go value of type map''))"

text \<open>
  Whose event it is: the token's user, or for admins the tenant that the message names. The message
  is \<open>None\<close> for a nil map, which \<open>json.Unmarshal\<close> makes of \<open>null\<close>.
\<close>

definition event_user :: "Token \<Rightarrow> (string \<times> json) list option \<Rightarrow> string option" where
  "event_user token msg =
     (if IsAdmin token then
        (case Option.bind msg (\<lambda>m. map_of m ''tenantId'') of
           None \<Rightarrow> Some (GetUserId token)
         | Some (JStr s) \<Rightarrow> Some s
         | Some _ \<Rightarrow> None)
      else Some (GetUserId token))"

text \<open>\<open>SendEventTrigger\<close> on a nil map: after the shard is known, writing the tenant panics.\<close>

definition trigger :: "('e, 'c) system \<Rightarrow> string \<Rightarrow> (string \<times> json) list option \<Rightarrow> ('e, 'c, unit) handler" where
  "trigger sys userId msg =
     (case msg of
        None \<Rightarrow> attempt (ensure_shard sys userId) internal (\<lambda>_. respond Panicked)
      | Some m \<Rightarrow> attempt (SendEventTrigger sys userId m) internal (\<lambda>resp. respond (Text (print_bytes resp))))"

definition V2_TriggerEvent :: "('e, 'c) system \<Rightarrow> api_request \<Rightarrow> ('e, 'c, unit) handler" where
  "V2_TriggerEvent sys rq w =
     with_token sys rq (\<lambda>token.
     with_body rq decode_object (\<lambda>msg.
       (case event_user token msg of
          None \<Rightarrow> respond (http_error ''expect string in tenantId'' 400)
        | Some userId \<Rightarrow> trigger sys userId msg)))
     (w\<lparr>event_messages := event_messages w + 1\<rparr>)"

section \<open>The description of the API\<close>

text \<open>The text of the library, without its empty host.\<close>

definition Swagger :: "('e, 'c) system \<Rightarrow> ('e, 'c, unit) handler" where
  "Swagger sys =
     (case ReadDoc sys of
        Inl err \<Rightarrow> respond (http_error ''Internal Server Error'' 500)
      | Inr doc \<Rightarrow> respond (Text (replace_first doc
          ([CHR 0x22] @ ''host'' @ [CHR 0x22] @ '': '' @ [CHR 0x22, CHR 0x22] @ '','') '''')))"

end
