(* ===== verification/ApiV1.thy ===== *)
theory ApiV1
  imports Api
begin

text \<open>
  The endpoints of version 1 (\<open>lib/api/v1endpoints.go\<close>). Those with the code of version 2 are the
  handlers of version 2; the other ones are written out.
\<close>

section \<open>As in version 2\<close>

definition V1_StartProcessDefinition :: "('e, 'c) system \<Rightarrow> api_request \<Rightarrow> ('e, 'c, string list) handler" where
  "V1_StartProcessDefinition = V2_StartProcessDefinition"

definition V1_StartProcessDefinitionAndGetInstanceId ::
  "('e, 'c) system \<Rightarrow> api_request \<Rightarrow> ('e, 'c, ProcessInstance) handler" where
  "V1_StartProcessDefinitionAndGetInstanceId = V2_StartProcessDefinitionAndGetInstanceId"

definition V1_GetDeployment :: "('e, 'c) system \<Rightarrow> api_request \<Rightarrow> ('e, 'c, CamundaDeployment) handler" where
  "V1_GetDeployment = V2_GetDeployment"

definition V1_DeploymentExists :: "('e, 'c) system \<Rightarrow> api_request \<Rightarrow> ('e, 'c, bool) handler" where
  "V1_DeploymentExists = V2_DeploymentExists"

definition V1_StartDeployment :: "('e, 'c) system \<Rightarrow> api_request \<Rightarrow> ('e, 'c, ProcessInstance) handler" where
  "V1_StartDeployment = V2_StartDeployment"

definition V1_GetDeploymentParameters ::
  "('e, 'c) system \<Rightarrow> api_request \<Rightarrow> ('e, 'c, (string \<times> Variable) list) handler" where
  "V1_GetDeploymentParameters = V2_GetDeploymentParameters"

definition V1_GetDeploymentDefinition ::
  "('e, 'c) system \<Rightarrow> api_request \<Rightarrow> ('e, 'c, ProcessDefinition list) handler" where
  "V1_GetDeploymentDefinition = V2_GetDeploymentDefinition"

definition V1_GetDeployments :: "('e, 'c) system \<Rightarrow> api_request \<Rightarrow> ('e, 'c, ExtendedDeployment list) handler" where
  "V1_GetDeployments = V2_ListDeployments"

definition V1_GetProcessDefinition :: "('e, 'c) system \<Rightarrow> api_request \<Rightarrow> ('e, 'c, ProcessDefinition) handler" where
  "V1_GetProcessDefinition = V2_GetProcessDefinition"

definition V1_GetProcessDefinitionDiagram :: "('e, 'c) system \<Rightarrow> api_request \<Rightarrow> ('e, 'c, unit) handler" where
  "V1_GetProcessDefinitionDiagram = V2_GetProcessDefinitionDiagram"

definition V1_GetProcessInstances :: "('e, 'c) system \<Rightarrow> api_request \<Rightarrow> ('e, 'c, ProcessInstance list) handler" where
  "V1_GetProcessInstances = V2_ListProcessInstances"

definition V1_GetProcessInstanceCount :: "('e, 'c) system \<Rightarrow> api_request \<Rightarrow> ('e, 'c, Count) handler" where
  "V1_GetProcessInstanceCount = V2_GetProcessInstanceCount"

definition V1_DeleteHistoricPricessInstance :: "('e, 'c) system \<Rightarrow> api_request \<Rightarrow> ('e, 'c, string) handler" where
  "V1_DeleteHistoricPricessInstance = V2_DeleteHistoricProcessInstance"

definition V1_DeleteProcessInstance :: "('e, 'c) system \<Rightarrow> api_request \<Rightarrow> ('e, 'c, string) handler" where
  "V1_DeleteProcessInstance = V2_DeleteProcessInstance"

section \<open>Version 1 only\<close>

definition V1_HealthCheck :: "api_request \<Rightarrow> ('e, 'c, (string \<times> string) list) handler" where
  "V1_HealthCheck rq = respond (Json [(''status'', ''OK'')])"

definition V1_GetHistoricProcessInstances ::
  "('e, 'c) system \<Rightarrow> api_request \<Rightarrow> ('e, 'c, HistoricProcessInstance list) handler" where
  "V1_GetHistoricProcessInstances sys rq =
     with_token sys rq (\<lambda>token. encode (GetProcessInstanceHistoryList sys (GetUserId token)))"

definition V1_GetFilteredHistoricProcessInstances ::
  "('e, 'c) system \<Rightarrow> api_request \<Rightarrow> ('e, 'c, HistoricProcessInstance list) handler" where
  "V1_GetFilteredHistoricProcessInstances sys rq =
     with_token sys rq (\<lambda>token.
       encode (GetFilteredProcessInstanceHistoryList sys (GetUserId token) (query rq)))"

definition V1_GetFinishedProcessInstances ::
  "('e, 'c) system \<Rightarrow> api_request \<Rightarrow> ('e, 'c, HistoricProcessInstance list) handler" where
  "V1_GetFinishedProcessInstances sys rq =
     with_token sys rq (\<lambda>token. encode (GetProcessInstanceHistoryListFinished sys (GetUserId token)))"

definition V1_GetUnfinishedProcessInstances ::
  "('e, 'c) system \<Rightarrow> api_request \<Rightarrow> ('e, 'c, HistoricProcessInstance list) handler" where
  "V1_GetUnfinishedProcessInstances sys rq =
     with_token sys rq (\<lambda>token. encode (GetProcessInstanceHistoryListUnfinished sys (GetUserId token)))"

definition V1_FindFinishedProcessInstances ::
  "('e, 'c) system \<Rightarrow> api_request \<Rightarrow> ('e, 'c, HistoricProcessInstancesWithTotal) handler" where
  "V1_FindFinishedProcessInstances sys rq =
     (let searchvalue = path_value rq ''searchvalue''; searchtype = path_value rq ''searchtype'';
          limit = path_value rq ''limit''; offset = path_value rq ''offset'';
          sortby = path_value rq ''sortby''; sortdirection = path_value rq ''sortdirection''
      in with_token sys rq (\<lambda>token.
         encode (GetProcessInstanceHistoryListWithTotal sys (GetUserId token) searchtype searchvalue limit offset
                   sortby sortdirection True)))"

definition V1_FindUnfinishedProcessInstances ::
  "('e, 'c) system \<Rightarrow> api_request \<Rightarrow> ('e, 'c, HistoricProcessInstancesWithTotal) handler" where
  "V1_FindUnfinishedProcessInstances sys rq =
     (let searchvalue = path_value rq ''searchvalue''; searchtype = path_value rq ''searchtype'';
          limit = path_value rq ''limit''; offset = path_value rq ''offset'';
          sortby = path_value rq ''sortby''; sortdirection = path_value rq ''sortdirection''
      in with_token sys rq (\<lambda>token.
         encode (GetProcessInstanceHistoryListWithTotal sys (GetUserId token) searchtype searchvalue limit offset
                   sortby sortdirection False)))"

section \<open>History of a definition\<close>

definition V1_GetHistoricProcessInstancesOfProcessDefinition ::
  "('e, 'c) system \<Rightarrow> api_request \<Rightarrow> ('e, 'c, HistoricProcessInstance list) handler" where
  "V1_GetHistoricProcessInstancesOfProcessDefinition sys rq =
     (let i = path_value rq ''id''
      in with_token sys rq (\<lambda>token.
         attempt (CheckProcessDefinitionAccess sys i (GetUserId token)) access_denied (\<lambda>_.
         encode (GetProcessInstanceHistoryByProcessDefinition sys i (GetUserId token)))))"

definition V1_GetFinishedProcessInstancesOfProcessDefinition ::
  "('e, 'c) system \<Rightarrow> api_request \<Rightarrow> ('e, 'c, HistoricProcessInstance list) handler" where
  "V1_GetFinishedProcessInstancesOfProcessDefinition sys rq =
     (let i = path_value rq ''id''
      in with_token sys rq (\<lambda>token.
         attempt (CheckProcessDefinitionAccess sys i (GetUserId token)) access_denied (\<lambda>_.
         encode (GetProcessInstanceHistoryByProcessDefinitionFinished sys i (GetUserId token)))))"

definition V1_GetUnfinishedProcessInstancesOfProcessDefinition ::
  "('e, 'c) system \<Rightarrow> api_request \<Rightarrow> ('e, 'c, HistoricProcessInstance list) handler" where
  "V1_GetUnfinishedProcessInstancesOfProcessDefinition sys rq =
     (let i = path_value rq ''id''
      in with_token sys rq (\<lambda>token.
         attempt (CheckProcessDefinitionAccess sys i (GetUserId token)) access_denied (\<lambda>_.
         encode (GetProcessInstanceHistoryByProcessDefinitionUnfinished sys i (GetUserId token)))))"

end
