(* ===== verification/Frames.thy ===== *)
theory Frames
  imports ApiV1
begin

text \<open>
  What an operation can do to the shared state, as a predicate that is closed under the ways the
  code combines operations: it uses the shards only by the operations of the component
  \<open>shards\<close>, leaves the relation of ids as it is, and makes only requests of a given kind. One
  introduction rule per operation; the rules for handlers follow from them.
\<close>

section \<open>Using the shards\<close>

text \<open>\<open>U\<close>: the users whose shard may be looked up, which assigns one to those who have none.\<close>

inductive shard_steps ::
  "('e, 'c) system \<Rightarrow> string set \<Rightarrow> 'c \<times> shard_db sql \<Rightarrow> 'c \<times> shard_db sql \<Rightarrow> bool" for sys U where
  none: "shard_steps sys U s s"
| ensure: "shard_steps sys U s s1 \<Longrightarrow> u \<in> U \<Longrightarrow>
    shard_steps sys U s (snd (EnsureShardForUser (cache_use sys) (map_order sys) u s1))"
| list: "shard_steps sys U s s1 \<Longrightarrow> shard_steps sys U s (snd (GetShards (cache_use_list sys) s1))"

lemma shard_steps_trans: "shard_steps sys U s1 s2 \<Longrightarrow> shard_steps sys U s s1 \<Longrightarrow> shard_steps sys U s s2"
  by (induction rule: shard_steps.induct) (auto intro: shard_steps.intros)

lemma shard_steps_mono: "shard_steps sys U s s1 \<Longrightarrow> U \<subseteq> U' \<Longrightarrow> shard_steps sys U' s s1"
  by (induction rule: shard_steps.induct) (auto intro: shard_steps.intros)

section \<open>The frame\<close>

definition same_relation :: "vid_db sql \<Rightarrow> vid_db sql \<Rightarrow> bool" where
  "same_relation s s1 \<longleftrightarrow> committed s1 = committed s \<and> (cuts s = [] \<longrightarrow> cuts s1 = [])"

lemma same_relation_refl [simp]: "same_relation s s"
  by (simp add: same_relation_def)

lemma same_relation_trans: "same_relation s s1 \<Longrightarrow> same_relation s1 s2 \<Longrightarrow> same_relation s s2"
  by (simp add: same_relation_def)

definition stays ::
  "('e, 'c) system \<Rightarrow> string set \<Rightarrow> (request \<Rightarrow> bool) \<Rightarrow> ('e, 'c) world \<Rightarrow> ('e, 'c) world \<Rightarrow> bool" where
  "stays sys U good w w1 \<longleftrightarrow> shard_steps sys U (shards w) (shards w1) \<and>
     same_relation (vids w) (vids w1) \<and> (\<exists>rqs. sent w1 = sent w @ rqs \<and> list_all good rqs)"

lemma stays_refl [simp]: "stays sys U good w w"
  by (simp add: stays_def shard_steps.none)

lemma stays_trans: "stays sys U good w w1 \<Longrightarrow> stays sys U good w1 w2 \<Longrightarrow> stays sys U good w w2"
  by (auto simp: stays_def intro: shard_steps_trans same_relation_trans)

lemma stays_mono:
  "stays sys U good w w1 \<Longrightarrow> U \<subseteq> U' \<Longrightarrow> (\<And>rq. good rq \<Longrightarrow> good' rq) \<Longrightarrow> stays sys U' good' w w1"
  by (auto simp: stays_def list_all_iff intro: shard_steps_mono)

abbreviation frame ::
  "('e, 'c) system \<Rightarrow> string set \<Rightarrow> (request \<Rightarrow> bool) \<Rightarrow> (('e, 'c) world \<Rightarrow> 'a \<times> ('e, 'c) world) \<Rightarrow> bool" where
  "frame sys U good \<equiv> always (stays sys U good)"

interpretation framed: world_preorder "stays sys U good" for sys :: "('e, 'c) system" and U good
  by unfold_locales (auto intro: stays_trans)

lemmas frame_def = always_def [of "stays sys U good" for sys U good]
lemmas frameI = alwaysI [of _ "stays sys U good" for sys U good]
lemmas frameD = alwaysD [of "stays sys U good" for sys U good]

lemma frame_mono:
  "frame sys U good m \<Longrightarrow> U \<subseteq> U' \<Longrightarrow> (\<And>rq. good rq \<Longrightarrow> good' rq) \<Longrightarrow> frame sys U' good' m"
  unfolding frame_def using stays_mono by blast

named_theorems frames \<open>what stays in a frame\<close>

lemmas frame_rules [frames] = framed.pure framed.seq framed.responds framed.attempts
  framed.attempts_code framed.handles always_cases [of "stays sys U good" for sys U good] UNIV_I

text \<open>The users that a request names by its token: one, or none.\<close>

definition token_users :: "('e, 'c) system \<Rightarrow> api_request \<Rightarrow> string set" where
  "token_users sys rq = {GetUserId token | token. GetParsedToken sys rq = Inr token}"

lemma token_users [frames]: "GetParsedToken sys rq = Inr token \<Longrightarrow> GetUserId token \<in> token_users sys rq"
  by (auto simp: token_users_def)

lemma frame_decoded_reply [frames]: "frame sys U good (decoded_reply dec rp)"
  by (simp add: frame_def decoded_reply_def)

lemma frame_bodies [frames]: "frame sys U good (read_body sys rp)" "frame sys U good (copy_body sys rp)"
  by (simp_all add: frame_def read_body_def copy_body_def split: option.split)

section \<open>The operations at the bottom\<close>

lemma frame_ensure_shard [frames]: "u \<in> U \<Longrightarrow> frame sys U good (ensure_shard sys u)"
  using shard_steps.ensure [OF shard_steps.none, of u U sys]
  by (simp add: frame_def ensure_shard_def on_shards_def stays_def split: prod.split) (metis snd_conv)

lemma frame_get_shards [frames]: "frame sys U good (get_shards sys)"
  using shard_steps.list [OF shard_steps.none, of sys U]
  by (simp add: frame_def get_shards_def on_shards_def stays_def split: prod.split) (metis snd_conv)

lemma frame_send: "good rq \<Longrightarrow> frame sys U good (send sys rq)"
  by (auto simp: send_def stays_def shard_steps.none intro!: frameI split: prod.splits)

lemma frame_Get [frames]: "good (get_request url) \<Longrightarrow> frame sys U good (Get sys dec url)"
  using frameD [OF frame_send [of good "get_request url" sys]]
  by (fastforce simp: Get_def intro!: frameI split: prod.splits reply.splits if_splits)

lemma frame_request_ok [frames]: "good rq \<Longrightarrow> frame sys U good (request_ok sys rq ok msg)"
  using frameD [OF frame_send [of good rq sys]]
  by (fastforce simp: request_ok_def intro!: frameI split: prod.splits reply.splits if_splits)

lemma frame_on_vids:
  assumes "\<And>s r s1. m s = (r, s1) \<Longrightarrow> same_relation s s1"
  shows "frame sys U good (on_vids m)"
  using assms by (auto simp: on_vids_def stays_def shard_steps.none intro!: frameI split: prod.splits)

lemma next_fault_cuts: "next_fault s = (f, s1) \<Longrightarrow> cuts s1 = cuts s"
  by (auto simp: next_fault_def split: list.splits)

lemma exec_db_cuts: "exec_db q s = (r, s1) \<Longrightarrow> cuts s1 = cuts s"
  by (auto simp: exec_db_def dest: next_fault_cuts split: fault.splits sum.splits prod.splits)

lemma query_same:
  assumes "exec_db q s = (r, s1)" and "\<And>d. q d = Inr (f d, d)"
  shows "same_relation s s1"
  using exec_db_query(1) [OF assms] exec_db_cuts [OF assms(1)] by (simp add: same_relation_def)

lemma fetch_same: "fetch rows s = (r, s1) \<Longrightarrow> same_relation s s1"
  by (auto simp: fetch_def same_relation_def split: list.splits)

lemma GetDeploymentId_same: "GetDeploymentId vid s = (r, s1) \<Longrightarrow> same_relation s s1"
  using query_same [OF _ sql_deployments_of_def] fetch_same same_relation_trans
  by (fastforce simp: GetDeploymentId_def andThen_def exec_def split: prod.splits sum.splits)

lemma GetVirtualId_same: "GetVirtualId did s = (r, s1) \<Longrightarrow> same_relation s s1"
  using query_same [OF _ sql_vids_of_def] fetch_same same_relation_trans
  by (fastforce simp: GetVirtualId_def andThen_def exec_def split: prod.splits sum.splits)

lemma VidExists_same: "VidExists vid s = (r, s1) \<Longrightarrow> same_relation s s1"
  using query_same [OF _ sql_count_vid_def]
  by (fastforce simp: VidExists_def andThen_def exec_def split: prod.splits sum.splits)

lemma SetVid_same: "SetVid gt st x s = (r, s1) \<Longrightarrow> same_relation s s1"
  using GetVirtualId_same
  by (fastforce simp: SetVid_def andThen_def split: prod.splits sum.splits option.splits)

lemma frame_vids [frames]:
  "frame sys U good (on_vids (GetDeploymentId vid))" "frame sys U good (on_vids (VidExists vid))"
  "frame sys U good (set_vid_definition d)" "frame sys U good (set_vid_deployment dp)"
  unfolding set_vid_definition_def set_vid_deployment_def
  by (rule frame_on_vids, erule GetDeploymentId_same VidExists_same SetVid_same)+

section \<open>Reading from the engines\<close>

definition gets :: "request \<Rightarrow> bool" where
  "gets rq \<longleftrightarrow> rq_method rq = ''GET''"

lemma gets_get_request [frames]: "gets (get_request url)"
  by (simp add: gets_def get_request_def)

lemma frame_engine_get [frames]: "u \<in> U \<Longrightarrow> frame sys U gets (engine_get sys dec path u)"
  unfolding engine_get_def by (intro frames)

lemma frame_checks [frames]:
  "u \<in> U \<Longrightarrow> frame sys U gets (CheckProcessDefinitionAccess sys i u)" "u \<in> U \<Longrightarrow> frame sys U gets (CheckDeploymentAccess sys i u)"
  "u \<in> U \<Longrightarrow> frame sys U gets (CheckHistoryAccess sys i u)"
  unfolding CheckProcessDefinitionAccess_def CheckDeploymentAccess_def CheckHistoryAccess_def
  by (intro frames; assumption)+

lemma frame_CheckProcessInstanceAccess [frames]:
  assumes "u \<in> U"
  shows "frame sys U gets (CheckProcessInstanceAccess sys i u)"
proof (rule frameI)
  fix w r w1 assume "CheckProcessInstanceAccess sys i u w = (r, w1)"
  then show "stays sys U gets w w1"
    using frameD [OF frame_ensure_shard [OF assms, of sys gets]]
      frameD [OF frame_send [of gets "get_request (instance_url _ i)" sys, OF gets_get_request]] stays_trans
    by (fastforce simp: CheckProcessInstanceAccess_def split: prod.splits sum.splits reply.splits if_splits)
qed

lemma frame_lists [frames]:
  assumes "u \<in> U"
  shows "frame sys U gets (GetProcessInstanceHistoryByProcessDefinition sys i u)"
  "frame sys U gets (GetProcessInstanceHistoryByProcessDefinitionFinished sys i u)"
  "frame sys U gets (GetProcessInstanceHistoryByProcessDefinitionUnfinished sys i u)"
  "frame sys U gets (GetProcessInstanceHistoryList sys u)"
  "frame sys U gets (GetFilteredProcessInstanceHistoryList sys u q)"
  "frame sys U gets (GetFilteredProcessInstanceHistoryListWithTotal sys u q)"
  "frame sys U gets (GetProcessInstanceHistoryListFinished sys u)"
  "frame sys U gets (GetProcessInstanceHistoryListUnfinished sys u)"
  "frame sys U gets (GetProcessInstanceCount sys u)" "frame sys U gets (GetProcessInstanceList sys u)"
  "frame sys U gets (GetRawDefinitionsByDeployment sys i u)" "frame sys U gets (GetProcessDefinition sys i u)"
  "frame sys U gets (GetDeployment sys i u)" "frame sys U gets (GetInstancesByDeploymentVid sys i u)"
  "frame sys U gets (GetProcessInstanceHistoryListWithTotal sys u st sv li off so sd fin)"
  unfolding GetProcessInstanceHistoryByProcessDefinition_def
    GetProcessInstanceHistoryByProcessDefinitionFinished_def
    GetProcessInstanceHistoryByProcessDefinitionUnfinished_def GetProcessInstanceHistoryList_def
    GetFilteredProcessInstanceHistoryList_def GetFilteredProcessInstanceHistoryListWithTotal_def
    GetProcessInstanceHistoryListFinished_def GetProcessInstanceHistoryListUnfinished_def
    GetProcessInstanceCount_def GetProcessInstanceList_def GetRawDefinitionsByDeployment_def
    GetProcessDefinition_def GetDeployment_def GetInstancesByDeploymentVid_def
    GetProcessInstanceHistoryListWithTotal_def Let_def
  using assms by (intro frames; assumption)+

lemma frame_set_vid_all [frames]: "frame sys U good (set_vid_all ds)"
  by (induction ds) (simp_all, (intro frames | assumption)+)

lemma frame_GetDefinitionByDeploymentVid [frames]: "u \<in> U \<Longrightarrow> frame sys U gets (GetDefinitionByDeploymentVid sys i u)"
  unfolding GetDefinitionByDeploymentVid_def by (intro frames)

lemma frame_pure_result: "frame sys U good m \<Longrightarrow> frame sys U good (\<lambda>w. case m w of (r, w1) \<Rightarrow> (f r, w1))"
  by (simp add: frame_def split: prod.split) (metis snd_conv)

lemma frame_known_deployments [frames]:
  fixes sys :: "('e, 'c) system"
  shows "frame sys U good (known_deployments ds)"
proof (induction ds)
  case (Cons d ds)
  show ?case
  proof (rule frameI)
    fix w w1 :: "('e, 'c) world" and r assume "known_deployments (d # ds) w = (r, w1)"
    then show "stays sys U good w w1"
      using frameD [OF frame_vids(4) [of sys U good d]] frameD [OF Cons.IH] stays_trans
      by (fastforce split: prod.splits)
  qed
qed (simp add: frame_def)

lemma frame_GetDeploymentList [frames]: "u \<in> U \<Longrightarrow> frame sys U gets (GetDeploymentList sys u q)"
  unfolding GetDeploymentList_def by (intro frames frame_pure_result)

lemma frame_GetProcessDefinitionDiagram [frames]:
  assumes "u \<in> U"
  shows "frame sys U gets (GetProcessDefinitionDiagram sys i u)"
proof -
  have d: "frame sys U gets (\<lambda>w. case send sys (get_request url) w of
      (HttpFail err, w1) \<Rightarrow> (Inl err, w1) | (rp, w1) \<Rightarrow> (Inr rp, w1))" for url
    using frameD [OF frame_send [of gets "get_request url" sys, OF gets_get_request]]
    by (auto intro!: frameI split: prod.splits reply.splits)
  show ?thesis unfolding GetProcessDefinitionDiagram_def using assms by (intro frames d)
qed

lemma frame_GetExtendedDeployment [frames]: "u \<in> U \<Longrightarrow> frame sys U gets (GetExtendedDeployment sys d u)"
  unfolding GetExtendedDeployment_def by (intro frames)

lemma frame_extend_all [frames]:
  assumes "u \<in> U"
  shows "frame sys U gets (extend_all sys u ds)"
proof (induction ds)
  case (Cons d ds)
  show ?case
  proof (rule frameI)
    fix w r w1 assume "extend_all sys u (d # ds) w = (r, w1)"
    then show "stays sys U gets w w1"
      using frameD [OF frame_GetExtendedDeployment [OF assms, of sys d]] frameD [OF Cons.IH] stays_trans
      by (fastforce split: prod.splits)
  qed
qed (simp add: frame_def)

lemma frame_GetExtendedDeploymentList [frames]: "u \<in> U \<Longrightarrow> frame sys U gets (GetExtendedDeploymentList sys u q)"
  unfolding GetExtendedDeploymentList_def by (intro frames frame_pure_result)

lemma frame_filterParameter [frames]: "frame sys U gets (filterParameter sys shard i vs)"
proof -
  have "frame sys U gets (getProcessDefinitionXml sys shard i)"
    unfolding getProcessDefinitionXml_def by (intro frames)
  from frameD [OF this] show ?thesis
    by (fastforce simp: filterParameter_def intro!: frameI split: prod.splits sum.splits)
qed

lemma frame_GetProcessParameters [frames]: "u \<in> U \<Longrightarrow> frame sys U gets (GetProcessParameters sys i u)"
  unfolding GetProcessParameters_def by (intro frames)

section \<open>Changing something at the engines\<close>

definition anything :: "request \<Rightarrow> bool" where
  "anything rq \<longleftrightarrow> True"

lemma anything [frames]: "anything rq"
  by (simp add: anything_def)

lemma frame_anything: "frame sys U gets m \<Longrightarrow> frame sys UNIV anything m"
  by (erule frame_mono) (rule subset_UNIV, rule anything)

lemmas frame_reads [frames] = frame_checks [OF UNIV_I, THEN frame_anything]
  frame_CheckProcessInstanceAccess [OF UNIV_I, THEN frame_anything] frame_lists [OF UNIV_I, THEN frame_anything]
  frame_GetDefinitionByDeploymentVid [OF UNIV_I, THEN frame_anything]

text \<open>What every request does to the environment, \<open>EnsureAccess\<close> does to it.\<close>

lemma EnsureAccess_env:
  assumes net: "\<And>rq e rp e1. net rq e = (rp, e1) \<Longrightarrow> P e e1"
    and refl: "\<And>e. P e e" and trans: "\<And>e e1 e2. P e e1 \<Longrightarrow> P e1 e2 \<Longrightarrow> P e e2"
    and run: "EnsureAccess net now cfg (this, e) = (r, this', e')"
  shows "P e e'"
proof -
  have get: "P e0 (snd (GetOpenidToken net now cfg e0))" for e0
    using net by (auto simp: GetOpenidToken_def split: prod.split reply.split sum.split)
  have refresh: "P e0 (snd (RefreshOpenidToken net now cfg rt e0))" for e0 rt
    using net by (auto simp: RefreshOpenidToken_def split: prod.split reply.split sum.split)
  define renew where "renew = (\<lambda>e1. case GetOpenidToken net now cfg e1 of
      (Inl err, e2) \<Rightarrow> (Inl err, zero_token, e2)
    | (Inr openid, e2) \<Rightarrow> (Inr (''Bearer '' @ AccessToken openid), openid, e2))"
  have renew: "P e0 (snd (snd (renew e0)))" for e0
    using get [of e0] by (auto simp: renew_def split: prod.split sum.split)
  obtain rf ef where f: "RefreshOpenidToken net now cfg (RefreshToken this) e = (rf, ef)"
    by (cases "RefreshOpenidToken net now cfg (RefreshToken this) e")
  have "e' = e \<or> e' = snd (snd (renew e)) \<or> e' = ef \<or> e' = snd (snd (renew ef))"
    using run f by (auto simp: EnsureAccess_def Let_def renew_def [symmetric] split: if_splits sum.splits)
  with refl renew refresh [of e "RefreshToken this"] trans f show ?thesis by (metis snd_conv)
qed

lemma frame_ensure_access [frames]: "frame sys UNIV anything (ensure_access sys)"
proof (rule frameI)
  fix w r w1 assume e: "ensure_access sys w = (r, w1)"
  define net where "net = (\<lambda>rq (e, tr :: request list). case http sys rq e of (rp, e1) \<Rightarrow> (rp, e1, tr @ [rq]))"
  obtain tok e1 tr where run: "EnsureAccess net (\<lambda>(e, tr). clock sys e) (auth_cfg sys) (access w, env w, sent w) =
      (r, tok, e1, tr)" and w1: "w1 = w\<lparr>access := tok, env := e1, sent := tr\<rparr>"
    using e by (auto simp: ensure_access_def Let_def net_def split: prod.splits)
  have "\<exists>rqs. snd (e1, tr) = snd (env w, sent w) @ rqs"
    by (rule EnsureAccess_env [OF _ _ _ run]) (auto simp: net_def split: prod.splits)
  with w1 show "stays sys UNIV anything w w1"
    by (auto simp: stays_def shard_steps.none anything_def list_all_iff)
qed

lemma frame_process_io [frames]:
  "frame sys UNIV anything (DeleteProcessDefinition sys i)" "frame sys UNIV anything (DeleteProcessInstance sys i)"
  unfolding DeleteProcessDefinition_def DeleteProcessInstance_def process_io_delete_def by (intro frames)+

lemma frame_process_io_first [frames]: "frame sys UNIV anything (process_io_first sys i)"
  unfolding process_io_first_def by (intro frames)

lemma frame_changes [frames]:
  "frame sys UNIV anything (StartProcess sys i bk u ps)" "frame sys UNIV anything (StartProcessGetId sys i bk u ps)"
  "frame sys UNIV anything (RemoveProcessInstance sys i u)" "frame sys UNIV anything (RemoveProcessInstanceHistory sys i u)"
  "frame sys UNIV anything (SendEventTrigger sys u msg)" "frame sys UNIV anything (SetProcessInstanceVariable sys i u vn vv)"
  unfolding StartProcess_def StartProcessGetId_def RemoveProcessInstance_def
    RemoveProcessInstanceHistory_def SendEventTrigger_def SetProcessInstanceVariable_def
  by (intro frames)+

lemma stays_env: "stays sys U good w (w\<lparr>env := e\<rparr>)"
  by (simp add: stays_def shard_steps.none)

lemma frame_DeleteHistoric [frames]: "frame sys UNIV anything (DeleteHistoricProcessInstance sys u i)"
proof (rule frameI)
  fix w r w1 assume d: "DeleteHistoricProcessInstance sys u i w = (r, w1)"
  obtain rc wc where c: "CheckHistoryAccess sys i u w = (rc, wc)" by (cases "CheckHistoryAccess sys i u w")
  obtain ri ei where inc: "DeleteIncidentByProcessInstanceId sys i (env wc) = (ri, ei)"
    by (cases "DeleteIncidentByProcessInstanceId sys i (env wc)")
  obtain rr wr where rm: "RemoveProcessInstanceHistory sys i u (wc\<lparr>env := ei\<rparr>) = (rr, wr)"
    by (cases "RemoveProcessInstanceHistory sys i u (wc\<lparr>env := ei\<rparr>)")
  have "w1 = wc \<or> w1 = wc\<lparr>env := ei\<rparr> \<or> w1 = wr"
    using d c inc rm by (auto simp: DeleteHistoricProcessInstance_def split: sum.splits prod.splits option.splits)
  moreover have "stays sys UNIV anything w wc" using frameD [OF frame_reads(3) c] .
  moreover have "stays sys UNIV anything (wc\<lparr>env := ei\<rparr>) wr" using frameD [OF frame_changes(4) rm] .
  ultimately show "stays sys UNIV anything w w1" using stays_env stays_trans by metis
qed

section \<open>Handlers\<close>

lemma frame_first_definition [frames]:
  "(\<And>d. frame sys UNIV anything (k d)) \<Longrightarrow> frame sys UNIV anything (first_definition sys i u k)"
  unfolding first_definition_def by (intro frames)

lemma frame_remove_instances [frames]: "frame sys UNIV anything (remove_instances sys u is)"
  by (induction "is") (simp_all, (intro frames | assumption)+)

lemma frame_remove_historic [frames]: "frame sys UNIV anything (remove_historic sys u is)"
  by (induction "is") (simp_all, (intro frames | assumption)+)

lemma frame_remove_each [frames]: "frame sys UNIV anything (remove_each sys u is err)"
proof (induction "is" arbitrary: err)
  case (Cons i "is")
  show ?case
  proof (rule frameI)
    fix w r w1 assume "remove_each sys u (i # is) err w = (r, w1)"
    then show "stays sys UNIV anything w w1"
      using frameD [OF frame_changes(3) [of sys i u]] frameD [OF Cons.IH] stays_trans
      by (fastforce split: prod.splits)
  qed
qed (simp add: frame_def)

lemma frame_trigger [frames]: "frame sys UNIV anything (trigger sys u msg)"
  unfolding trigger_def by (intro frames)

lemmas frame_more_reads [frames] = frame_GetProcessParameters [OF UNIV_I, THEN frame_anything]
  frame_GetExtendedDeploymentList [OF UNIV_I, THEN frame_anything] frame_GetProcessDefinitionDiagram [OF UNIV_I, THEN frame_anything]

end
