(* ===== verification/Demo.thy ===== *)
theory Demo
  imports Controller
begin

text \<open>
  A small running system, the parameter of the witnesses: one shard, one deployment of the tenant
  \<open>alice\<close> with a virtual id, an engine that accepts every request, and a reader of documents that
  finds one process in every text.
\<close>

section \<open>A demonstration system\<close>

definition demo_http :: "request \<Rightarrow> unit \<Rightarrow> reply \<times> unit" where
  "demo_http rq e =
     ((if rq_method rq = ''POST'' then Reply 200 ''200 OK'' '''' (Inr (JObj [(''id'', JStr ''d9'')]))
       else if rq_method rq = ''DELETE'' then Reply 204 ''204 No Content'' '''' (Inl (JsonError ''EOF''))
       else if has_suffix (rq_url rq) ''/engine-rest/deployment/d1''
       then Reply 200 ''200 OK'' '''' (Inr (JObj [(''id'', JStr ''d1''), (''tenantId'', JStr ''alice'')]))
       else if has_suffix (rq_url rq) ''count?id=d1''
       then Reply 200 ''200 OK'' '''' (Inr (JObj [(''count'', JInt 1)]))
       else if has_suffix (rq_url rq) ''deployment?tenantIdIn=alice&''
       then Reply 200 ''200 OK'' '''' (Inr (JArr [JObj [(''id'', JStr ''d1'')], JObj [(''id'', JStr ''d7'')]]))
       else Reply 200 ''200 OK'' '''' (Inr JNull)), e)"

definition demo_system :: "(unit, unit) system" where
  "demo_system =
     \<lparr>http = demo_http, clock = (\<lambda>_. 0), time_text = (\<lambda>_. ''now''), anonymous_url = (\<lambda>u. u),
      cache_use = none_use Inr Inr,
      cache_use_list = none_use (\<lambda>_. Inr '''') (\<lambda>_. Inr []), map_order = (\<lambda>xs. xs),
      auth_cfg = \<lparr>AuthEndpoint = '''', AuthClientId = '''', AuthClientSecret = ''''\<rparr>,
      ProcessIoUrl = '''', NotificationUrl = '''',
      SetOnIncidentHandler = (\<lambda>_ _ _ e. (None, e)),
      DeleteIncidentByProcessDefinitionId = (\<lambda>_ e. (None, e)),
      DeleteIncidentByProcessInstanceId = (\<lambda>_ e. ((None, 200), e)),
      xml_decoder = (\<lambda>_. ([RawStart ''bpmn'' ''process'' [('''', ''id'', ''P'')], RawEnd ''bpmn'' ''process''], None)),
      xml_unmarshal = (\<lambda>_. None), json_decoder = (\<lambda>_. Inr JNull),
      parse_jwt = (\<lambda>t. Inr \<lparr>tk_Token = '''', tk_Sub = ''alice'',
        tk_RealmAccess = [(''roles'', if t = ''root'' then [''admin''] else [''user''])]\<rparr>),
      ReadDoc = Inr ''{}'', body_error = (\<lambda>_. None)\<rparr>"

definition demo_world :: "(unit, unit) world" where
  "demo_world =
     \<lparr>env = (), shards = ((), demo_sql demo_db []), vids = demo_vid [] [] [(''d1'', ''v1'')],
      access = zero_token, event_messages = 0, sent = []\<rparr>"

definition demo_message :: DeploymentMessage where
  "demo_message =
     \<lparr>dm_Id = ''v1'', dm_Name = ''n'', dm_Diagram = \<lparr>dg_XmlDeployed = ''doc'', dg_Svg = ''<svg/>''\<rparr>,
      dm_IncidentHandling = None, dm_UserId = ''alice'', dm_Source = ''''\<rparr>"

text \<open>The rewriting of the demonstration's document, which does not depend on the text.\<close>

lemma demo_SetProcessId:
  "\<exists>x. x \<noteq> '''' \<and> SetProcessId (xml_decoder demo_system) xml i = Inr x"
proof -
  let ?dec = "\<lambda>_. ([RawStart ''bpmn'' ''process'' [('''', ''id'', ''P'')], RawEnd ''bpmn'' ''process''], None)"
  let ?as = "[\<lparr>a_space = '''', a_key = ''id'', a_value = ''P''\<rparr>]"
  let ?r = "Element 0 '''' '''' [] [Element 1 ''bpmn'' ''process'' ?as []]"
  let ?doc = "\<lparr>d_element = ?r, d_settings = newWriteSettings\<rparr>"
  have dec: "xml_decoder demo_system = ?dec" by (simp add: demo_system_def)
  have r: "ReadFromString ?dec xml (fst (NewDocument 0)) (snd (NewDocument 0)) = (None, ?doc, 2)"
    by (simp add: ReadFromString_def) code_simp
  from find_processes [OF r] obtain els where els:
    "FindElements (d_element ?doc) (d_element ?doc) ''//bpmn:process'' = Some els"
    "distinct (map addr els)" "mset els = mset (filter is_process (elements ?r))" by auto
  have "filter is_process (elements ?r) = [Element 1 ''bpmn'' ''process'' ?as []]" by code_simp
  with els(3) have "mset els = mset [Element 1 ''bpmn'' ''process'' ?as []]" by metis
  then have a: "map addr els = [1]" by simp
  let ?doc1 = "?doc\<lparr>d_element := edited (process_edit (normalizedId i) 0 [1]) ?r\<rparr>"
  from set_process_id_tree [OF r els(1,2), of i] a
  have s: "SetProcessId ?dec xml i = Inr (WriteToString ?doc1)" by simp
  have "take 1 (WriteToString ?doc1) = ''<''" by code_simp
  then have "WriteToString ?doc1 \<noteq> ''''" by force
  with s dec show ?thesis by auto
qed

lemma demo_prepared: "\<exists>x. prepare_xml demo_system demo_message = Inr x"
proof -
  have r: "fst (ReadFromString (xml_decoder demo_system) xml (fst (NewDocument 0)) (snd (NewDocument 0))) = None"
    for xml by (simp add: ReadFromString_def demo_system_def) code_simp
  obtain x0 where x0: "SecureProcessScripts (xml_decoder demo_system) ''doc'' = Inr x0"
    using secure_scripts_tree [of "xml_decoder demo_system" "''doc''"] r [of "''doc''"]
    by (metis prod.collapse)
  obtain x where x: "x \<noteq> ''''" "SetProcessId (xml_decoder demo_system) x0 ''v1'' = Inr x"
    using demo_SetProcessId by blast
  have "validateXml (xml_decoder demo_system) (xml_unmarshal demo_system) x"
    using x(1) r [of x] by (auto simp: validateXml_def NewDocument_def demo_system_def split: prod.splits option.splits)
  with x0 x(2) have "prepare_xml demo_system demo_message = Inr x"
    by (simp add: prepare_xml_def demo_message_def)
  then show ?thesis ..
qed

end
