(* ===== verification/Serve.thy ===== *)
theory Serve
  imports Frames Router Demo
begin

text \<open>
  The server as a whole: from a request to the state after its handler, and runs of the server, in
  which requests follow each other and the surroundings change in between. A run is what the
  properties of the service are stated over.
\<close>

section \<open>Answering a request\<close>

text \<open>The status code of a response; none, when the connection is closed without an answer.\<close>

definition status_of :: "'a response \<Rightarrow> int option" where
  "status_of r = (case r of Failure msg code \<Rightarrow> Some code | Panicked \<Rightarrow> None | _ \<Rightarrow> Some 200)"

definition answer :: "('e, 'c, 'a) handler \<Rightarrow> ('e, 'c) world \<Rightarrow> int option \<times> ('e, 'c) world" where
  "answer h w = (case h w of (r, w1) \<Rightarrow> (status_of r, w1))"

definition serve ::
  "('e, 'c) system \<Rightarrow> endpoint \<Rightarrow> api_request \<Rightarrow> ('e, 'c) world \<Rightarrow> int option \<times> ('e, 'c) world" where
  "serve sys ep rq =
     (case ep of
        Ep_Deploy \<Rightarrow> answer (Api_Deploy sys rq)
      | Ep_DeleteDeployment \<Rightarrow> answer (Api_DeleteDeployment sys rq)
      | Ep2_StartProcessDefinition \<Rightarrow> answer (V2_StartProcessDefinition sys rq)
      | Ep2_StartProcessDefinitionAndGetInstanceId \<Rightarrow> answer (V2_StartProcessDefinitionAndGetInstanceId sys rq)
      | Ep2_GetDeployment \<Rightarrow> answer (V2_GetDeployment sys rq)
      | Ep2_DeploymentExists \<Rightarrow> answer (V2_DeploymentExists sys rq)
      | Ep2_StartDeployment \<Rightarrow> answer (V2_StartDeployment sys rq)
      | Ep2_GetDeploymentParameters \<Rightarrow> answer (V2_GetDeploymentParameters sys rq)
      | Ep2_GetDeploymentDefinition \<Rightarrow> answer (V2_GetDeploymentDefinition sys rq)
      | Ep2_GetDeploymentInstances \<Rightarrow> answer (V2_GetDeploymentInstances sys rq)
      | Ep2_ListDeployments \<Rightarrow> answer (V2_ListDeployments sys rq)
      | Ep2_GetProcessDefinition \<Rightarrow> answer (V2_GetProcessDefinition sys rq)
      | Ep2_GetProcessDefinitionDiagram \<Rightarrow> answer (V2_GetProcessDefinitionDiagram sys rq)
      | Ep2_ListProcessInstances \<Rightarrow> answer (V2_ListProcessInstances sys rq)
      | Ep2_GetProcessInstanceCount \<Rightarrow> answer (V2_GetProcessInstanceCount sys rq)
      | Ep2_GetHistoricProcessInstances \<Rightarrow> answer (V2_GetHistoricProcessInstances sys rq)
      | Ep2_DeleteHistoricProcessInstance \<Rightarrow> answer (V2_DeleteHistoricProcessInstance sys rq)
      | Ep2_DeleteProcessInstance \<Rightarrow> answer (V2_DeleteProcessInstance sys rq)
      | Ep2_SetProcessInstanceVariable \<Rightarrow> answer (V2_SetProcessInstanceVariable sys rq)
      | Ep2_DeleteProcessMultipleInstances \<Rightarrow> answer (V2_DeleteProcessMultipleInstances sys rq)
      | Ep2_DeleteMultipleHistoricProcessInstances \<Rightarrow> answer (V2_DeleteMultipleHistoricProcessInstances sys rq)
      | Ep2_DeleteProcessInstancesByBusinessKey \<Rightarrow> answer (V2_DeleteProcessInstancesByBusinessKey sys rq)
      | Ep2_TriggerEvent \<Rightarrow> answer (V2_TriggerEvent sys rq)
      | Ep1_HealthCheck \<Rightarrow> answer (V1_HealthCheck rq)
      | Ep1_StartProcessDefinition \<Rightarrow> answer (V1_StartProcessDefinition sys rq)
      | Ep1_StartProcessDefinitionAndGetInstanceId \<Rightarrow> answer (V1_StartProcessDefinitionAndGetInstanceId sys rq)
      | Ep1_GetDeployment \<Rightarrow> answer (V1_GetDeployment sys rq)
      | Ep1_DeploymentExists \<Rightarrow> answer (V1_DeploymentExists sys rq)
      | Ep1_StartDeployment \<Rightarrow> answer (V1_StartDeployment sys rq)
      | Ep1_GetDeploymentParameters \<Rightarrow> answer (V1_GetDeploymentParameters sys rq)
      | Ep1_GetDeploymentDefinition \<Rightarrow> answer (V1_GetDeploymentDefinition sys rq)
      | Ep1_GetDeployments \<Rightarrow> answer (V1_GetDeployments sys rq)
      | Ep1_GetProcessDefinition \<Rightarrow> answer (V1_GetProcessDefinition sys rq)
      | Ep1_GetProcessDefinitionDiagram \<Rightarrow> answer (V1_GetProcessDefinitionDiagram sys rq)
      | Ep1_GetProcessInstances \<Rightarrow> answer (V1_GetProcessInstances sys rq)
      | Ep1_GetProcessInstanceCount \<Rightarrow> answer (V1_GetProcessInstanceCount sys rq)
      | Ep1_GetHistoricProcessInstances \<Rightarrow> answer (V1_GetHistoricProcessInstances sys rq)
      | Ep1_GetFilteredHistoricProcessInstances \<Rightarrow> answer (V1_GetFilteredHistoricProcessInstances sys rq)
      | Ep1_GetFinishedProcessInstances \<Rightarrow> answer (V1_GetFinishedProcessInstances sys rq)
      | Ep1_FindFinishedProcessInstances \<Rightarrow> answer (V1_FindFinishedProcessInstances sys rq)
      | Ep1_FindUnfinishedProcessInstances \<Rightarrow> answer (V1_FindUnfinishedProcessInstances sys rq)
      | Ep1_GetUnfinishedProcessInstances \<Rightarrow> answer (V1_GetUnfinishedProcessInstances sys rq)
      | Ep1_GetHistoricProcessInstancesOfProcessDefinition \<Rightarrow> answer (V1_GetHistoricProcessInstancesOfProcessDefinition sys rq)
      | Ep1_GetFinishedProcessInstancesOfProcessDefinition \<Rightarrow> answer (V1_GetFinishedProcessInstancesOfProcessDefinition sys rq)
      | Ep1_GetUnfinishedProcessInstancesOfProcessDefinition \<Rightarrow> answer (V1_GetUnfinishedProcessInstancesOfProcessDefinition sys rq)
      | Ep1_DeleteHistoricPricessInstance \<Rightarrow> answer (V1_DeleteHistoricPricessInstance sys rq)
      | Ep1_DeleteProcessInstance \<Rightarrow> answer (V1_DeleteProcessInstance sys rq)
      | Ep_Swagger \<Rightarrow> answer (Swagger sys))"

text \<open>
  The handler that \<open>GetRouter\<close> builds: the headers for cross-origin requests, then the
  multiplexer; \<open>PathValue\<close> of a name that the pattern does not have is empty.
\<close>

definition path_value_of :: "(string \<times> string) list \<Rightarrow> string \<Rightarrow> string" where
  "path_value_of vals name = (case map_of vals name of None \<Rightarrow> '''' | Some v \<Rightarrow> v)"

record http_request =
  hr_method :: string
  hr_target :: string
  hr_origin :: string
  hr_request :: api_request

definition mux ::
  "('e, 'c) system \<Rightarrow> http_request \<Rightarrow> ('e, 'c) world \<Rightarrow> string \<Rightarrow> int option \<times> ('e, 'c) world" where
  "mux sys hr w meth =
     (case dispatch meth (hr_target hr) of
        Served ep vals \<Rightarrow> serve sys ep ((hr_request hr)\<lparr>path_value := path_value_of vals\<rparr>) w
      | Redirected p \<Rightarrow> (Some 301, w)
      | MethodNotAllowed \<Rightarrow> (Some 405, w)
      | NotFound \<Rightarrow> (Some 404, w))"

definition ServeHTTP ::
  "('e, 'c) system \<Rightarrow> http_request \<Rightarrow> ('e, 'c) world \<Rightarrow>
     (string \<times> string) list \<times> int option \<times> ('e, 'c) world" where
  "ServeHTTP sys hr w = CorsMiddleware (hr_origin hr) (mux sys hr w) (Some 200, w) (hr_method hr)"

section \<open>Handlers that only read\<close>

lemma frame_answer: "frame sys U good h \<Longrightarrow> frame sys U good (answer h)"
  by (simp add: frame_def answer_def split: prod.split) (metis snd_conv)

text \<open>The endpoints whose requests to other services are all \<open>GET\<close>.\<close>

definition reading :: "endpoint set" where
  "reading = set
    [Ep2_GetDeployment, Ep2_DeploymentExists, Ep2_GetDeploymentParameters, Ep2_GetDeploymentDefinition,
     Ep2_GetDeploymentInstances, Ep2_ListDeployments, Ep2_GetProcessDefinition,
     Ep2_GetProcessDefinitionDiagram, Ep2_ListProcessInstances, Ep2_GetProcessInstanceCount,
     Ep2_GetHistoricProcessInstances, Ep1_HealthCheck, Ep1_GetDeployment, Ep1_DeploymentExists,
     Ep1_GetDeploymentParameters, Ep1_GetDeploymentDefinition, Ep1_GetDeployments,
     Ep1_GetProcessDefinition, Ep1_GetProcessDefinitionDiagram, Ep1_GetProcessInstances,
     Ep1_GetProcessInstanceCount, Ep1_GetHistoricProcessInstances,
     Ep1_GetFilteredHistoricProcessInstances, Ep1_GetFinishedProcessInstances,
     Ep1_FindFinishedProcessInstances, Ep1_FindUnfinishedProcessInstances,
     Ep1_GetUnfinishedProcessInstances, Ep1_GetHistoricProcessInstancesOfProcessDefinition,
     Ep1_GetFinishedProcessInstancesOfProcessDefinition,
     Ep1_GetUnfinishedProcessInstancesOfProcessDefinition, Ep_Swagger]"

lemma frame_first_definition_reads:
  "u \<in> U \<Longrightarrow> (\<And>d. frame sys U gets (k d)) \<Longrightarrow> frame sys U gets (first_definition sys i u k)"
  unfolding first_definition_def by (intro frames)

lemma frame_ListDeployments: "frame sys (token_users sys rq) gets (V2_ListDeployments sys rq)"
proof -
  have "frame sys U gets (\<lambda>w. case GetExtendedDeploymentList sys u q w of (r, w1) \<Rightarrow>
      if r = Inl ErrUnknownVid then encode (GetExtendedDeploymentList sys u q) w1 else encode (\<lambda>w2. (r, w2)) w1)"
    if u: "u \<in> U" for u q U
  proof (rule frameI)
    fix w r w1
    assume a: "(case GetExtendedDeploymentList sys u q w of (r, w1) \<Rightarrow>
      if r = Inl ErrUnknownVid then encode (GetExtendedDeploymentList sys u q) w1
      else encode (\<lambda>w2. (r, w2)) w1) = (r, w1)"
    obtain rl wl where l: "GetExtendedDeploymentList sys u q w = (rl, wl)"
      by (cases "GetExtendedDeploymentList sys u q w")
    have "frame sys U gets (encode (GetExtendedDeploymentList sys u q))" using u by (intro frames)
    moreover have "frame sys U gets (encode (\<lambda>w2. (rl, w2)))"
      by (rule framed.handles(3)) (simp add: frame_def)
    ultimately have "stays sys U gets wl w1" using a l frameD by (auto split: if_splits)
    then show "stays sys U gets w w1"
      using frameD [OF frame_GetExtendedDeploymentList [OF u] l] stays_trans by blast
  qed
  note twice = this [OF token_users]
  show ?thesis unfolding V2_ListDeployments_def by (intro framed.handles(1) twice)
qed

lemma frame_GetDeploymentInstances: "frame sys (token_users sys rq) gets (V2_GetDeploymentInstances sys rq)"
  unfolding V2_GetDeploymentInstances_def by (intro frames)

lemmas v2_reading_defs = V2_GetDeployment_def V2_DeploymentExists_def V2_GetDeploymentParameters_def
  V2_GetDeploymentDefinition_def V2_GetProcessDefinition_def V2_GetProcessDefinitionDiagram_def
  V2_ListProcessInstances_def V2_GetProcessInstanceCount_def V2_GetHistoricProcessInstances_def

lemma frame_v2_reading:
  "frame sys (token_users sys rq) gets (V2_GetDeployment sys rq)" "frame sys (token_users sys rq) gets (V2_DeploymentExists sys rq)"
  "frame sys (token_users sys rq) gets (V2_GetDeploymentParameters sys rq)" "frame sys (token_users sys rq) gets (V2_GetDeploymentDefinition sys rq)"
  "frame sys (token_users sys rq) gets (V2_GetProcessDefinition sys rq)" "frame sys (token_users sys rq) gets (V2_GetProcessDefinitionDiagram sys rq)"
  "frame sys (token_users sys rq) gets (V2_ListProcessInstances sys rq)" "frame sys (token_users sys rq) gets (V2_GetProcessInstanceCount sys rq)"
  "frame sys (token_users sys rq) gets (V2_GetHistoricProcessInstances sys rq)"
  unfolding v2_reading_defs Let_def by (intro frames frame_first_definition_reads; assumption)+

lemma frame_v1_reading:
  "frame sys (token_users sys rq) gets (V1_HealthCheck rq)" "frame sys (token_users sys rq) gets (V1_GetHistoricProcessInstances sys rq)"
  "frame sys (token_users sys rq) gets (V1_GetFilteredHistoricProcessInstances sys rq)"
  "frame sys (token_users sys rq) gets (V1_GetFinishedProcessInstances sys rq)"
  "frame sys (token_users sys rq) gets (V1_GetUnfinishedProcessInstances sys rq)"
  "frame sys (token_users sys rq) gets (V1_FindFinishedProcessInstances sys rq)"
  "frame sys (token_users sys rq) gets (V1_FindUnfinishedProcessInstances sys rq)"
  "frame sys (token_users sys rq) gets (V1_GetHistoricProcessInstancesOfProcessDefinition sys rq)"
  "frame sys (token_users sys rq) gets (V1_GetFinishedProcessInstancesOfProcessDefinition sys rq)"
  "frame sys (token_users sys rq) gets (V1_GetUnfinishedProcessInstancesOfProcessDefinition sys rq)"
  unfolding V1_HealthCheck_def V1_GetHistoricProcessInstances_def
    V1_GetFilteredHistoricProcessInstances_def V1_GetFinishedProcessInstances_def
    V1_GetUnfinishedProcessInstances_def V1_FindFinishedProcessInstances_def
    V1_FindUnfinishedProcessInstances_def V1_GetHistoricProcessInstancesOfProcessDefinition_def
    V1_GetFinishedProcessInstancesOfProcessDefinition_def
    V1_GetUnfinishedProcessInstancesOfProcessDefinition_def Let_def
  by (intro frames; assumption)+

lemma frame_Swagger: "frame sys U good (Swagger sys)"
  unfolding Swagger_def by (intro frames)

text \<open>The handlers of version 1 that have the code of version 2.\<close>

lemmas as_v2 = V1_StartProcessDefinition_def V1_StartProcessDefinitionAndGetInstanceId_def
  V1_GetDeployment_def V1_DeploymentExists_def V1_StartDeployment_def V1_GetDeploymentParameters_def
  V1_GetDeploymentDefinition_def V1_GetDeployments_def V1_GetProcessDefinition_def
  V1_GetProcessDefinitionDiagram_def V1_GetProcessInstances_def V1_GetProcessInstanceCount_def
  V1_DeleteHistoricPricessInstance_def V1_DeleteProcessInstance_def

lemma serve_reading: "ep \<in> reading \<Longrightarrow> frame sys (token_users sys rq) gets (serve sys ep rq)"
  unfolding reading_def set_simps
  by (elim insertE emptyE; hypsubst; unfold serve_def endpoint.case as_v2;
      intro frame_answer frame_v2_reading frame_v1_reading frame_ListDeployments
        frame_GetDeploymentInstances frame_Swagger)

section \<open>Handlers that leave the relation alone\<close>

definition admin_only :: "endpoint set" where
  "admin_only = {Ep_Deploy, Ep_DeleteDeployment}"

lemma frame_TriggerEvent: "frame sys UNIV anything (V2_TriggerEvent sys rq)"
proof (rule frameI)
  fix w r w1 assume t: "V2_TriggerEvent sys rq w = (r, w1)"
  have "frame sys UNIV anything (with_token sys rq (\<lambda>token. with_body rq decode_object (\<lambda>msg.
      (case event_user token msg of
         None \<Rightarrow> respond (http_error ''expect string in tenantId'' 400)
       | Some userId \<Rightarrow> trigger sys userId msg))))" by (intro frames)
  from frameD [OF this t [unfolded V2_TriggerEvent_def]]
  have "stays sys UNIV anything (w\<lparr>event_messages := event_messages w + 1\<rparr>) w1" .
  moreover have "stays sys UNIV anything w (w\<lparr>event_messages := event_messages w + 1\<rparr>)"
    by (simp add: stays_def shard_steps.none)
  ultimately show "stays sys UNIV anything w w1" by (rule stays_trans [rotated])
qed

lemma frame_by_business_key: "frame sys UNIV anything (V2_DeleteProcessInstancesByBusinessKey sys rq)"
proof -
  have "frame sys UNIV anything (\<lambda>w. case remove_each sys u xs None w of
      (Some err, w1) \<Rightarrow> (internal err, w1) | (None, w1) \<Rightarrow> (Json ''ok'', w1))" for u xs
    using frameD [OF frame_remove_each [of sys u xs None]]
    by (fastforce intro!: frameI split: prod.splits option.splits)
  moreover note frame_lists(5) [OF UNIV_I, THEN frame_anything]
  ultimately show ?thesis unfolding V2_DeleteProcessInstancesByBusinessKey_def Let_def
    by (intro framed.handles(1) framed.attempts)
qed

lemma frame_v2_changing:
  "frame sys UNIV anything (V2_StartProcessDefinition sys rq)"
  "frame sys UNIV anything (V2_StartProcessDefinitionAndGetInstanceId sys rq)"
  "frame sys UNIV anything (V2_StartDeployment sys rq)"
  "frame sys UNIV anything (V2_DeleteHistoricProcessInstance sys rq)"
  "frame sys UNIV anything (V2_DeleteProcessInstance sys rq)"
  "frame sys UNIV anything (V2_SetProcessInstanceVariable sys rq)"
  "frame sys UNIV anything (V2_DeleteProcessMultipleInstances sys rq)"
  "frame sys UNIV anything (V2_DeleteMultipleHistoricProcessInstances sys rq)"
  unfolding V2_StartProcessDefinition_def V2_StartProcessDefinitionAndGetInstanceId_def
    V2_StartDeployment_def V2_DeleteHistoricProcessInstance_def V2_DeleteProcessInstance_def
    V2_SetProcessInstanceVariable_def V2_DeleteProcessMultipleInstances_def
    V2_DeleteMultipleHistoricProcessInstances_def Let_def
  by (intro frames)+

lemma serve_frame:
  assumes "ep \<notin> admin_only"
  shows "frame sys UNIV anything (serve sys ep rq)"
proof (cases "ep \<in> reading")
  case True
  then show ?thesis by (rule frame_anything [OF serve_reading])
next
  case False
  with assms have "ep \<in> set [Ep2_StartProcessDefinition, Ep2_StartProcessDefinitionAndGetInstanceId,
      Ep2_StartDeployment, Ep2_DeleteHistoricProcessInstance, Ep2_DeleteProcessInstance,
      Ep2_SetProcessInstanceVariable, Ep2_DeleteProcessMultipleInstances,
      Ep2_DeleteMultipleHistoricProcessInstances, Ep2_DeleteProcessInstancesByBusinessKey, Ep2_TriggerEvent,
      Ep1_StartProcessDefinition, Ep1_StartProcessDefinitionAndGetInstanceId, Ep1_StartDeployment,
      Ep1_DeleteHistoricPricessInstance, Ep1_DeleteProcessInstance]"
    by (cases ep) (simp_all add: reading_def admin_only_def)
  then show ?thesis unfolding set_simps
    by (elim insertE emptyE; hypsubst; unfold serve_def endpoint.case as_v2;
        intro frame_answer frame_v2_changing frame_by_business_key frame_TriggerEvent)
qed

section \<open>Handlers that change the relation\<close>

text \<open>
  What is left of a frame for the two operations that change the relation: the shards are used by
  their operations only, and rows do not begin to be lost.
\<close>

definition whole :: "vid_db sql \<Rightarrow> vid_db sql \<Rightarrow> bool" where
  "whole s s1 \<longleftrightarrow> (cuts s = [] \<longrightarrow> cuts s1 = [])"

definition runs :: "('e, 'c) system \<Rightarrow> ('e, 'c) world \<Rightarrow> ('e, 'c) world \<Rightarrow> bool" where
  "runs sys w w1 \<longleftrightarrow> shard_steps sys UNIV (shards w) (shards w1) \<and> whole (vids w) (vids w1) \<and>
     (\<exists>rqs. sent w1 = sent w @ rqs)"

lemma runs_refl: "runs sys w w"
  by (simp add: runs_def whole_def shard_steps.none)

lemma runs_trans: "runs sys w w1 \<Longrightarrow> runs sys w1 w2 \<Longrightarrow> runs sys w w2"
  by (auto simp: runs_def whole_def intro: shard_steps_trans)

lemma runs_frame: "frame sys U good m \<Longrightarrow> always (runs sys) m"
  by (drule frame_mono [OF _ subset_UNIV], assumption)
    (auto simp: always_def stays_def runs_def same_relation_def whole_def)

interpretation run: engine_preorder "runs sys" sys for sys :: "('e, 'c) system"
proof
  fix w :: "('e, 'c) world" and e rq u
  show "runs sys w (w\<lparr>env := e\<rparr>)" by (simp add: runs_def whole_def shard_steps.none)
  show "always (runs sys) (send sys rq)" by (rule runs_frame [OF frame_send [OF anything]])
  show "always (runs sys) (ensure_shard sys u)" by (rule runs_frame [OF frame_ensure_shard [OF UNIV_I]])
  show "always (runs sys) (get_shards sys)" by (rule runs_frame [OF frame_get_shards])
  show "always (runs sys) (ensure_access sys)" by (rule runs_frame [OF frame_ensure_access])
qed (auto intro: runs_refl runs_trans)

lemma runs_on_vids:
  assumes "\<And>s r s1. m s = (r, s1) \<Longrightarrow> whole s s1"
  shows "always (runs sys) (on_vids m)"
  using assms by (auto simp: on_vids_def runs_def shard_steps.none intro!: alwaysI split: prod.splits)

lemma same_whole: "same_relation s s1 \<Longrightarrow> whole s s1"
  by (simp add: same_relation_def whole_def)

lemma exec_tx_whole: "exec_tx q s = (r, s1) \<Longrightarrow> cuts s1 = cuts s"
  by (auto simp: exec_tx_def split: option.splits bool.splits fault.splits sum.splits prod.splits
      dest: next_fault_cuts)

lemma RemoveVidRelation_whole: "RemoveVidRelation vid i s = (r, s1) \<Longrightarrow> whole s s1"
proof -
  have b: "begin_tx s = (r, s1) \<Longrightarrow> cuts s1 = cuts s" for s r and s1 :: "vid_db sql"
    by (auto simp: begin_tx_def dest: next_fault_cuts split: fault.splits prod.splits)
  have o: "orRollback (exec Tx q) s = (r, s1) \<Longrightarrow> cuts s1 = cuts s"
    for q :: "(vid_db, unit) stmt" and s r s1
    by (auto simp: orRollback_def exec_def rollback_def dest: exec_tx_whole split: sum.splits prod.splits)
  show "RemoveVidRelation vid i s = (r, s1) \<Longrightarrow> whole s s1"
    unfolding RemoveVidRelation_def whole_def
    by (auto simp: andThen_def dest!: b o split: sum.splits prod.splits)
qed

lemma commit_whole: "commit s = (r, s1) \<Longrightarrow> whole s s1"
  by (auto simp: commit_def whole_def dest: next_fault_cuts
      split: option.splits fault.splits prod.splits if_splits)

lemma SaveVidRelation_whole: "SaveVidRelation vid i s = (r, s1) \<Longrightarrow> whole s s1"
  by (auto simp: SaveVidRelation_def exec_def whole_def dest: exec_db_cuts)

lemma runs_relation:
  "always (runs sys) (on_vids (GetDeploymentId vid))" "always (runs sys) (on_vids (VidExists vid))"
  "always (runs sys) (on_vids (RemoveVidRelation vid i))" "always (runs sys) (on_vids commit)"
  "always (runs sys) (on_vids (SaveVidRelation vid i))"
  by (rule runs_on_vids,
      erule same_whole [OF GetDeploymentId_same] same_whole [OF VidExists_same] RemoveVidRelation_whole
        commit_whole SaveVidRelation_whole)+

lemma runs_remove_and_commit: "always (runs sys) (remove_and_commit sys i u)"
proof (rule alwaysI)
  fix w r w1 assume a: "remove_and_commit sys i u w = (r, w1)"
  obtain re we where e: "engine_removal sys i u w = (re, we)" by (cases "engine_removal sys i u w")
  have "runs sys we (rollback_vids we)"
    by (simp add: runs_def whole_def rollback_vids_def rollback_def shard_steps.none)
  with a e have "runs sys we w1"
    by (auto simp: remove_and_commit_def split: sum.splits dest: alwaysD [OF runs_relation(4)])
  with alwaysD [OF run.removes(3) e] show "runs sys w w1" by (rule runs_trans)
qed

lemmas run_rules = run.operations run.deletes run.deploys run.handles_incidents run.undeploys
  runs_relation runs_remove_and_commit

lemma runs_DeleteDeployment: "always (runs sys) (DeleteDeployment sys u vid)"
  unfolding DeleteDeployment_def by (intro run_rules)

lemma runs_deploy_prepared: "always (runs sys) (deploy_prepared sys depl xml)"
  unfolding deploy_prepared_def cleanupExistingDeployment_def by (intro run_rules runs_DeleteDeployment)

end
