(* ===== verification/ControllerProps.thy ===== *)
theory ControllerProps
  imports Demo
begin

text \<open>
  What deploying and removing promise, whichever of their calls fail.
\<close>

section \<open>Deploying and removing\<close>

text \<open>
  C1: \<open>Deploy\<close>, whatever calls fail: the relations of all other virtual ids stay; when it reports
  success, the virtual id has exactly one relation (provided the rows of the database arrive), to the
  id that the engine gave for this process: the result of \<open>DeployProcess\<close> for the prepared document,
  after the old deployment was cleaned up, which is not empty and is the id in an engine's answer to
  the last request of that step, a \<open>POST\<close> to create a deployment. A request refused with code 400 has no
  effect; the code of every other failure is 500.
\<close>

theorem Deploy_relation:
  assumes "Deploy sys depl w = ((err, code), w1)" and "one_to_one (committed (vids w))"
    and "cuts (vids w) = []"
  shows "others (dm_Id depl) (committed (vids w1)) = others (dm_Id depl) (committed (vids w)) \<and>
    (case err of
       None \<Rightarrow> code = 200 \<and> (\<exists>xml i wc wd rqs rq. prepare_xml sys depl = Inr xml \<and>
         cleanupExistingDeployment sys (dm_UserId depl) (dm_Id depl) w = (Inr (), wc) \<and>
         DeployProcess sys (dm_Name depl) xml (dg_Svg (dm_Diagram depl)) (dm_UserId depl)
           (dm_Source depl) wc = (Inr i, wd) \<and>
         i \<noteq> '''' \<and> sent wd = sent wc @ rqs @ [rq] \<and> created sys rq i \<and>
         committed (vids w1) = others (dm_Id depl) (committed (vids w)) @ [(i, dm_Id depl)])
     | Some e \<Rightarrow> code = 500 \<or> code = 400 \<and> w1 = w)"
proof (cases "prepare_xml sys depl")
  case (Inl ec)
  then have "snd ec = 500 \<or> snd ec = 400"
    by (auto simp: prepare_xml_def split: sum.splits if_splits)
  with Inl assms(1) show ?thesis by (auto simp: Deploy_def split: prod.splits)
next
  case (Inr xml)
  with assms(1) obtain r where d: "deploy_prepared sys depl xml w = (r, w1)"
    by (auto simp: Deploy_def split: prod.splits sum.splits)
  note cases = deploy_prepared_cases [OF d assms(2)]
  show ?thesis
  proof (cases r)
    case (Inl e)
    with cases(1) assms(1) d \<open>prepare_xml sys depl = Inr xml\<close> show ?thesis by (auto simp: Deploy_def)
  next
    case (Inr x)
    then have "r = Inr ()" by simp
    from cases(2) [OF this assms(3)] obtain i wc wp where
      "cleanupExistingDeployment sys (dm_UserId depl) (dm_Id depl) w = (Inr (), wc)"
      and p: "DeployProcess sys (dm_Name depl) xml (dg_Svg (dm_Diagram depl)) (dm_UserId depl)
        (dm_Source depl) wc = (Inr i, wp)"
      and "committed (vids w1) = others (dm_Id depl) (committed (vids w)) @ [(i, dm_Id depl)]" by blast
    with Inr cases(1) assms(1) d \<open>prepare_xml sys depl = Inr xml\<close> DeployProcess_created [OF p] show ?thesis
      by (auto simp: Deploy_def)
  qed
qed

theorem Deploy_relation_witness:
  "\<exists>w1. Deploy demo_system demo_message demo_world = ((None, 200), w1) \<and>
     others ''v1'' (committed (vids w1)) = []"
proof -
  obtain x where x: "prepare_xml demo_system demo_message = Inr x" using demo_prepared ..
  have "fst (deploy_prepared demo_system demo_message x demo_world) = Inr ()" by code_simp
  then obtain w1 where w1: "Deploy demo_system demo_message demo_world = ((None, 200), w1)"
    by (cases "deploy_prepared demo_system demo_message x demo_world") (simp add: Deploy_def x)
  have "one_to_one (committed (vids demo_world))" "cuts (vids demo_world) = []"
    by (simp_all add: demo_world_def demo_vid_def one_to_one_def)
  from Deploy_relation [OF w1 this] w1 show ?thesis
    by (simp add: demo_world_def demo_vid_def demo_message_def others_def)
qed

section \<open>Removing follows the engine\<close>

text \<open>
  The engine at \<open>shard\<close>, asked in a state \<open>e\<close> of the surroundings, confirms that it does not have the
  deployment: it counts none, or it answers the request to delete it with success or 404.
\<close>

definition confirms_removal :: "('e, 'c) system \<Rightarrow> string \<Rightarrow> string \<Rightarrow> 'e \<Rightarrow> bool" where
  "confirms_removal sys i shard e =
     (case http sys (count_request i shard) e of
        (Reply st status body (Inr j), e1) \<Rightarrow>
          st < 300 \<and>
          (case decode_Count j of
             Inl err \<Rightarrow> False
           | Inr n \<Rightarrow> count_Count n = 0 \<or>
               (case http sys (undeploy_request i shard) e1 of
                  (Reply st2 status2 body2 js2, e2) \<Rightarrow> st2 < 300 \<or> st2 = 404
                | _ \<Rightarrow> False))
      | _ \<Rightarrow> False)"

lemma RemoveProcessForShard_confirms:
  assumes "RemoveProcessForShard sys i shard w = (Inr (), w1)"
  shows "confirms_removal sys i shard (env w)"
proof -
  from assms obtain n w0 where g: "GetDeploymentCountByShard sys i shard w = (Inr n, w0)"
    and k: "(if count_Count n = 0 then return () else
      andThen (request_ok sys (undeploy_request i shard) (\<lambda>st. \<not> (st \<ge> 300 \<and> st \<noteq> 404))
        (\<lambda>status body. status)) (\<lambda>_. return ())) w0 = (Inr (), w1)"
    unfolding RemoveProcessForShard_def andThen_Inr undeploy_request_def by auto
  from g obtain st status body j e1 where
    h: "http sys (count_request i shard) (env w) = (Reply st status body (Inr j), e1)"
    and j: "st < 300" "decode_Count j = Inr n" "env w0 = e1"
    by (auto simp: GetDeploymentCountByShard_def count_request_def Get_def send_def
        split: prod.splits reply.splits if_splits sum.splits)
  have "count_Count n = 0 \<or> (\<exists>st2 s2 b2 j2 e2.
      http sys (undeploy_request i shard) e1 = (Reply st2 s2 b2 j2, e2) \<and> (st2 < 300 \<or> st2 = 404))"
    using k j(3) by (auto simp: andThen_Inr request_ok_def send_def
        split: prod.splits reply.splits if_splits)
  with h j show ?thesis by (auto simp: confirms_removal_def)
qed

lemma remove_from_shards_confirms:
  assumes "remove_from_shards sys i ss w = (Inr (), w1)" and "shard \<in> set ss"
  shows "\<exists>e. confirms_removal sys i shard e"
  using assms
proof (induction ss arbitrary: w)
  case (Cons a ss)
  from Cons.prems(1) obtain w0 where r: "RemoveProcessForShard sys i a w = (Inr (), w0)"
    and k: "remove_from_shards sys i ss w0 = (Inr (), w1)"
    by (auto simp: andThen_Inr)
  show ?case
  proof (cases "shard = a")
    case True
    then show ?thesis using RemoveProcessForShard_confirms [OF r] by blast
  next
    case False
    then show ?thesis using Cons.IH [OF k] Cons.prems(2) by auto
  qed
qed simp

text \<open>The shards that a removal has to clear: the user's own one, or for no user all of them.\<close>

definition removal_shards :: "('e, 'c) system \<Rightarrow> string \<Rightarrow> ('e, 'c) world \<Rightarrow> string list" where
  "removal_shards sys u w =
     (if u \<noteq> '''' then (case fst (ensure_shard sys u w) of Inl err \<Rightarrow> [] | Inr shard \<Rightarrow> [shard])
      else (case fst (get_shards sys w) of Inl err \<Rightarrow> [] | Inr ss \<Rightarrow> ss))"

lemma engine_removal_confirms:
  assumes "engine_removal sys i u w = (Inr (), w1)"
  shows "\<forall>shard \<in> set (removal_shards sys u w). \<exists>e. confirms_removal sys i shard e"
proof (cases "u = ''''")
  case True
  with assms obtain ss w0 where "get_shards sys w = (Inr ss, w0)"
    and "remove_from_shards sys i ss w0 = (Inr (), w1)"
    by (auto simp: engine_removal_def RemoveProcessFromAllShards_def andThen_Inr)
  with True remove_from_shards_confirms show ?thesis by (auto simp: removal_shards_def)
next
  case False
  with assms obtain shard w0 where "ensure_shard sys u w = (Inr shard, w0)"
    and "RemoveProcessForShard sys i shard w0 = (Inr (), w1)"
    by (auto simp: engine_removal_def RemoveProcess_def andThen_Inr)
  with False RemoveProcessForShard_confirms [of sys i shard w0 w1] show ?thesis
    by (auto simp: removal_shards_def)
qed

text \<open>
  C2: \<open>DeleteDeployment\<close>, whatever calls fail: the relation either stays as it was, and then success
  is reported only when no relation of the virtual id was found; or exactly the relation of
  this virtual id is gone, and then the engines have confirmed before that they do not have the
  deployment: the engine of the user, or every engine for the empty user.
\<close>

theorem DeleteDeployment_after_engine:
  assumes "DeleteDeployment sys u vid w = (r, w1)" and "one_to_one (committed (vids w))"
  shows "committed (vids w1) = committed (vids w) \<and>
      (r = Inr () \<longrightarrow> fst (GetDeploymentId vid (vids w)) = Inr None) \<or>
    committed (vids w1) = others vid (committed (vids w)) \<and>
      (\<exists>i w2 w3. (i, vid) \<in> set (committed (vids w)) \<and>
         engine_removal sys i u w2 = (Inr (), w3) \<and> sent w3 = sent w1 \<and>
         (\<forall>shard \<in> set (removal_shards sys u w2). \<exists>e. confirms_removal sys i shard e))"
  using DeleteDeployment_cases [OF assms(1)] engine_removal_confirms without_is_others [OF assms(2)]
  by metis

theorem DeleteDeployment_after_engine_witness:
  "\<exists>w1. DeleteDeployment demo_system ''alice'' ''v1'' demo_world = (Inr (), w1) \<and>
     committed (vids w1) = others ''v1'' [(''d1'', ''v1'')]"
proof -
  define r where "r = DeleteDeployment demo_system ''alice'' ''v1'' demo_world"
  have "fst r = Inr () \<and> fst (GetDeploymentId ''v1'' (vids demo_world)) = Inr (Some ''d1'')"
    unfolding r_def by code_simp
  then have f: "DeleteDeployment demo_system ''alice'' ''v1'' demo_world = (Inr (), snd r)"
    "fst (GetDeploymentId ''v1'' (vids demo_world)) \<noteq> Inr None"
    by (auto simp: r_def prod_eq_iff)
  have "one_to_one (committed (vids demo_world))"
    by (simp add: demo_world_def demo_vid_def one_to_one_def)
  from DeleteDeployment_after_engine [OF f(1) this] f show ?thesis
    by (auto simp: demo_world_def demo_vid_def)
qed

section \<open>Failing after the engine has deployed\<close>

text \<open>What \<open>Deploy\<close> does after the engine has accepted the process, without the removals on errors.\<close>

definition finish_deploy :: "('e, 'c) system \<Rightarrow> DeploymentMessage \<Rightarrow> string \<Rightarrow> ('e, 'c, unit) act" where
  "finish_deploy sys depl i =
     andThen (case dm_IncidentHandling depl of
         None \<Rightarrow> return ()
       | Some ih \<Rightarrow> andThen (GetRawDefinitionsByDeployment sys i (dm_UserId depl))
           (for_each (\<lambda>d. incident (SetOnIncidentHandler sys (pd_Id d) (ih_Restart ih) (ih_Notify ih)))))
       (\<lambda>_. on_vids (SaveVidRelation (dm_Id depl) i))"

text \<open>Whether the engine at \<open>shard\<close> counts a deployment, and the requests of a removal that follow.\<close>

definition counted :: "('e, 'c) system \<Rightarrow> string \<Rightarrow> string \<Rightarrow> 'e \<Rightarrow> bool" where
  "counted sys i shard e =
     (case fst (http sys (count_request i shard) e) of
        Reply st status body (Inr j) \<Rightarrow>
          st < 300 \<and> (case decode_Count j of Inl err \<Rightarrow> False | Inr n \<Rightarrow> count_Count n \<noteq> 0)
      | _ \<Rightarrow> False)"

definition removal_requests ::
  "('e, 'c) system \<Rightarrow> string \<Rightarrow> string \<Rightarrow> ('e, 'c) world \<Rightarrow> request list" where
  "removal_requests sys i u w =
     (case fst (ensure_shard sys u w) of
        Inl err \<Rightarrow> []
      | Inr shard \<Rightarrow> count_request i shard # (if counted sys i shard (env w) then [undeploy_request i shard] else []))"

lemma RemoveProcess_requests:
  "sent (snd (RemoveProcess sys i u w)) = sent w @ removal_requests sys i u w"
proof -
  obtain r w0 where e: "ensure_shard sys u w = (r, w0)" by (cases "ensure_shard sys u w")
  have w0: "sent w0 = sent w" "env w0 = env w" using ensure_shard_sent [OF e] by simp_all
  have "sent (snd (RemoveProcessForShard sys i shard w0)) =
      sent w @ count_request i shard # (if counted sys i shard (env w) then [undeploy_request i shard] else [])" for shard
    using w0
    by (auto simp: RemoveProcessForShard_def GetDeploymentCountByShard_def Get_def send_def request_ok_def return_def
        andThen_def count_request_def undeploy_request_def counted_def split: prod.split reply.split sum.split)
  then show ?thesis using e w0 by (cases r) (simp_all add: RemoveProcess_def andThen_def removal_requests_def)
qed

text \<open>\<open>or_undeploy\<close> around the parts of an operation is \<open>or_undeploy\<close> around the whole of it.\<close>

lemma or_undeploy_seq:
  "andThen (or_undeploy sys i u m) (\<lambda>x. or_undeploy sys i u (k x)) = or_undeploy sys i u (andThen m k)"
  by (rule ext) (auto simp: andThen_def or_undeploy_def split: prod.split sum.split)

lemma or_undeploy_return: "or_undeploy sys i u (return x) = return x"
  by (rule ext) (simp add: or_undeploy_def return_def)

lemma for_each_undeploy:
  "for_each (\<lambda>x. or_undeploy sys i u (f x)) = (\<lambda>xs. or_undeploy sys i u (for_each f xs))"
proof
  fix xs show "for_each (\<lambda>x. or_undeploy sys i u (f x)) xs = or_undeploy sys i u (for_each f xs)"
    by (induction xs) (simp_all add: or_undeploy_return or_undeploy_seq)
qed

lemma finish_undeploys:
  "andThen (incident_handling sys depl i) (\<lambda>_.
     or_undeploy sys i (dm_UserId depl) (on_vids (SaveVidRelation (dm_Id depl) i))) =
   or_undeploy sys i (dm_UserId depl) (finish_deploy sys depl i)"
proof -
  have "incident_handling sys depl i = or_undeploy sys i (dm_UserId depl) (case dm_IncidentHandling depl of
      None \<Rightarrow> return ()
    | Some ih \<Rightarrow> andThen (GetRawDefinitionsByDeployment sys i (dm_UserId depl))
        (for_each (\<lambda>d. incident (SetOnIncidentHandler sys (pd_Id d) (ih_Restart ih) (ih_Notify ih)))))"
    by (simp add: incident_handling_def or_undeploy_return for_each_undeploy or_undeploy_seq split: option.split)
  then show ?thesis by (simp add: finish_deploy_def or_undeploy_seq)
qed

text \<open>
  C20: what \<open>Deploy\<close> does after the engine has accepted the process under the id \<open>i\<close>: it stores the
  incident handler and the relation, and when one of these steps fails, it stops there and removes
  the process from the engine of the user again: from the state \<open>we\<close> of the failure, exactly the
  requests of a removal follow, which are to count the deployments with the id \<open>i\<close> at the user's shard
  and, if the engine counts one, to delete it (and none if the database does not give the shard).
  The answer is the error of the step, with the code 500; the relation has no row of the virtual id
  then, unless the database took the row and lost the answer. When no step fails, the answer is
  success and nothing is removed.
\<close>

theorem Deploy_undeploys:
  assumes "prepare_xml sys depl = Inr xml"
    and "cleanupExistingDeployment sys (dm_UserId depl) (dm_Id depl) w = (Inr (), wc)"
    and "DeployProcess sys (dm_Name depl) xml (dg_Svg (dm_Diagram depl)) (dm_UserId depl)
           (dm_Source depl) wc = (Inr i, wd)"
    and "finish_deploy sys depl i wd = (r, we)"
    and "Deploy sys depl w = (answer, w1)"
  shows "case r of
      Inr x \<Rightarrow> answer = (None, 200) \<and> w1 = we
    | Inl err \<Rightarrow> answer = (Some err, 500) \<and>
        w1 = snd (RemoveProcess sys i (dm_UserId depl) we) \<and>
        sent w1 = sent we @ removal_requests sys i (dm_UserId depl) we \<and>
        (committed (vids w1) = committed (vids wc) \<or>
         committed (vids w1) = committed (vids wc) @ [(i, dm_Id depl)])"
proof -
  let ?u = "dm_UserId depl" and ?vid = "dm_Id depl"
  have k: "deploy_prepared sys depl xml w = or_undeploy sys i ?u (finish_deploy sys depl i) wd"
    using assms(2,3) by (simp add: deploy_prepared_def andThen_def [of "cleanupExistingDeployment sys u v" for u v]
        andThen_def [of "DeployProcess sys n x s u so" for n x s u so] finish_undeploys)
  show ?thesis
  proof (cases r)
    case (Inr x)
    with assms(1,4,5) k show ?thesis by (simp add: Deploy_def or_undeploy_def)
  next
    case (Inl err)
    then have w1: "w1 = snd (RemoveProcess sys i ?u we)" "answer = (Some err, 500)"
      using assms(1,4,5) k by (auto simp: Deploy_def or_undeploy_def)
    have "vids wd = vids wc" using leaves_vidsD [OF leaves.deploys assms(3)] .
    moreover obtain rh wh where h: "incident_handling sys depl i wd = (rh, wh)"
      by (cases "incident_handling sys depl i wd")
    moreover have "vids wh = vids wd" using leaves_vidsD [OF leaves.handles_incidents h] .
    moreover have "or_undeploy sys i ?u (finish_deploy sys depl i) wd = (Inl err, w1)"
      using assms(4) Inl w1 by (simp add: or_undeploy_def)
    ultimately have "committed (vids w1) = committed (vids wc) \<or>
        committed (vids w1) = committed (vids wc) @ [(i, ?vid)]"
      using or_undeploy_save_cases(1) [of sys i ?u ?vid wh "Inl err" w1]
      by (cases rh) (auto simp: finish_undeploys [symmetric] andThen_def)
    with Inl w1 RemoveProcess_requests [of sys i ?u we] show ?thesis by simp
  qed
qed

text \<open>
  The demonstration with a database that fails at the second call, for an unknown virtual id, and an
  engine that counts the deployment.
\<close>

definition failing_world :: "(unit, unit) world" where
  "failing_world = demo_world\<lparr>vids := demo_vid [Fine, Lost (DbError ''down'')] [] []\<rparr>"

definition counting_system :: "(unit, unit) system" where
  "counting_system = demo_system\<lparr>http := (\<lambda>rq e.
     if has_suffix (rq_url rq) ''count?id=d9''
     then (Reply 200 ''200 OK'' '''' (Inr (JObj [(''count'', JInt 1)])), e) else demo_http rq e)\<rparr>"

theorem Deploy_undeploys_witness:
  "\<exists>w1 before. Deploy counting_system demo_message failing_world = ((Some (DbError ''down''), 500), w1) \<and>
     sent w1 = before @ [count_request ''d9'' ''s1'', undeploy_request ''d9'' ''s1'']"
proof -
  obtain x where "prepare_xml demo_system demo_message = Inr x" using demo_prepared ..
  moreover have "xml_decoder counting_system = xml_decoder demo_system"
    "xml_unmarshal counting_system = xml_unmarshal demo_system" by (simp_all add: counting_system_def)
  ultimately have x: "prepare_xml counting_system demo_message = Inr x" by (simp only: prepare_xml_def)
  define c where "c = cleanupExistingDeployment counting_system ''alice'' ''v1'' failing_world"
  have "fst c = Inr ()" unfolding c_def by code_simp
  then have c1: "cleanupExistingDeployment counting_system (dm_UserId demo_message) (dm_Id demo_message)
      failing_world = (Inr (), snd c)" by (simp add: c_def demo_message_def prod_eq_iff)
  let ?p = "\<lambda>w. DeployProcess counting_system (dm_Name demo_message) x (dg_Svg (dm_Diagram demo_message))
    (dm_UserId demo_message) (dm_Source demo_message) w"
  have "fst (?p (snd c)) = Inr ''d9''" unfolding c_def by code_simp
  then have p: "?p (snd c) = (Inr ''d9'', snd (?p (snd c)))" by (simp add: prod_eq_iff)
  let ?f = "finish_deploy counting_system demo_message ''d9'' (snd (?p (snd c)))"
  have f: "fst ?f = Inl (DbError ''down'')" unfolding c_def by code_simp
  have r: "removal_requests counting_system ''d9'' (dm_UserId demo_message) (snd ?f) =
      [count_request ''d9'' ''s1'', undeploy_request ''d9'' ''s1'']" unfolding c_def by code_simp
  let ?d = "Deploy counting_system demo_message failing_world"
  from Deploy_undeploys [OF x c1 p prod.collapse [symmetric] prod.collapse [symmetric], unfolded f r sum.case]
  have "fst ?d = (Some (DbError ''down''), 500)"
    "sent (snd ?d) = sent (snd ?f) @ [count_request ''d9'' ''s1'', undeploy_request ''d9'' ''s1'']" by blast+
  then show ?thesis by (metis prod.collapse)
qed

section \<open>Historic instances\<close>

text \<open>
  \<open>DeleteHistoricProcessInstance\<close> asks the incident service and the engine to delete only after
  the engine has shown the instance to be the user's; else the code is 401 and the last request
  is the one that looked the instance up. When the engine then refuses to delete, the error
  is returned with the code that the incident service gave for its own success.
\<close>

theorem historic_deletion_codes:
  assumes "DeleteHistoricProcessInstance sys u i w = ((err, code), w1)"
  shows "case fst (CheckHistoryAccess sys i u w) of
      Inl e \<Rightarrow> err = Some (ErrMsg ''access denied'') \<and> code = 401 \<and>
        w1 = snd (CheckHistoryAccess sys i u w) \<and>
        (sent w1 = sent w \<or> (\<exists>shard. sent w1 = sent w @ [get_request (history_url shard i)]))
    | Inr d \<Rightarrow>
        (\<forall>e. err = Some e \<longrightarrow> code =
          snd (fst (DeleteIncidentByProcessInstanceId sys i (env (snd (CheckHistoryAccess sys i u w)))))) \<and>
        (err = None \<longrightarrow> code = 200)"
proof -
  obtain r w0 where c: "CheckHistoryAccess sys i u w = (r, w0)" by (cases "CheckHistoryAccess sys i u w")
  have "sent w0 = sent w \<or> (\<exists>shard. sent w0 = sent w @ [get_request (history_url shard i)])"
    using c by (auto simp: CheckHistoryAccess_def andThen_def fail_with_def return_def
        dest!: ensure_shard_sent Get_sent split: prod.splits sum.splits if_splits)
  with assms c show ?thesis
    by (cases r) (auto simp: DeleteHistoricProcessInstance_def split: prod.splits sum.splits option.splits)
qed

text \<open>A system whose engine knows a historic instance of \<open>alice\<close> and fails to delete it.\<close>

definition history_http :: "request \<Rightarrow> unit \<Rightarrow> reply \<times> unit" where
  "history_http rq e =
     (if rq_method rq = ''GET''
      then (Reply 200 ''200 OK'' '''' (Inr (JObj [(''tenantId'', JStr ''alice'')])), e)
      else (Reply 500 ''500 Internal Server Error'' '''' (Inl (JsonError ''EOF'')), e))"

theorem historic_deletion_codes_witness:
  "\<exists>w1 e. DeleteHistoricProcessInstance (demo_system\<lparr>http := history_http\<rparr>) ''alice'' ''p1'' demo_world =
     ((Some e, 200), w1)"
proof -
  let ?s = "demo_system\<lparr>http := history_http\<rparr>"
  define r where "r = DeleteHistoricProcessInstance ?s ''alice'' ''p1'' demo_world"
  have r: "DeleteHistoricProcessInstance ?s ''alice'' ''p1'' demo_world = ((fst (fst r), snd (fst r)), snd r)"
    by (simp add: r_def)
  have "fst (CheckHistoryAccess ?s ''p1'' ''alice'' demo_world) = Inr ''''" by code_simp
  moreover have "DeleteIncidentByProcessInstanceId ?s ''p1'' x = ((None, 200), x)" for x
    by (simp add: demo_system_def)
  moreover have "fst (fst r) \<noteq> None" unfolding r_def by code_simp
  ultimately show ?thesis using historic_deletion_codes [OF r] r by auto
qed

end
