(* ===== verification/CamundaProps.thy ===== *)
theory CamundaProps
  imports Demo "HOL-Library.Sublist"
begin

text \<open>
  What the client of the engines promises its callers: access is granted for resources of the
  caller only, lists are asked for the caller's tenant only, and starting a process asks for the
  variables that are not hidden.
\<close>

section \<open>Reading a query string back\<close>

text \<open>
  The reading of a query string as engines do it: the pieces between \<open>&\<close>, empty ones skipped,
  each a key and a value around the first \<open>=\<close>, both unescaped.
\<close>

definition hex_value :: "char \<Rightarrow> nat" where
  "hex_value c = (case index_byte ''0123456789ABCDEF'' c of Some n \<Rightarrow> n | None \<Rightarrow> 0)"

fun unescape :: "string \<Rightarrow> string" where
  "unescape [] = []"
| "unescape (c # s) =
     (if c = CHR ''%'' then
        (case s of a # b # r \<Rightarrow> char_of (16 * hex_value a + hex_value b) # unescape r | _ \<Rightarrow> [c])
      else (if c = CHR ''+'' then CHR '' '' else c) # unescape s)"

definition query_pair :: "string \<Rightarrow> string \<times> string" where
  "query_pair p =
     (case index_byte p (CHR ''='') of
        None \<Rightarrow> (unescape p, '''')
      | Some i \<Rightarrow> (unescape (take i p), unescape (drop (Suc i) p)))"

definition read_query :: "string \<Rightarrow> (string \<times> string) list" where
  "read_query s = map query_pair (filter (\<lambda>p. p \<noteq> '''') (split_char (CHR ''&'') s))"

lemma hex_value_digit: "n < 16 \<Longrightarrow> hex_value (hex_digit n) = n"
proof -
  have "list_all (\<lambda>n. hex_value (hex_digit n) = n) [0..<16]" by code_simp
  then show "n < 16 \<Longrightarrow> hex_value (hex_digit n) = n" by (auto simp: list_all_iff)
qed

lemma unescape_percent: "unescape (percent c @ s) = c # unescape s"
proof -
  have "(of_char c :: nat) div 16 < 16"
    by (rule less_mult_imp_div_less) (use nat_of_char_less_256 [of c] in linarith)
  moreover have "16 * ((of_char c :: nat) div 16) + of_char c mod 16 = of_char c" by simp
  ultimately show ?thesis by (simp add: percent_def hex_value_digit)
qed

lemma unescape_char: "unescape (query_char c @ s) = c # unescape s"
  using unescape_percent [of c s]
  by (auto simp: query_char_def unreserved_def)

lemma unescape_escape: "unescape (QueryEscape s) = s"
proof -
  have "unescape (QueryEscape s @ r) = s @ unescape r" for r
    by (induction s) (simp_all add: QueryEscape_def unescape_char)
  from this [of "''''"] show ?thesis by simp
qed

lemma escaped_no_separator: "CHR ''&'' \<notin> set (QueryEscape s)" "CHR ''='' \<notin> set (QueryEscape s)"
  using QueryEscape_plain [of "CHR ''&''" s] QueryEscape_plain [of "CHR ''=''" s]
  by (auto simp: unreserved_def)

lemma index_byte_append: "c \<notin> set s \<Longrightarrow> index_byte (s @ c # r) c = Some (length s)"
  by (induction s) auto

definition escaped_pair :: "string \<times> string \<Rightarrow> string" where
  "escaped_pair kv = QueryEscape (fst kv) @ ''='' @ QueryEscape (snd kv)"

lemma query_pair_escaped [simp]: "query_pair (escaped_pair kv) = kv"
  using index_byte_append [OF escaped_no_separator(2) [of "fst kv"], of "QueryEscape (snd kv)"]
  by (simp add: query_pair_def unescape_escape escaped_pair_def)

lemma escaped_pair_piece [simp]: "CHR ''&'' \<notin> set (escaped_pair kv)" "escaped_pair kv \<noteq> ''''"
  using escaped_no_separator(1) by (auto simp: escaped_pair_def)

lemma split_join:
  assumes "xs \<noteq> []" and "\<forall>x \<in> set xs. c \<notin> set x"
  shows "split_char c (str_join xs [c]) = xs"
  using assms
proof (induction xs)
  case (Cons x xs)
  show ?case
  proof (cases xs)
    case Nil
    with Cons.prems show ?thesis by (simp add: split_char_single)
  next
    case (Cons y ys)
    with Cons.IH Cons.prems show ?thesis by (simp add: str_join_Cons split_char_append)
  qed
qed simp

text \<open>The pairs of \<open>url.Values\<close> in the order of the encoding.\<close>

definition values_pairs :: "url_values \<Rightarrow> (string \<times> string) list" where
  "values_pairs vs = concat (map (\<lambda>(k, xs). map (\<lambda>v. (k, v)) xs) (sort_key fst vs))"

lemma set_values_pairs: "(k, v) \<in> set (values_pairs vs) \<longleftrightarrow> (\<exists>xs. (k, xs) \<in> set vs \<and> v \<in> set xs)"
  by (auto simp: values_pairs_def)

lemma values_encode_pairs: "values_encode vs = str_join (map escaped_pair (values_pairs vs)) ''&''"
proof -
  have "map (\<lambda>(k, xs). map (\<lambda>v. QueryEscape k @ ''='' @ QueryEscape v) xs) ws =
    map (map escaped_pair) (map (\<lambda>(k, xs). map (\<lambda>v. (k, v)) xs) ws)" for ws :: url_values
    by (induction ws) (auto simp: escaped_pair_def)
  then show ?thesis by (simp only: values_encode_def values_pairs_def map_concat)
qed

lemma read_query_pairs: "read_query (str_join (map escaped_pair kvs) ''&'') = kvs"
proof (cases "kvs = []")
  case True
  then show ?thesis by (simp add: read_query_def)
next
  case False
  with False have "split_char (CHR ''&'') (str_join (map escaped_pair kvs) ''&'') = map escaped_pair kvs"
    by (intro split_join) auto
  then show ?thesis by (simp add: read_query_def comp_def filter_map)
qed

lemma read_query_values: "read_query (values_encode vs) = values_pairs vs"
  by (simp add: values_encode_pairs read_query_pairs)

text \<open>The shape of the tenant queries: the tenant in front, then the client's parameters.\<close>

lemma read_query_front: "read_query (escaped_pair kv @ ''&'' @ s) = kv # read_query s"
  by (simp add: read_query_def split_char_append)

lemma tenant_pair: "''tenantIdIn='' @ QueryEscape u = escaped_pair (''tenantIdIn'', u)"
proof -
  have "QueryEscape ''tenantIdIn'' = ''tenantIdIn''" by code_simp
  then show ?thesis by (simp add: escaped_pair_def)
qed

lemma read_query_tenant:
  "read_query (''tenantIdIn='' @ QueryEscape u @ ''&'' @ values_encode vs) =
   (''tenantIdIn'', u) # values_pairs vs"
  using read_query_front [of "(''tenantIdIn'', u)" "values_encode vs"]
  by (simp only: tenant_pair [symmetric] append_assoc read_query_values)

section \<open>What the engine answered\<close>

text \<open>The engine's answer to a GET request: a good status, a value of the type, and the property.\<close>

definition answered ::
  "('e, 'c) system \<Rightarrow> string \<Rightarrow> 'e \<Rightarrow> (int \<Rightarrow> bool) \<Rightarrow> (json \<Rightarrow> 'a res) \<Rightarrow> ('a \<Rightarrow> bool) \<Rightarrow> bool" where
  "answered sys url e good dec P =
     (case fst (http sys (get_request url) e) of
        HttpFail err \<Rightarrow> False
      | Reply st status body js \<Rightarrow>
          good st \<and> (case Sum_Type.case_sum Inl dec js of Inl err \<Rightarrow> False | Inr x \<Rightarrow> P x))"

lemma Get_answered:
  "fst (Get sys dec url w) = Inr x \<longleftrightarrow> answered sys url (env w) (\<lambda>st. st < 300) dec (\<lambda>y. y = x)"
  by (auto simp: Get_def send_def answered_def split: prod.splits reply.splits sum.splits)

lemma ensure_shard_env: "ensure_shard sys u w = (r, w1) \<Longrightarrow> env w1 = env w \<and> vids w1 = vids w"
  using ensure_shard_sent by blast

section \<open>Access\<close>

definition definition_granted :: "('e, 'c) system \<Rightarrow> string \<Rightarrow> string \<Rightarrow> ('e, 'c) world \<Rightarrow> bool" where
  "definition_granted sys i u w \<longleftrightarrow>
     (\<exists>shard. fst (ensure_shard sys u w) = Inr shard \<and>
        answered sys (definition_url shard i) (env w) (\<lambda>st. st < 300) decode_ProcessDefinition
          (\<lambda>d. pd_TenantId d = u))"

definition deployment_granted :: "('e, 'c) system \<Rightarrow> string \<Rightarrow> string \<Rightarrow> ('e, 'c) world \<Rightarrow> bool" where
  "deployment_granted sys vid u w \<longleftrightarrow>
     (\<exists>shard did. fst (ensure_shard sys u w) = Inr shard \<and>
        fst (GetDeploymentId vid (vids w)) = Inr (Some did) \<and>
        answered sys (deployment_url shard did) (env w) (\<lambda>st. st < 300) decode_CamundaDeployment
          (\<lambda>d. cd_Id d \<noteq> [] \<and> cd_TenantId d = u))"

definition instance_granted :: "('e, 'c) system \<Rightarrow> string \<Rightarrow> string \<Rightarrow> ('e, 'c) world \<Rightarrow> bool" where
  "instance_granted sys i u w \<longleftrightarrow>
     (\<exists>shard. fst (ensure_shard sys u w) = Inr shard \<and>
        answered sys (instance_url shard i) (env w) (\<lambda>st. st = 200) decode_ProcessInstance
          (\<lambda>p. pi_TenantId p = u))"

definition history_granted :: "('e, 'c) system \<Rightarrow> string \<Rightarrow> string \<Rightarrow> ('e, 'c) world \<Rightarrow> bool" where
  "history_granted sys i u w \<longleftrightarrow>
     (\<exists>shard. fst (ensure_shard sys u w) = Inr shard \<and>
        answered sys (history_url shard i) (env w) (\<lambda>st. st < 300) decode_HistoricProcessInstance
          (\<lambda>p. hi_TenantId p = u))"

lemmas granted_defs = definition_granted_def deployment_granted_def instance_granted_def history_granted_def

lemma checks_granted:
  "fst (CheckProcessDefinitionAccess sys i u w) = Inr () \<longleftrightarrow> definition_granted sys i u w"
  "fst (CheckDeploymentAccess sys vid u w) = Inr () \<longleftrightarrow> deployment_granted sys vid u w"
  "fst (fst (CheckProcessInstanceAccess sys i u w)) = None \<longleftrightarrow> instance_granted sys i u w"
  "(\<exists>did. fst (CheckHistoryAccess sys i u w) = Inr did) \<longleftrightarrow> history_granted sys i u w"
  unfolding granted_defs
proof -
  obtain r w0 where e: "ensure_shard sys u w = (r, w0)" by (cases "ensure_shard sys u w")
  have w0: "env w0 = env w" "vids w0 = vids w" using ensure_shard_env [OF e] by auto
  have deployment: "fst (andThen (Get sys decode_CamundaDeployment url) (\<lambda>wrapper.
        if cd_Id wrapper = '''' then fail_with ErrCamundaDeploymentUnknown
        else if cd_TenantId wrapper \<noteq> u then fail_with ErrAccessDenied else return ()) w') = Inr () \<longleftrightarrow>
      answered sys url (env w') (\<lambda>st. st < 300) decode_CamundaDeployment
        (\<lambda>d. cd_Id d \<noteq> '''' \<and> cd_TenantId d = u)" for url and w' :: "('a, 'b) world"
    by (auto simp: andThen_def Get_def send_def answered_def fail_with_def return_def
        split: prod.splits reply.splits sum.splits)
  show "fst (CheckProcessDefinitionAccess sys i u w) = Inr () \<longleftrightarrow>
     (\<exists>shard. fst (ensure_shard sys u w) = Inr shard \<and>
        answered sys (definition_url shard i) (env w) (\<lambda>st. st < 300) decode_ProcessDefinition
          (\<lambda>d. pd_TenantId d = u))"
    using e w0 by (cases r)
      (auto simp: CheckProcessDefinitionAccess_def andThen_def Get_def send_def answered_def
        fail_with_def return_def split: prod.splits reply.splits sum.splits)
  show "fst (CheckDeploymentAccess sys vid u w) = Inr () \<longleftrightarrow>
     (\<exists>shard did. fst (ensure_shard sys u w) = Inr shard \<and>
        fst (GetDeploymentId vid (vids w)) = Inr (Some did) \<and>
        answered sys (deployment_url shard did) (env w) (\<lambda>st. st < 300) decode_CamundaDeployment
          (\<lambda>d. cd_Id d \<noteq> '''' \<and> cd_TenantId d = u))"
    using e w0 deployment by (cases r)
      (auto simp: CheckDeploymentAccess_def andThen_def on_vids_def fail_with_def
        split: prod.splits sum.splits option.splits)
  show "fst (fst (CheckProcessInstanceAccess sys i u w)) = None \<longleftrightarrow>
     (\<exists>shard. fst (ensure_shard sys u w) = Inr shard \<and>
        answered sys (instance_url shard i) (env w) (\<lambda>st. st = 200) decode_ProcessInstance
          (\<lambda>p. pi_TenantId p = u))"
    using e w0 by (cases r)
      (auto simp: CheckProcessInstanceAccess_def send_def answered_def
        split: prod.splits reply.splits sum.splits)
  show "(\<exists>did. fst (CheckHistoryAccess sys i u w) = Inr did) \<longleftrightarrow>
     (\<exists>shard. fst (ensure_shard sys u w) = Inr shard \<and>
        answered sys (history_url shard i) (env w) (\<lambda>st. st < 300) decode_HistoricProcessInstance
          (\<lambda>p. hi_TenantId p = u))"
    using e w0 by (cases r)
      (auto simp: CheckHistoryAccess_def andThen_def Get_def send_def answered_def
        fail_with_def return_def split: prod.splits reply.splits sum.splits)
qed

text \<open>
  C9: the access checks grant a user access exactly when the engine of the user's own shard
  answers the request for that resource with a resource of the user as tenant: a definition,
  an instance (status 200), a historic instance, and a deployment with an id, for the id related to
  the virtual id. Every failure on the way, of the database, the network or the decoding, denies.
\<close>

theorem access_of_the_tenant_only:
  "(fst (CheckProcessDefinitionAccess sys i u w) = Inr () \<longleftrightarrow>
     (\<exists>shard. fst (ensure_shard sys u w) = Inr shard \<and>
        answered sys (definition_url shard i) (env w) (\<lambda>st. st < 300) decode_ProcessDefinition
          (\<lambda>d. pd_TenantId d = u))) \<and>
   (fst (CheckDeploymentAccess sys vid u w) = Inr () \<longleftrightarrow>
     (\<exists>shard did. fst (ensure_shard sys u w) = Inr shard \<and>
        fst (GetDeploymentId vid (vids w)) = Inr (Some did) \<and>
        answered sys (deployment_url shard did) (env w) (\<lambda>st. st < 300) decode_CamundaDeployment
          (\<lambda>d. cd_Id d \<noteq> '''' \<and> cd_TenantId d = u))) \<and>
   (fst (fst (CheckProcessInstanceAccess sys i u w)) = None \<longleftrightarrow>
     (\<exists>shard. fst (ensure_shard sys u w) = Inr shard \<and>
        answered sys (instance_url shard i) (env w) (\<lambda>st. st = 200) decode_ProcessInstance
          (\<lambda>p. pi_TenantId p = u))) \<and>
   ((\<exists>did. fst (CheckHistoryAccess sys i u w) = Inr did) \<longleftrightarrow>
     (\<exists>shard. fst (ensure_shard sys u w) = Inr shard \<and>
        answered sys (history_url shard i) (env w) (\<lambda>st. st < 300) decode_HistoricProcessInstance
          (\<lambda>p. hi_TenantId p = u)))"
  using checks_granted unfolding granted_defs by (intro conjI)

section \<open>Lists of the tenant\<close>

text \<open>A query that names the user as the only tenant, however the engine resolves repetitions.\<close>

definition asks_for_tenant :: "string \<Rightarrow> string \<Rightarrow> bool" where
  "asks_for_tenant u q \<longleftrightarrow> (''tenantIdIn'', u) \<in> set (read_query q) \<and>
     list_all (\<lambda>(k, v). k = ''tenantIdIn'' \<longrightarrow> v = u) (read_query q)"

lemma asks_front:
  assumes "list_all (\<lambda>(k, v). k = ''tenantIdIn'' \<longrightarrow> v = u) (read_query s)"
  shows "asks_for_tenant u (''tenantIdIn='' @ QueryEscape u @ ''&'' @ s)"
  using assms read_query_front [of "(''tenantIdIn'', u)" s]
  by (simp only: tenant_pair [symmetric] append_assoc asks_for_tenant_def list.set list.pred_inject) simp

lemma asks_single: "asks_for_tenant u (''tenantIdIn='' @ QueryEscape u)"
  using split_char_single [OF escaped_pair_piece(1) [of "(''tenantIdIn'', u)"]]
  unfolding tenant_pair asks_for_tenant_def read_query_def by simp

lemma asks_literal:
  "asks_for_tenant u (''tenantIdIn='' @ QueryEscape u @ ''&finished=true'')"
  "asks_for_tenant u (''tenantIdIn='' @ QueryEscape u @ ''&unfinished=true'')"
proof -
  have "read_query ''finished=true'' = [(''finished'', ''true'')]"
    "read_query ''unfinished=true'' = [(''unfinished'', ''true'')]" by code_simp+
  then show "asks_for_tenant u (''tenantIdIn='' @ QueryEscape u @ ''&finished=true'')"
    "asks_for_tenant u (''tenantIdIn='' @ QueryEscape u @ ''&unfinished=true'')"
    using asks_front [of u "''finished=true''"] asks_front [of u "''unfinished=true''"] by simp_all
qed

lemma asks_deployment:
  "asks_for_tenant u (''tenantIdIn='' @ QueryEscape u @ ''&deploymentId='' @ QueryEscape i)"
proof -
  have "QueryEscape ''deploymentId'' = ''deploymentId''" by code_simp
  then have e: "''deploymentId='' @ QueryEscape i = escaped_pair (''deploymentId'', i)"
    by (simp add: escaped_pair_def)
  have "read_query (''deploymentId='' @ QueryEscape i) = [(''deploymentId'', i)]"
    unfolding e read_query_def by (simp add: split_char_single)
  then show ?thesis using asks_front [of u "''deploymentId='' @ QueryEscape i"] by simp
qed

lemma asks_client:
  "asks_for_tenant u (''tenantIdIn='' @ QueryEscape u @ ''&'' @ values_encode (values_del ''tenantIdIn'' vs))"
  by (rule asks_front) (auto simp: read_query_values list_all_iff set_values_pairs values_del_def)

lemma asks_history:
  "asks_for_tenant u (values_encode (history_params u st sv li off so sd fin))"
  unfolding asks_for_tenant_def read_query_values list_all_iff
  by (auto simp: set_values_pairs history_params_def)

definition tenant_paths :: "string list" where
  "tenant_paths = [''deployment'', ''process-instance'', ''process-instance/count'',
     ''history/process-instance'', ''history/process-instance/count'']"

text \<open>From \<open>w\<close> to \<open>w1\<close>: only GET requests to the user's shard that ask for the user as tenant.\<close>

definition tenant_requests :: "('e, 'c) system \<Rightarrow> string \<Rightarrow> ('e, 'c) world \<Rightarrow> ('e, 'c) world \<Rightarrow> bool" where
  "tenant_requests sys u w w1 \<longleftrightarrow> sent w1 = sent w \<or>
     (\<exists>shard rqs. fst (ensure_shard sys u w) = Inr shard \<and> sent w1 = sent w @ rqs \<and>
        (\<forall>rq \<in> set rqs. \<exists>path \<in> set tenant_paths. \<exists>q. asks_for_tenant u q \<and>
           rq = get_request (shard @ ''/engine-rest/'' @ path @ ''?'' @ q)))"

lemma sent_Get: "sent (snd (Get sys dec url w)) = sent w @ [get_request url]"
  using Get_sent [of sys dec url w "fst (Get sys dec url w)" "snd (Get sys dec url w)"] by simp

lemma tenant_Get:
  assumes "\<And>shard. url shard = shard @ ''/engine-rest/'' @ path @ ''?'' @ q"
    and "path \<in> set tenant_paths" "asks_for_tenant u q"
    and "\<And>shard x v. sent (snd (k shard x v)) = sent v \<or>
      (\<exists>path1 \<in> set tenant_paths. \<exists>q1. asks_for_tenant u q1 \<and>
         sent (snd (k shard x v)) = sent v @ [get_request (shard @ ''/engine-rest/'' @ path1 @ ''?'' @ q1)])"
  shows "tenant_requests sys u w
    (snd (andThen (ensure_shard sys u) (\<lambda>shard. andThen (Get sys dec (url shard)) (k shard)) w))"
proof -
  obtain r w0 where e: "ensure_shard sys u w = (r, w0)" by (cases "ensure_shard sys u w")
  have s0: "sent w0 = sent w" using ensure_shard_sent [OF e] by simp
  show ?thesis
  proof (cases r)
    case (Inl err)
    with e s0 show ?thesis by (simp add: andThen_def tenant_requests_def)
  next
    case (Inr shard)
    obtain rg wg where g: "Get sys dec (url shard) w0 = (rg, wg)" by (cases "Get sys dec (url shard) w0")
    have sg: "sent wg = sent w @ [get_request (shard @ ''/engine-rest/'' @ path @ ''?'' @ q)]"
      using sent_Get [of sys dec "url shard" w0] g s0 assms(1) by simp
    have fin: "snd (andThen (ensure_shard sys u) (\<lambda>shard. andThen (Get sys dec (url shard)) (k shard)) w) =
        (case rg of Inl err \<Rightarrow> wg | Inr x \<Rightarrow> snd (k shard x wg))"
      using e Inr g by (simp add: andThen_def split: sum.split)
    show ?thesis
    proof (cases "\<exists>x. rg = Inr x \<and> sent (snd (k shard x wg)) \<noteq> sent wg")
      case False
      then have "sent (case rg of Inl err \<Rightarrow> wg | Inr x \<Rightarrow> snd (k shard x wg)) = sent wg"
        by (cases rg) auto
      with sg fin e Inr assms(2,3) show ?thesis unfolding tenant_requests_def by auto
    next
      case True
      then obtain x where x: "rg = Inr x" "sent (snd (k shard x wg)) \<noteq> sent wg" by blast
      with assms(4) obtain path1 q1 where "path1 \<in> set tenant_paths" "asks_for_tenant u q1"
        "sent (snd (k shard x wg)) = sent wg @ [get_request (shard @ ''/engine-rest/'' @ path1 @ ''?'' @ q1)]"
        by blast
      with x sg fin e Inr assms(2,3) show ?thesis unfolding tenant_requests_def
        by (intro disjI2 exI [of _ shard] exI [of _ "[get_request (shard @ ''/engine-rest/'' @ path @ ''?'' @ q),
          get_request (shard @ ''/engine-rest/'' @ path1 @ ''?'' @ q1)]"]) auto
    qed
  qed
qed

lemma andThen_return: "andThen m return = m"
  by (rule ext) (simp add: andThen_def return_def split: prod.splits sum.splits)

lemma tenant_engine_get:
  assumes "path \<in> set tenant_paths" "asks_for_tenant u q" "p = path @ ''?'' @ q"
  shows "tenant_requests sys u w (snd (engine_get sys dec p u w))"
proof -
  have "engine_get sys dec p u = andThen (ensure_shard sys u)
      (\<lambda>shard. andThen (Get sys dec (shard @ ''/engine-rest/'' @ p)) return)"
    by (simp add: engine_get_def andThen_return)
  then show ?thesis
    by (simp only:) (rule tenant_Get, use assms in \<open>auto simp: return_def\<close>)
qed

lemma known_deployments_keeps:
  assumes "known_deployments ds w = (r, w1)"
  shows "sent w1 = sent w \<and> committed (vids w1) = committed (vids w) \<and>
    (\<exists>sel. subseq sel ds \<and> list_all2 (\<lambda>d d'. (cd_Id d, cd_Id d') \<in> set (committed (vids w)) \<and>
       d' = d\<lparr>cd_Id := cd_Id d'\<rparr>) sel r)"
  using assms
proof (induction ds arbitrary: w r w1)
  case (Cons d ds)
  obtain rd wd where d: "set_vid_deployment d w = (rd, wd)" by (cases "set_vid_deployment d w")
  obtain rest wr where k: "known_deployments ds wd = (rest, wr)" by (cases "known_deployments ds wd")
  obtain sd where s: "SetVid CamundaDeployment_GetDeploymentId CamundaDeployment_SetDeploymentId d
      (vids w) = (rd, sd)" "wd = w\<lparr>vids := sd\<rparr>"
    using d by (auto simp: set_vid_deployment_def on_vids_def split: prod.splits)
  note sc = SetVid_cases [OF s(1)]
  from Cons.IH [OF k] s(2) sc(1) obtain sel where sel: "subseq sel ds"
    "list_all2 (\<lambda>d d'. (cd_Id d, cd_Id d') \<in> set (committed (vids w)) \<and> d' = d\<lparr>cd_Id := cd_Id d'\<rparr>) sel rest"
    and same: "sent wr = sent w" "committed (vids wr) = committed (vids w)" by auto
  from Cons.prems d k have r: "w1 = wr" "r = (case rd of Inl _ \<Rightarrow> rest | Inr d' \<Rightarrow> d' # rest)" by auto
  show ?case
  proof (cases rd)
    case (Inl err)
    then show ?thesis using sel same r by (auto intro!: exI [of _ sel])
  next
    case (Inr d')
    from sc(2) [OF Inr] have "(cd_Id d, cd_Id d') \<in> set (committed (vids w)) \<and> d' = d\<lparr>cd_Id := cd_Id d'\<rparr>"
      by (auto simp: CamundaDeployment_GetDeploymentId_def CamundaDeployment_SetDeploymentId_def)
    with Inr sel same r show ?thesis by (auto intro!: exI [of _ "d # sel"])
  qed
qed (auto intro!: exI [of _ "[]"])

lemma tenant_GetDeploymentList:
  "tenant_requests sys u w (snd (GetDeploymentList sys u params w))"
  unfolding GetDeploymentList_def
proof (rule tenant_Get)
  show "shard @ ''/engine-rest/deployment?tenantIdIn='' @ QueryEscape u @ ''&'' @
      values_encode (values_del ''tenantIdIn'' params) =
    shard @ ''/engine-rest/'' @ ''deployment'' @ ''?'' @
      (''tenantIdIn='' @ QueryEscape u @ ''&'' @ values_encode (values_del ''tenantIdIn'' params))" for shard
    by simp
  show "''deployment'' \<in> set tenant_paths" by (simp add: tenant_paths_def)
  show "sent (snd (case known_deployments x v of (ds, w1) \<Rightarrow> (Inr ds, w1))) = sent v \<or> R" for x v R
    using known_deployments_keeps by (auto split: prod.split)
qed (rule asks_client)

lemma tenant_with_total:
  "tenant_requests sys u w (snd (GetFilteredProcessInstanceHistoryListWithTotal sys u params w))"
  "tenant_requests sys u w (snd (GetProcessInstanceHistoryListWithTotal sys u st sv li off so sd fin w))"
proof -
  have total: "sent (snd (andThen (Get sys decode_Count url) (\<lambda>c. return (f c)) v)) = sent v @ [get_request url]"
    for url v and f :: "Count \<Rightarrow> HistoricProcessInstancesWithTotal"
    using sent_Get [of sys decode_Count url v]
    by (auto simp: andThen_def return_def split: prod.splits sum.splits)
  have p: "''history/process-instance'' \<in> set tenant_paths" "''history/process-instance/count'' \<in> set tenant_paths"
    by (simp_all add: tenant_paths_def)
  let ?q = "''tenantIdIn='' @ QueryEscape u @ ''&'' @ values_encode (values_del ''tenantIdIn'' params)"
  have second: "sent (snd (andThen (Get sys decode_Count (shard @ ''/engine-rest/history/process-instance/count?'' @ q))
        (\<lambda>count. return \<lparr>ht_Total = count_Count count, ht_Data = x\<rparr>) v)) = sent v \<or>
      (\<exists>path1 \<in> set tenant_paths. \<exists>q1. asks_for_tenant u q1 \<and>
        sent (snd (andThen (Get sys decode_Count (shard @ ''/engine-rest/history/process-instance/count?'' @ q))
          (\<lambda>count. return \<lparr>ht_Total = count_Count count, ht_Data = x\<rparr>) v)) =
        sent v @ [get_request (shard @ ''/engine-rest/'' @ path1 @ ''?'' @ q1)])"
    if "asks_for_tenant u q" for shard x v q
    unfolding total by (rule disjI2, rule bexI [OF _ p(2)], rule exI [of _ q], simp add: that)
  show "tenant_requests sys u w (snd (GetFilteredProcessInstanceHistoryListWithTotal sys u params w))"
    unfolding GetFilteredProcessInstanceHistoryListWithTotal_def Let_def
    by (rule tenant_Get [of _ "''history/process-instance''" ?q, OF _ p(1) asks_client])
      (simp, use second [OF asks_client] in simp)
  let ?h = "values_encode (history_params u st sv li off so sd fin)"
  show "tenant_requests sys u w (snd (GetProcessInstanceHistoryListWithTotal sys u st sv li off so sd fin w))"
    unfolding GetProcessInstanceHistoryListWithTotal_def Let_def
    by (rule tenant_Get [of _ "''history/process-instance''" ?h, OF _ p(1) asks_history])
      (simp, rule second [OF asks_history])
qed

text \<open>
  C13: the nine functions that list or count what a user has (the deployments; the running instances
  and their number; the historic instances: all, the finished and the unfinished ones, those that the
  client's parameters select, with and without their total, and the page with its total) send their
  requests to the user's own shard with a query that an engine reads as naming the user as its only
  tenant, whatever characters the user id has and whatever parameters the client sent. The three
  lists of the historic instances of one definition, the definitions of a deployment and the count of
  a deployment at a shard are not among them: they name a definition or a deployment and no tenant.
\<close>

theorem lists_of_the_tenant_only:
  "tenant_requests sys u w (snd (GetDeploymentList sys u params w)) \<and>
   tenant_requests sys u w (snd (GetFilteredProcessInstanceHistoryList sys u params w)) \<and>
   tenant_requests sys u w (snd (GetFilteredProcessInstanceHistoryListWithTotal sys u params w)) \<and>
   tenant_requests sys u w (snd (GetProcessInstanceHistoryListWithTotal sys u st sv li off so sd fin w)) \<and>
   tenant_requests sys u w (snd (GetProcessInstanceHistoryList sys u w)) \<and>
   tenant_requests sys u w (snd (GetProcessInstanceHistoryListFinished sys u w)) \<and>
   tenant_requests sys u w (snd (GetProcessInstanceHistoryListUnfinished sys u w)) \<and>
   tenant_requests sys u w (snd (GetProcessInstanceCount sys u w)) \<and>
   tenant_requests sys u w (snd (GetProcessInstanceList sys u w))"
proof -
  have p: "''history/process-instance'' \<in> set tenant_paths" "''process-instance'' \<in> set tenant_paths"
    "''process-instance/count'' \<in> set tenant_paths" by (simp_all add: tenant_paths_def)
  have "tenant_requests sys u w (snd (GetFilteredProcessInstanceHistoryList sys u params w))"
    unfolding GetFilteredProcessInstanceHistoryList_def
    by (rule tenant_engine_get [OF p(1) asks_client [of u params]]) simp
  moreover have "tenant_requests sys u w (snd (GetProcessInstanceHistoryList sys u w))"
    unfolding GetProcessInstanceHistoryList_def
    by (rule tenant_engine_get [OF p(1) asks_single [of u]]) simp
  moreover have "tenant_requests sys u w (snd (GetProcessInstanceHistoryListFinished sys u w))"
    unfolding GetProcessInstanceHistoryListFinished_def
    by (rule tenant_engine_get [OF p(1) asks_literal(1) [of u]]) simp
  moreover have "tenant_requests sys u w (snd (GetProcessInstanceHistoryListUnfinished sys u w))"
    unfolding GetProcessInstanceHistoryListUnfinished_def
    by (rule tenant_engine_get [OF p(1) asks_literal(2) [of u]]) simp
  moreover have "tenant_requests sys u w (snd (GetProcessInstanceCount sys u w))"
    unfolding GetProcessInstanceCount_def
    by (rule tenant_engine_get [OF p(3) asks_single [of u]]) simp
  moreover have "tenant_requests sys u w (snd (GetProcessInstanceList sys u w))"
    unfolding GetProcessInstanceList_def
    by (rule tenant_engine_get [OF p(2) asks_single [of u]]) simp
  ultimately show ?thesis using tenant_GetDeploymentList tenant_with_total by blast
qed

text \<open>The deployments of an answer that have a virtual id, under that id.\<close>

definition by_virtual_id :: "vid_db \<Rightarrow> CamundaDeployment list \<Rightarrow> CamundaDeployment list" where
  "by_virtual_id d ds = List.map_filter (\<lambda>x. map_option (\<lambda>v. x\<lparr>cd_Id := v\<rparr>) (map_of d (cd_Id x))) ds"

lemma healthy_known_deployments:
  assumes "healthy (vids w)"
  shows "known_deployments ds w = (by_virtual_id (committed (vids w)) ds, w)"
proof (induction ds)
  case (Cons d ds)
  then show ?case
    using healthy_SetVid [OF assms, of CamundaDeployment_GetDeploymentId CamundaDeployment_SetDeploymentId d]
    by (auto simp: set_vid_deployment_def on_vids_def by_virtual_id_def map_filter_simps
        CamundaDeployment_GetDeploymentId_def CamundaDeployment_SetDeploymentId_def split: option.split)
qed (simp add: by_virtual_id_def map_filter_simps)

text \<open>
  C27: \<open>GetDeploymentList\<close> answers with deployments of the engine's answer, in its order, each under
  a virtual id that the relation gives its id, whichever calls of the database fail; when none
  fails, it leaves out exactly those without a virtual id. The relation stays as it is.
\<close>

theorem deployments_by_virtual_id:
  assumes "GetDeploymentList sys u params w = (Inr ds, w1)"
  shows "committed (vids w1) = committed (vids w) \<and>
    (\<exists>shard temp. fst (ensure_shard sys u w) = Inr shard \<and>
      answered sys (shard @ ''/engine-rest/deployment?tenantIdIn='' @ QueryEscape u @ ''&'' @
          values_encode (values_del ''tenantIdIn'' params)) (env w) (\<lambda>st. st < 300)
        (decode_list decode_CamundaDeployment) (\<lambda>x. x = temp) \<and>
      (\<exists>sel. subseq sel temp \<and> list_all2 (\<lambda>d d'. (cd_Id d, cd_Id d') \<in> set (committed (vids w)) \<and>
         d' = d\<lparr>cd_Id := cd_Id d'\<rparr>) sel ds) \<and>
      (healthy (vids w) \<longrightarrow> ds = by_virtual_id (committed (vids w)) temp))"
proof -
  let ?url = "\<lambda>shard. shard @ ''/engine-rest/deployment?tenantIdIn='' @ QueryEscape u @ ''&'' @
    values_encode (values_del ''tenantIdIn'' params)"
  from assms obtain shard w0 where e: "ensure_shard sys u w = (Inr shard, w0)"
    and r: "andThen (Get sys (decode_list decode_CamundaDeployment) (?url shard)) (\<lambda>temp w.
      (case known_deployments temp w of (ds, w1) \<Rightarrow> (Inr ds, w1))) w0 = (Inr ds, w1)"
    unfolding GetDeploymentList_def andThen_Inr by blast
  from r obtain temp wg where
    g: "Get sys (decode_list decode_CamundaDeployment) (?url shard) w0 = (Inr temp, wg)"
    and kd: "(case known_deployments temp wg of (ds, w1) \<Rightarrow> (Inr ds, w1)) = (Inr ds :: CamundaDeployment list res, w1)"
    unfolding andThen_Inr by blast
  have k: "known_deployments temp wg = (ds, w1)" using kd by (auto split: prod.splits)
  have v: "vids w0 = vids w" "env w0 = env w" "vids wg = vids w"
    using ensure_shard_env [OF e] leaves_vidsD [OF leaves.Gets g] by auto
  have "answered sys (?url shard) (env w) (\<lambda>st. st < 300) (decode_list decode_CamundaDeployment)
      (\<lambda>x. x = temp)"
    using Get_answered [of sys "decode_list decode_CamundaDeployment" "?url shard" w0 temp] g v by simp
  moreover have "healthy (vids w) \<longrightarrow> ds = by_virtual_id (committed (vids w)) temp"
    using healthy_known_deployments [of wg temp] k v by auto
  ultimately show ?thesis using known_deployments_keeps [OF k] v e by auto
qed

theorem deployments_by_virtual_id_witness:
  "\<exists>ds w1. GetDeploymentList demo_system ''alice'' [] demo_world = (Inr ds, w1) \<and> map cd_Id ds = [''v1''] \<and>
     committed (vids w1) = [(''d1'', ''v1'')]"
proof -
  have "map_sum (\<lambda>e. e) (map cd_Id) (fst (GetDeploymentList demo_system ''alice'' [] demo_world)) = Inr [''v1'']"
    by code_simp
  then obtain ds where d: "fst (GetDeploymentList demo_system ''alice'' [] demo_world) = Inr ds"
    "map cd_Id ds = [''v1'']" by (cases "fst (GetDeploymentList demo_system ''alice'' [] demo_world)") simp_all
  define w1 where "w1 = snd (GetDeploymentList demo_system ''alice'' [] demo_world)"
  have r: "GetDeploymentList demo_system ''alice'' [] demo_world = (Inr ds, w1)" "map cd_Id ds = [''v1'']"
    using d by (simp_all add: w1_def prod_eq_iff)
  from deployments_by_virtual_id [OF r(1)] r show ?thesis by (simp add: demo_world_def demo_vid_def)
qed

section \<open>The placeholder\<close>

lemma replace_skip:
  "list_all (\<lambda>c. c \<noteq> CHR ''P'') a \<Longrightarrow>
   replace_first (a @ s) ''PROCESSID'' new = a @ replace_first s ''PROCESSID'' new"
proof (induction a)
  case (Cons x a)
  then have "replace_first (x # a @ s) ''PROCESSID'' new = x # replace_first (a @ s) ''PROCESSID'' new"
    by (auto simp: replace_first_def has_prefix_def split: option.splits)
  with Cons show ?case by simp
qed simp

lemma replace_skip_P:
  "take 1 s \<noteq> ''R'' \<Longrightarrow>
   replace_first (''P'' @ s) ''PROCESSID'' new = ''P'' @ replace_first s ''PROCESSID'' new"
  by (cases s) (auto simp: replace_first_def has_prefix_def split: option.splits)

lemma replace_here: "replace_first (''PROCESSID'' @ s) ''PROCESSID'' new = new @ s"
  by (simp add: replace_first_def has_prefix_def)

text \<open>The template, cut at its first letters \<open>P\<close> and around its two placeholders.\<close>

definition blank_start :: string where
  "blank_start = ''<bpmn:definitions xmlns:xsi='' @
      [CHR 0x27] @
      ''http://www.w3.org/2001/XMLSchema-instance'' @
      [CHR 0x27] @
      '' xmlns:bpmn='' @
      [CHR 0x27] @
      ''http://www.omg.org/spec/B''"

definition blank_next :: string where
  "blank_next = ''MN/20100524/MODEL'' @
      [CHR 0x27] @
      '' xmlns:bpmndi='' @
      [CHR 0x27] @
      ''http://www.omg.org/spec/B''"

definition blank_process :: string where
  "blank_process = ''MN/20100524/DI'' @
      [CHR 0x27] @
      '' xmlns:dc='' @
      [CHR 0x27] @
      ''http://www.omg.org/spec/DD/20100524/DC'' @
      [CHR 0x27] @
      '' id='' @
      [CHR 0x27] @
      ''Definitions_1'' @
      [CHR 0x27] @
      '' targetNamespace='' @
      [CHR 0x27] @
      ''http://bpmn.io/schema/bpmn'' @
      [CHR 0x27] @
      ''>''"

definition blank_middle :: string where
  "blank_middle = '' isExecutable='' @
      [CHR 0x27] @
      ''true'' @
      [CHR 0x27] @
      ''><bpmn:startEvent id='' @
      [CHR 0x27] @
      ''StartEvent_1'' @
      [CHR 0x27] @
      ''/></bpmn:process><bpmndi:BPMNDiagram id='' @
      [CHR 0x27] @
      ''BPMNDiagram_1'' @
      [CHR 0x27] @
      ''><bpmndi:BPMNPlane id='' @
      [CHR 0x27] @
      ''BPMNPlane_1'' @
      [CHR 0x27]"

definition blank_end :: string where
  "blank_end = ''><bpmndi:BPMNShape id='' @
      [CHR 0x27] @
      ''_BPMNShape_StartEvent_2'' @
      [CHR 0x27] @
      '' bpmnElement='' @
      [CHR 0x27] @
      ''StartEvent_1'' @
      [CHR 0x27] @
      ''><dc:Bounds x='' @
      [CHR 0x27] @
      ''173'' @
      [CHR 0x27] @
      '' y='' @
      [CHR 0x27] @
      ''102'' @
      [CHR 0x27] @
      '' width='' @
      [CHR 0x27] @
      ''36'' @
      [CHR 0x27] @
      '' height='' @
      [CHR 0x27] @
      ''36'' @
      [CHR 0x27] @
      ''/></bpmndi:BPMNShape></bpmndi:BPMNPlane></bpmndi:BPMNDiagram></bpmn:definitions>''"

lemmas blank_parts = blank_start_def blank_next_def blank_process_def blank_middle_def blank_end_def

lemma blank_template_parts:
  "blank_template = blank_start @ ''P'' @ blank_next @ ''P'' @
     (blank_process @ ''<bpmn:process id='' @ [CHR 0x27]) @ ''PROCESSID'' @
     ([CHR 0x27] @ blank_middle @ '' bpmnElement='' @ apos ''PROCESSID'' @ blank_end)"
  by (simp only: blank_template_def blank_parts apos_def append.simps append_assoc)

lemma blank_parts_plain:
  "list_all (\<lambda>c. c \<noteq> CHR ''P'') blank_start" "list_all (\<lambda>c. c \<noteq> CHR ''P'') blank_next"
  "list_all (\<lambda>c. c \<noteq> CHR ''P'') (blank_process @ ''<bpmn:process id='' @ [CHR 0x27])"
  "take 1 (blank_next @ s) = ''M''" "take 1 ((blank_process @ ''<bpmn:process id='' @ [CHR 0x27]) @ s) = ''M''"
  by (simp_all add: blank_parts)

text \<open>
  the placeholder that is deployed when the engine refuses a process replaces one of the two
  occurrences of \<open>PROCESSID\<close>: its process has the generated id, and its diagram's plane still
  refers to an element \<open>PROCESSID\<close>.
\<close>

theorem placeholder_diagram_refers_to_nothing:
  "\<exists>a b c. CreateBlankProcess t =
     a @ ''<bpmn:process id='' @ apos (''id_'' @ format_int (floor t)) @ b @
     '' bpmnElement='' @ apos ''PROCESSID'' @ c"
proof -
  have "CreateBlankProcess t = blank_start @ ''P'' @ blank_next @ ''P'' @
      (blank_process @ ''<bpmn:process id='' @ [CHR 0x27]) @ (''id_'' @ format_int (floor t)) @
      ([CHR 0x27] @ blank_middle @ '' bpmnElement='' @ apos ''PROCESSID'' @ blank_end)"
    unfolding CreateBlankProcess_def blank_template_parts
    by (subst replace_skip replace_skip_P, use blank_parts_plain in force)+ (simp only: replace_here)
  then have "CreateBlankProcess t = (blank_start @ ''P'' @ blank_next @ ''P'' @ blank_process) @
      ''<bpmn:process id='' @ apos (''id_'' @ format_int (floor t)) @ blank_middle @
      '' bpmnElement='' @ apos ''PROCESSID'' @ blank_end"
    by (simp only: apos_def append_assoc)
  then show ?thesis by blast
qed

end
