(* ===== verification/ServeProps.thy ===== *)
theory ServeProps
  imports Serve ControllerProps CamundaProps
begin

text \<open>
  Properties of the service: what single requests can change, and what is kept over every run in
  which requests of all kinds follow each other, one at a time, and the surroundings fail in between.
\<close>

section \<open>Who can change the relation\<close>

lemma attempt_unchanged:
  assumes "attempt_code m (respond x) w = (r, w1)"
  shows "\<exists>r'. m w = (r', w1)"
  using assms by (auto simp: attempt_code_def respond_def split: prod.splits option.splits)

lemma Deploy_world:
  "Deploy sys depl w = (r, w1) \<Longrightarrow>
     w1 = w \<or> (\<exists>xml rd. prepare_xml sys depl = Inr xml \<and> deploy_prepared sys depl xml w = (rd, w1))"
  by (auto simp: Deploy_def split: sum.splits prod.splits)

lemma Api_Deploy_cases:
  assumes "Api_Deploy sys rq w = (r, w1)"
  shows "w1 = w \<or> (\<exists>depl token xml rd. Sum_Type.case_sum Inl decode_DeploymentMessage (body rq) = Inr depl \<and>
    GetParsedToken sys rq = Inr token \<and> IsAdmin token \<and> prepare_xml sys depl = Inr xml \<and>
    deploy_prepared sys depl xml w = (rd, w1))"
  using assms
  by (auto simp: Api_Deploy_def with_body_def with_token_def respond_def [of "http_error m c" for m c]
      respond_def [of "bad_request e" for e] split: sum.splits if_splits dest!: attempt_unchanged Deploy_world)

lemma Api_DeleteDeployment_cases:
  assumes "Api_DeleteDeployment sys rq w = (r, w1)"
  shows "w1 = w \<or> (\<exists>token rd. GetParsedToken sys rq = Inr token \<and> IsAdmin token \<and>
    DeleteDeployment sys (path_value rq ''userid'') (path_value rq ''deplid'') w = (rd, w1))"
  using assms
  by (auto simp: Api_DeleteDeployment_def with_token_def respond_def attempt_def
      split: sum.splits if_splits prod.splits)

text \<open>
  C8: The relation between virtual ids and deployments is changed by nobody but administrators: if
  a request changes it, it came to one of the two deployment endpoints, with a token that has
  the role \<open>admin\<close>. The state of the other endpoints' requests shows no such change, whatever they
  answer.
\<close>
theorem relation_changed_by_admins_only:
  assumes "serve sys ep rq w = (code, w1)" and "committed (vids w1) \<noteq> committed (vids w)"
  shows "(ep = Ep_Deploy \<or> ep = Ep_DeleteDeployment) \<and>
    (\<exists>token. GetParsedToken sys rq = Inr token \<and> IsAdmin token)"
proof -
  have "ep \<in> admin_only"
    using frameD [OF serve_frame assms(1)] assms(2) by (auto simp: stays_def same_relation_def)
  then consider "ep = Ep_Deploy" | "ep = Ep_DeleteDeployment" by (auto simp: admin_only_def)
  then show ?thesis
  proof cases
    case 1
    with assms(1) obtain r where "Api_Deploy sys rq w = (r, w1)"
      by (auto simp: serve_def answer_def split: prod.splits)
    from Api_Deploy_cases [OF this] 1 assms(2) show ?thesis by auto
  next
    case 2
    with assms(1) obtain r where "Api_DeleteDeployment sys rq w = (r, w1)"
      by (auto simp: serve_def answer_def split: prod.splits)
    from Api_DeleteDeployment_cases [OF this] 2 assms(2) show ?thesis by auto
  qed
qed

lemma demo_removal:
  "\<exists>w1. serve demo_system Ep_DeleteDeployment
     \<lparr>path_value = path_value_of [(''userid'', ''alice''), (''deplid'', ''v1'')], query = [],
      authorization = ''root'', body = Inl (JsonError ''EOF'')\<rparr> demo_world = (Some 200, w1) \<and>
     committed (vids w1) = []"
proof -
  let ?rq = "\<lparr>path_value = path_value_of [(''userid'', ''alice''), (''deplid'', ''v1'')], query = [],
      authorization = ''root'', body = Inl (JsonError ''EOF'')\<rparr> :: api_request"
  have "(case serve demo_system Ep_DeleteDeployment ?rq demo_world of
      (code, w1) \<Rightarrow> code = Some 200 \<and> committed (vids w1) = [])" by code_simp
  then show ?thesis by (auto split: prod.splits)
qed

theorem relation_changed_by_admins_only_witness:
  "\<exists>token. GetParsedToken demo_system
     \<lparr>path_value = path_value_of [(''userid'', ''alice''), (''deplid'', ''v1'')], query = [],
      authorization = ''root'', body = Inl (JsonError ''EOF'')\<rparr> = Inr token \<and> IsAdmin token"
proof -
  obtain w1 where w1: "serve demo_system Ep_DeleteDeployment
     \<lparr>path_value = path_value_of [(''userid'', ''alice''), (''deplid'', ''v1'')], query = [],
      authorization = ''root'', body = Inl (JsonError ''EOF'')\<rparr> demo_world = (Some 200, w1)"
    "committed (vids w1) = []" using demo_removal by blast
  have "committed (vids w1) \<noteq> committed (vids demo_world)"
    using w1(2) by (simp add: demo_world_def demo_vid_def)
  from relation_changed_by_admins_only [OF w1(1) this] show ?thesis by blast
qed

section \<open>Runs of the server\<close>

text \<open>
  A run of the server that answers one request after the other. Between two requests the environment
  may change, and calls of the databases may begin to fail, in every way that the schedule of failures
  describes. Requests whose steps interleave, which the server also has, are the subject of
  \<open>Concurrent\<close> (the assignment of shards) and \<open>Races\<close> (deployments).
\<close>

inductive server_step :: "('e, 'c) system \<Rightarrow> ('e, 'c) world \<Rightarrow> ('e, 'c) world \<Rightarrow> bool" for sys where
  request: "ServeHTTP sys hr w = (headers, code, w1) \<Longrightarrow> server_step sys w w1"
| outside: "server_step sys w (w\<lparr>env := e, vids := (vids w)\<lparr>faults := fs\<rparr>,
    shards := (fst (shards w), (snd (shards w))\<lparr>faults := fs'\<rparr>)\<rparr>)"

abbreviation server_run :: "('e, 'c) system \<Rightarrow> ('e, 'c) world \<Rightarrow> ('e, 'c) world \<Rightarrow> bool" where
  "server_run sys \<equiv> (server_step sys)\<^sup>*\<^sup>*"



text \<open>A request does nothing but what one of the endpoints does, if anything.\<close>

lemma ServeHTTP_cases:
  assumes "ServeHTTP sys hr w = (headers, code, w1)"
  shows "w1 = w \<or> (\<exists>ep rq. serve sys ep rq w = (code, w1))"
  using assms by (auto simp: ServeHTTP_def CorsMiddleware_def mux_def split: if_splits routed.splits)

lemma server_run_keeps:
  assumes "server_run sys w w1" and "P w"
    and "\<And>ep rq w code w1. P w \<Longrightarrow> serve sys ep rq w = (code, w1) \<Longrightarrow> P w1"
    and "\<And>w e fs fs'. P w \<Longrightarrow> P (w\<lparr>env := e, vids := (vids w)\<lparr>faults := fs\<rparr>,
      shards := (fst (shards w), (snd (shards w))\<lparr>faults := fs'\<rparr>)\<rparr>)"
  shows "P w1"
  using assms(1,2)
proof (induction rule: rtranclp_induct)
  case (step w1 w2)
  from step.hyps(2) show ?case
  proof cases
    case (request hr headers code)
    from ServeHTTP_cases [OF request] assms(3) step.IH [OF step.prems] show ?thesis by blast
  next
    case (outside e fs fs')
    with assms(4) [OF step.IH [OF step.prems]] show ?thesis by blast
  qed
qed

section \<open>One deployment for a virtual id\<close>

text \<open>No row is lost on its way, and no virtual id has two deployments.\<close>

definition one_each :: "vid_db sql \<Rightarrow> bool" where
  "one_each s \<longleftrightarrow> cuts s = [] \<and> distinct (map snd (committed s))"

lemma distinct_without: "distinct (map snd d) \<Longrightarrow> distinct (map snd (without_relation vid i d))"
  by (simp add: without_relation_def distinct_map_filter)

lemma DeleteDeployment_one_each:
  assumes "DeleteDeployment sys u vid w = (r, w1)" and "one_each (vids w)"
  shows "one_each (vids w1)" and "r = Inr () \<Longrightarrow> vid \<notin> snd ` set (committed (vids w1))"
proof -
  have "cuts (vids w1) = []"
    using alwaysD [OF runs_DeleteDeployment assms(1)] assms(2) by (simp add: runs_def whole_def one_each_def)
  moreover note c = DeleteDeployment_cases [OF assms(1)]
  moreover have "distinct (map snd (committed (vids w1)))"
    using c assms(2) distinct_without by (auto simp: one_each_def)
  ultimately show "one_each (vids w1)" by (simp add: one_each_def)
  show "vid \<notin> snd ` set (committed (vids w1))" if "r = Inr ()"
  proof -
    have "vid \<notin> snd ` set (committed (vids w))" if "fst (GetDeploymentId vid (vids w)) = Inr None"
      using GetDeploymentId_absent [of vid "vids w"] that assms(2)
      by (cases "GetDeploymentId vid (vids w)") (auto simp: one_each_def)
    with c that show ?thesis by (elim disjE exE) (auto simp: without_relation_def)
  qed
qed

lemma cleanup_one_each:
  assumes "cleanupExistingDeployment sys u vid w = (r, w1)" and "one_each (vids w)"
  shows "one_each (vids w1)" and "r = Inr () \<Longrightarrow> vid \<notin> snd ` set (committed (vids w1))"
proof -
  obtain re we where e: "on_vids (VidExists vid) w = (re, we)" by (cases "on_vids (VidExists vid) w")
  then obtain se where se: "VidExists vid (vids w) = (re, se)" "we = w\<lparr>vids := se\<rparr>"
    by (auto simp: on_vids_eq)
  note ec = VidExists_cases [OF se(1)]
  have we: "one_each (vids we)" using ec(1,3) se(2) assms(2) by (simp add: one_each_def)
  have "one_each (vids w1) \<and> (r = Inr () \<longrightarrow> vid \<notin> snd ` set (committed (vids w1)))"
  proof (cases "re = Inr True")
    case True
    with assms(1) e have "DeleteDeployment sys u vid we = (r, w1)"
      by (simp add: cleanupExistingDeployment_def andThen_def)
    from DeleteDeployment_one_each [OF this we] show ?thesis by blast
  next
    case False
    with assms(1) e have w1: "w1 = we" "r = Inr () \<Longrightarrow> re = Inr False"
      by (auto simp: cleanupExistingDeployment_def andThen_def return_def split: sum.splits)
    with we ec(4) [of False] ec(1) se(2) show ?thesis by auto
  qed
  then show "one_each (vids w1)" "r = Inr () \<Longrightarrow> vid \<notin> snd ` set (committed (vids w1))" by auto
qed

lemma deploy_prepared_one_each:
  assumes "deploy_prepared sys depl xml w = (r, w1)" and "one_each (vids w)"
  shows "one_each (vids w1)"
proof -
  let ?vid = "dm_Id depl"
  have cuts: "cuts (vids w1) = []"
    using alwaysD [OF runs_deploy_prepared assms(1)] assms(2) by (simp add: runs_def whole_def one_each_def)
  obtain rc wc where c: "cleanupExistingDeployment sys (dm_UserId depl) ?vid w = (rc, wc)"
    by (cases "cleanupExistingDeployment sys (dm_UserId depl) ?vid w")
  note cc = cleanup_one_each [OF c assms(2)]
  show ?thesis
  proof (cases rc)
    case (Inl err)
    with assms(1) c cc show ?thesis by (auto simp: deploy_prepared_def andThen_def)
  next
    case (Inr x)
    let ?rest = "\<lambda>i. andThen (incident_handling sys depl i) (\<lambda>_.
      or_undeploy sys i (dm_UserId depl) (on_vids (SaveVidRelation ?vid i)))"
    obtain rd wd where d: "DeployProcess sys (dm_Name depl) xml (dg_Svg (dm_Diagram depl))
        (dm_UserId depl) (dm_Source depl) wc = (rd, wd)" by fastforce
    have vd: "vids wd = vids wc" using leaves_vidsD [OF leaves.deploys d] .
    from assms(1) c d Inr have "w1 = wd \<or> (\<exists>i. ?rest i wd = (r, w1))"
      by (auto simp: deploy_prepared_def andThen_def [of "cleanupExistingDeployment sys u v" for u v]
          andThen_def [of "DeployProcess sys n x s u so" for n x s u so] split: sum.splits)
    moreover have "committed (vids w1) = committed (vids wc) \<or>
        committed (vids w1) = committed (vids wc) @ [(i, ?vid)]" if "?rest i wd = (r, w1)" for i
    proof -
      obtain rh wh where h: "incident_handling sys depl i wd = (rh, wh)" by (cases "incident_handling sys depl i wd")
      have "vids wh = vids wc" using leaves_vidsD [OF leaves.handles_incidents h] vd by simp
      with that h or_undeploy_save_cases(1) [of sys i "dm_UserId depl" ?vid wh r w1] show ?thesis
        by (auto simp: andThen_def split: sum.splits)
    qed
    ultimately have "committed (vids w1) = committed (vids wc) \<or>
        (\<exists>i. committed (vids w1) = committed (vids wc) @ [(i, ?vid)])" using vd by auto
    with cc Inr cuts show ?thesis by (auto simp: one_each_def)
  qed
qed

lemma serve_one_each:
  assumes "serve sys ep rq w = (code, w1)" and "one_each (vids w)"
  shows "one_each (vids w1)"
proof (cases "ep \<in> admin_only")
  case False
  then show ?thesis using frameD [OF serve_frame assms(1)] assms(2)
    by (auto simp: stays_def same_relation_def one_each_def)
next
  case True
  then consider (deploy) r where "Api_Deploy sys rq w = (r, w1)"
    | (delete) r where "Api_DeleteDeployment sys rq w = (r, w1)"
    using assms(1) by (auto simp: admin_only_def serve_def answer_def split: prod.splits)
  then show ?thesis
  proof cases
    case deploy
    from Api_Deploy_cases [OF this] assms(2) deploy_prepared_one_each show ?thesis by blast
  next
    case delete
    from Api_DeleteDeployment_cases [OF this] assms(2) DeleteDeployment_one_each(1) show ?thesis by blast
  qed
qed

lemma server_run_one_each:
  assumes "server_run sys w w1" and "cuts (vids w) = []" and "distinct (map snd (committed (vids w)))"
  shows "distinct (map snd (committed (vids w1)))"
proof -
  have "one_each (vids w)" using assms(2,3) by (simp add: one_each_def)
  with assms(1) have "one_each (vids w1)"
  proof (rule server_run_keeps [where P = "\<lambda>w. one_each (vids w)"])
  qed (erule serve_one_each, assumption, simp add: one_each_def)
  then show ?thesis by (simp add: one_each_def)
qed

text \<open>
  C3: As long as requests are answered one after the other, no virtual id ever has two deployments:
  whatever requests come in whatever order, whatever the engines and the other services answer, and
  whatever calls of the databases fail or succeed without the server learning it, the relation
  keeps at most one row for a virtual id. No row is lost on its way from the database in these runs
  (\<open>cuts\<close>), and each request ends before the next begins. The server answers requests
  concurrently, and then the property is false: the theory \<open>Races\<close> exhibits two deployments of
  one virtual id whose steps interleave.
\<close>
theorem one_deployment_per_virtual_id:
  assumes "server_run sys w w1" and "cuts (vids w) = []" and "distinct (map snd (committed (vids w)))"
  shows "distinct (map snd (committed (vids w1)))"
  by (rule server_run_one_each [OF assms])

text \<open>A run of two requests: a deletion, and a request for the list of deployments.\<close>

lemma demo_run: "\<exists>w1. server_run demo_system demo_world w1 \<and> committed (vids w1) = []"
proof -
  let ?rq = "\<lparr>path_value = (\<lambda>_. ''''), query = [], authorization = ''root'', body = Inl (JsonError ''EOF'')\<rparr>"
  let ?del = "\<lparr>hr_method = ''DELETE'', hr_target = ''/process-deployments/alice/v1'', hr_origin = '''', hr_request = ?rq\<rparr>"
  let ?list = "\<lparr>hr_method = ''GET'', hr_target = ''/v2/deployments'', hr_origin = '''', hr_request = ?rq\<rparr>"
  have d1: "dispatch ''DELETE'' ''/process-deployments/alice/v1'' =
      Served Ep_DeleteDeployment [(''userid'', ''alice''), (''deplid'', ''v1'')]" by code_simp
  obtain w1 where w1: "serve demo_system Ep_DeleteDeployment
     (?rq\<lparr>path_value := path_value_of [(''userid'', ''alice''), (''deplid'', ''v1'')]\<rparr>) demo_world = (Some 200, w1)"
    "committed (vids w1) = []" using demo_removal by auto
  have "server_step demo_system demo_world w1"
    by (rule server_step.request [of demo_system ?del demo_world "cors_headers ''''" "Some 200"])
      (simp add: ServeHTTP_def CorsMiddleware_def mux_def d1 w1(1) [simplified])
  moreover have "server_step demo_system w1 (snd (snd (ServeHTTP demo_system ?list w1)))"
    by (rule server_step.request [of demo_system ?list w1 "fst (ServeHTTP demo_system ?list w1)"
          "fst (snd (ServeHTTP demo_system ?list w1))"]) simp
  moreover have "dispatch ''GET'' ''/v2/deployments'' = Served Ep2_ListDeployments []" by code_simp
  then obtain code where l: "serve demo_system Ep2_ListDeployments (?rq\<lparr>path_value := path_value_of []\<rparr>) w1 =
      (code, snd (snd (ServeHTTP demo_system ?list w1)))"
    by (cases "serve demo_system Ep2_ListDeployments (?rq\<lparr>path_value := path_value_of []\<rparr>) w1")
      (simp add: ServeHTTP_def CorsMiddleware_def mux_def)
  then have "committed (vids (snd (snd (ServeHTTP demo_system ?list w1)))) = []"
    using frameD [OF serve_frame l] w1(2) by (simp add: stays_def same_relation_def admin_only_def)
  ultimately show ?thesis by (meson converse_rtranclp_into_rtranclp r_into_rtranclp)
qed

theorem one_deployment_per_virtual_id_witness:
  "\<exists>w1. server_run demo_system demo_world w1 \<and> w1 \<noteq> demo_world \<and> distinct (map snd (committed (vids w1)))"
proof -
  obtain w1 where w1: "server_run demo_system demo_world w1" "committed (vids w1) = []" using demo_run by blast
  have "distinct (map snd (committed (vids w1)))"
    by (rule one_deployment_per_virtual_id [OF w1(1)]) (simp_all add: demo_world_def demo_vid_def)
  moreover have "w1 \<noteq> demo_world" using w1(2) by (auto simp: demo_world_def demo_vid_def)
  ultimately show ?thesis using w1(1) by blast
qed

section \<open>Users stay at their shard\<close>

text \<open>
  What the cache guarantees at the two types of values: the laws of the component \<open>cache\<close> for shards
  of users, with values that JSON carries unchanged; and using it for the list of shards makes no
  other key known.
\<close>

definition cache_ok :: "('e, 'c) system \<Rightarrow> ('c \<Rightarrow> string \<Rightarrow> string \<Rightarrow> bool) \<Rightarrow> bool" where
  "cache_ok sys holds \<longleftrightarrow>
     (\<exists>invalidate. cache_interface (cache_use sys) invalidate holds Inr) \<and>
     (\<forall>k g c s r c1 s1. cache_use_list sys k g (c, s) = (r, c1, s1) \<longrightarrow>
        (s1 = s \<or> s1 = snd (g s)) \<and> (\<forall>k' v. k' \<noteq> k \<longrightarrow> holds c1 k' v \<longrightarrow> holds c k' v))"

definition up_to_date :: "('c \<Rightarrow> string \<Rightarrow> string \<Rightarrow> bool) \<Rightarrow> 'c \<times> shard_db sql \<Rightarrow> bool" where
  "up_to_date holds cs \<longleftrightarrow>
     (\<forall>u v. holds (fst cs) (user_key u) v \<longrightarrow> shard_of (committed (snd cs)) u = Some v)"

lemma shard_step_ensure:
  assumes "cache_ok sys holds" and "up_to_date holds cs" and "tables_ok shards_inv (snd cs)"
    and "cs1 = snd (EnsureShardForUser (cache_use sys) ord u cs)"
  shows "up_to_date holds cs1 \<and> tables_ok shards_inv (snd cs1) \<and>
    shard_of (committed (snd cs)) \<subseteq>\<^sub>m shard_of (committed (snd cs1))"
proof -
  obtain ivl where ci: "cache_interface (cache_use sys) ivl holds Inr"
    using assms(1) by (auto simp: cache_ok_def)
  obtain c s where cs: "cs = (c, s)" by (cases cs)
  obtain r c1 s1 where e: "EnsureShardForUser (cache_use sys) ord u (c, s) = (r, c1, s1)"
    by (metis prod_cases3)
  have "cache_interface.coherent holds UNIV user_key (shard_of (committed s)) c"
    using assms(2) cs by (simp add: up_to_date_def cache_interface.coherent_def [OF ci])
  note ec = EnsureShardForUser_cases [OF ci refl this e]
  have "up_to_date holds cs1"
    using ec(3) assms(4) cs e by (simp add: up_to_date_def cache_interface.coherent_def [OF ci])
  moreover have "tables_ok shards_inv (snd cs1)"
    using EnsureShardForUser_inv [OF ci, of s ord u c] assms(3,4) cs e by simp
  moreover have "shard_of (committed s) \<subseteq>\<^sub>m shard_of (committed s1)"
    using ec(1) by (auto simp: moves_def map_le_def)
  ultimately show ?thesis using assms(4) cs e by simp
qed

lemma shard_step_list:
  assumes "cache_ok sys holds" and "up_to_date holds cs" and "tables_ok shards_inv (snd cs)"
    and "cs1 = snd (GetShards (cache_use_list sys) cs)"
  shows "up_to_date holds cs1 \<and> tables_ok shards_inv (snd cs1) \<and>
    shard_of (committed (snd cs)) \<subseteq>\<^sub>m shard_of (committed (snd cs1))"
proof -
  obtain c s where cs: "cs = (c, s)" by (cases cs)
  obtain r c1 s1 where g: "cache_use_list sys ''shards'' (getShards Db) (c, s) = (r, c1, s1)"
    by (metis prod_cases3)
  have k: "user_key u \<noteq> ''shards''" for u by (simp add: user_key_def CachePrefix_def)
  obtain rq sq where q: "exec_db SQLListShards s = (rq, sq)" by (cases "exec_db SQLListShards s")
  have "committed (snd (getShards Db s)) = committed s"
    using exec_db_query(1) [OF q SQLListShards_def] q
    by (auto simp: getShards_def andThen_def exec_def dest: fetch_frame split: sum.splits prod.splits)
      (metis fetch_frame snd_conv prod.collapse)
  moreover have "tables_ok shards_inv (snd (getShards Db s))"
    using assms(3) cs by (intro tables_ok_snd [OF safe_helpers(6)]) simp
  moreover have "(s1 = s \<or> s1 = snd (getShards Db s)) \<and> (\<forall>k' v. k' \<noteq> ''shards'' \<longrightarrow> holds c1 k' v \<longrightarrow> holds c k' v)"
    using assms(1) g unfolding cache_ok_def by blast
  ultimately show ?thesis using assms(2-4) cs g k by (auto simp: GetShards_def up_to_date_def)
qed

lemma shard_steps_keep:
  assumes "shard_steps sys UNIV cs cs1" and "cache_ok sys holds" and "up_to_date holds cs"
    and "tables_ok shards_inv (snd cs)"
  shows "up_to_date holds cs1 \<and> tables_ok shards_inv (snd cs1) \<and>
    shard_of (committed (snd cs)) \<subseteq>\<^sub>m shard_of (committed (snd cs1))"
  using assms
proof (induction rule: shard_steps.induct)
  case (ensure cs cs1 u)
  then show ?case using shard_step_ensure [OF ensure.prems(1) _ _ refl, of cs1 "map_order sys" u] map_le_trans by blast
next
  case (list cs cs1)
  then show ?case using shard_step_list [OF list.prems(1) _ _ refl, of cs1] map_le_trans by blast
qed simp_all

lemma serve_shards:
  assumes "serve sys ep rq w = (code, w1)"
  shows "shard_steps sys UNIV (shards w) (shards w1)"
proof (cases "ep \<in> admin_only")
  case False
  from frameD [OF serve_frame [OF this] assms] show ?thesis by (simp add: stays_def)
next
  case True
  then consider (deploy) r where "Api_Deploy sys rq w = (r, w1)"
    | (delete) r where "Api_DeleteDeployment sys rq w = (r, w1)"
    using assms by (auto simp: admin_only_def serve_def answer_def split: prod.splits)
  then have "runs sys w w1"
  proof cases
    case deploy
    from Api_Deploy_cases [OF this] alwaysD [OF runs_deploy_prepared] runs_refl show ?thesis by metis
  next
    case delete
    from Api_DeleteDeployment_cases [OF this] alwaysD [OF runs_DeleteDeployment] runs_refl show ?thesis by metis
  qed
  then show ?thesis by (simp add: runs_def)
qed

lemma server_run_shards:
  assumes "server_run sys w w1" and "cache_ok sys holds"
    and "up_to_date holds (shards w)" and "tables_ok shards_inv (snd (shards w))"
  shows "up_to_date holds (shards w1) \<and> tables_ok shards_inv (snd (shards w1)) \<and>
    shard_of (committed (snd (shards w))) \<subseteq>\<^sub>m shard_of (committed (snd (shards w1)))"
proof -
  let ?P = "\<lambda>w1. up_to_date holds (shards w1) \<and> tables_ok shards_inv (snd (shards w1)) \<and>
    shard_of (committed (snd (shards w))) \<subseteq>\<^sub>m shard_of (committed (snd (shards w1)))"
  from assms(1) show "?P w1"
  proof (rule server_run_keeps [where P = ?P])
    fix ep rq w1 code w2 assume p: "?P w1" and "serve sys ep rq w1 = (code, w2)"
    from shard_steps_keep [OF serve_shards [OF this(2)] assms(2)] p
    have "up_to_date holds (shards w2) \<and> tables_ok shards_inv (snd (shards w2)) \<and>
        shard_of (committed (snd (shards w1))) \<subseteq>\<^sub>m shard_of (committed (snd (shards w2)))" by blast
    with p map_le_trans show "?P w2" by blast
  qed (use assms(3,4) in \<open>simp_all add: up_to_date_def tables_ok_def\<close>)
qed

text \<open>
  C7: A user who has a shard keeps it: in every run of requests one after the other that starts with
  a cache that is up to date, whatever requests come and whatever fails, every user's committed shard stays the one
  that it was (new users get theirs), the cache stays up to date, and the tables keep the
  constraints of their schema. So the requests of a user always go to the same engine.
\<close>
theorem users_stay_at_their_shard:
  assumes "server_run sys w w1" and "cache_ok sys holds"
    and "up_to_date holds (shards w)" and "tables_ok shards_inv (snd (shards w))"
    and "shard_of (committed (snd (shards w))) u = Some a"
  shows "shard_of (committed (snd (shards w1))) u = Some a \<and> up_to_date holds (shards w1) \<and>
    tables_ok shards_inv (snd (shards w1))"
  using server_run_shards [OF assms(1-4)] assms(5) by (blast dest: map_le_someD)

lemma demo_cache_ok: "cache_ok demo_system (\<lambda>_ _ _. False)"
proof -
  have t: "(trip Inr Inr :: string \<Rightarrow> string res) = Inr"
    by (rule ext) (simp add: trip_def json_marshal_def json_unmarshal_def)
  have "cache_interface (none_use Inr Inr) none_invalidate (\<lambda>_ _ _. False) (trip Inr Inr :: string \<Rightarrow> string res)"
    by (rule none.cache_interface_axioms)
  then have "\<exists>ivl. cache_interface (cache_use demo_system) ivl (\<lambda>_ _ _. False) Inr"
    unfolding t by (auto simp: demo_system_def)
  then show ?thesis
    by (auto simp: cache_ok_def demo_system_def none_use_def split: prod.splits sum.splits)
qed

theorem users_stay_at_their_shard_witness:
  "\<exists>w1. server_run demo_system demo_world w1 \<and> w1 \<noteq> demo_world \<and>
     shard_of (committed (snd (shards w1))) ''alice'' = Some ''s1''"
proof -
  obtain w1 where w1: "server_run demo_system demo_world w1" "committed (vids w1) = []" using demo_run by blast
  have s: "shards demo_world = ((), demo_sql demo_db [])" by (simp add: demo_world_def)
  have "shard_of (committed (snd (shards w1))) ''alice'' = Some ''s1'' \<and> up_to_date (\<lambda>_ _ _. False) (shards w1) \<and>
    tables_ok shards_inv (snd (shards w1))"
  proof (rule users_stay_at_their_shard [OF w1(1) demo_cache_ok])
    show "tables_ok shards_inv (snd (shards demo_world))" "shard_of (committed (snd (shards demo_world))) ''alice'' = Some ''s1''"
      unfolding s by (simp_all add: tables_ok_def demo_sql_def demo_db_def shards_inv_def shard_of_def
          varchar255_def char_count_def)
  qed (simp add: up_to_date_def)
  moreover have "w1 \<noteq> demo_world" using w1(2) by (auto simp: demo_world_def demo_vid_def)
  ultimately show ?thesis using w1(1) by blast
qed

section \<open>What needs access\<close>

text \<open>The guard of an endpoint: which resource has to belong to the user of the token.\<close>

definition granted ::
  "('e, 'c) system \<Rightarrow> endpoint \<Rightarrow> string \<Rightarrow> string \<Rightarrow> ('e, 'c) world \<Rightarrow> bool" where
  "granted sys ep i u w \<longleftrightarrow>
     (if ep \<in> {Ep2_StartDeployment, Ep1_StartDeployment} then deployment_granted sys i u w
      else if ep \<in> {Ep2_DeleteProcessInstance, Ep1_DeleteProcessInstance, Ep2_SetProcessInstanceVariable}
      then instance_granted sys i u w
      else if ep \<in> {Ep2_DeleteHistoricProcessInstance, Ep1_DeleteHistoricPricessInstance}
      then history_granted sys i u w
      else definition_granted sys i u w)"

definition guarded :: "endpoint set" where
  "guarded = {Ep2_StartDeployment, Ep1_StartDeployment, Ep2_DeleteProcessInstance, Ep1_DeleteProcessInstance,
     Ep2_SetProcessInstanceVariable, Ep2_DeleteHistoricProcessInstance, Ep1_DeleteHistoricPricessInstance,
     Ep2_StartProcessDefinition, Ep1_StartProcessDefinition, Ep2_StartProcessDefinitionAndGetInstanceId,
     Ep1_StartProcessDefinitionAndGetInstanceId}"

text \<open>Behind a check that fails, nothing but the requests of the check has been made.\<close>

lemma attempt_denied:
  assumes "frame sys UNIV gets m" and "attempt m f k w = (r, w1)" and "fst (m w) \<noteq> Inr ()"
  shows "stays sys UNIV gets w w1"
  using frameD [OF assms(1)] assms(2,3) by (auto simp: attempt_def split: prod.splits sum.splits)

lemma attempt_code_denied:
  assumes "frame sys UNIV gets m" and "attempt_code m k w = (r, w1)" and "fst (fst (m w)) \<noteq> None"
  shows "stays sys UNIV gets w w1"
  using frameD [OF assms(1)] assms(2,3) by (auto simp: attempt_code_def split: prod.splits option.splits)

lemma with_token_denied:
  assumes "with_token sys rq k w = (r, w1)"
    and "\<And>token. GetParsedToken sys rq = Inr token \<Longrightarrow> k token w = (r, w1) \<Longrightarrow>
      stays sys UNIV gets w w1 \<or> Q (GetUserId token)"
  shows "stays sys UNIV gets w w1 \<or> (\<exists>token. GetParsedToken sys rq = Inr token \<and> Q (GetUserId token))"
  using assms by (auto simp: with_token_def respond_def split: sum.splits)

lemma history_denied:
  assumes "attempt_code (DeleteHistoricProcessInstance sys u i) k w = (r, w1)"
  shows "stays sys UNIV gets w w1 \<or> history_granted sys i u w"
proof -
  obtain rc wc where c: "CheckHistoryAccess sys i u w = (rc, wc)" by (cases "CheckHistoryAccess sys i u w")
  show ?thesis
  proof (cases rc)
    case (Inl err)
    with c assms have "w1 = wc" by (auto simp: attempt_code_def DeleteHistoricProcessInstance_def)
    with frameD [OF frame_checks(3) [OF UNIV_I] c] show ?thesis by simp
  next
    case (Inr did)
    with c checks_granted(4) [of sys i u w] show ?thesis by auto
  qed
qed

lemma guarded_definition:
  assumes "attempt (CheckProcessDefinitionAccess sys i u) f k w = (r, w1)"
  shows "stays sys UNIV gets w w1 \<or> definition_granted sys i u w"
  using attempt_denied [OF frame_checks(1) [OF UNIV_I] assms] checks_granted(1) by blast

lemma guarded_deployment:
  assumes "first_definition sys i u k w = (r, w1)"
  shows "stays sys UNIV gets w w1 \<or> deployment_granted sys i u w"
  using attempt_denied [OF frame_checks(2) [OF UNIV_I] assms [unfolded first_definition_def]] checks_granted(2) by blast

lemma guarded_instance:
  assumes "attempt_code (CheckProcessInstanceAccess sys i u) k w = (r, w1)"
  shows "stays sys UNIV gets w w1 \<or> instance_granted sys i u w"
  using attempt_code_denied [OF frame_CheckProcessInstanceAccess [OF UNIV_I] assms] checks_granted(3) by blast

lemma guarded_handlers:
  "V2_StartProcessDefinition sys rq w = (r1, w1) \<Longrightarrow> stays sys UNIV gets w w1 \<or>
     (\<exists>token. GetParsedToken sys rq = Inr token \<and> definition_granted sys (path_value rq ''id'') (GetUserId token) w)"
  "V2_StartProcessDefinitionAndGetInstanceId sys rq w = (r2, w1) \<Longrightarrow> stays sys UNIV gets w w1 \<or>
     (\<exists>token. GetParsedToken sys rq = Inr token \<and> definition_granted sys (path_value rq ''id'') (GetUserId token) w)"
  "V2_StartDeployment sys rq w = (r2, w1) \<Longrightarrow> stays sys UNIV gets w w1 \<or>
     (\<exists>token. GetParsedToken sys rq = Inr token \<and> deployment_granted sys (path_value rq ''id'') (GetUserId token) w)"
  "V2_DeleteProcessInstance sys rq w = (r3, w1) \<Longrightarrow> stays sys UNIV gets w w1 \<or>
     (\<exists>token. GetParsedToken sys rq = Inr token \<and> instance_granted sys (path_value rq ''id'') (GetUserId token) w)"
  "V2_DeleteHistoricProcessInstance sys rq w = (r3, w1) \<Longrightarrow> stays sys UNIV gets w w1 \<or>
     (\<exists>token. GetParsedToken sys rq = Inr token \<and> history_granted sys (path_value rq ''id'') (GetUserId token) w)"
  "V2_SetProcessInstanceVariable sys rq w = (r3, w1) \<Longrightarrow> stays sys UNIV gets w w1 \<or>
     (\<exists>token. GetParsedToken sys rq = Inr token \<and> instance_granted sys (path_value rq ''id'') (GetUserId token) w)"
  unfolding V2_StartProcessDefinition_def V2_StartProcessDefinitionAndGetInstanceId_def V2_StartDeployment_def
    V2_DeleteProcessInstance_def V2_DeleteHistoricProcessInstance_def Let_def
  by (erule with_token_denied, erule guarded_definition guarded_deployment guarded_instance history_denied)+
    (auto simp: V2_SetProcessInstanceVariable_def with_body_def respond_def Let_def split: sum.splits
      dest: with_token_denied [where Q = "\<lambda>u. instance_granted sys (path_value rq ''id'') u w", OF _ guarded_instance])

text \<open>
  C5: Only the owner changes something, at the eleven endpoints that name one resource in their path:
  starting a definition (with and without the instance as the answer) or a deployment, removing one
  instance or one historic instance, both in both versions, and setting a variable of an instance. If
  a request to one of them makes any other request than \<open>GET\<close> (to an engine, or to process-io), then
  its token was read, and the engine of the token's user has answered that the definition, deployment,
  instance or historic instance that the request names belongs to that user. Not covered are the
  endpoints that remove many instances: two of them check each instance of the list in the body before
  removing it, the one for a business key checks none and relies on the query for the user's
  instances; nor the events and the endpoints of administrators.
\<close>
theorem changes_need_access:
  assumes "ep \<in> guarded" and "serve sys ep rq w = (code, w1)"
    and "sent w1 = sent w @ rqs" and "\<exists>q \<in> set rqs. rq_method q \<noteq> ''GET''"
  shows "\<exists>token. GetParsedToken sys rq = Inr token \<and>
    granted sys ep (path_value rq ''id'') (GetUserId token) w"
proof -
  have "stays sys UNIV gets w w1 \<or>
      (\<exists>token. GetParsedToken sys rq = Inr token \<and> granted sys ep (path_value rq ''id'') (GetUserId token) w)"
    using assms(1,2) unfolding guarded_def
    by (elim insertE emptyE)
      (auto simp: serve_def answer_def as_v2 granted_def split: prod.splits dest!: guarded_handlers)
  moreover have "\<not> stays sys UNIV gets w w1"
    using assms(3,4) by (auto simp: stays_def gets_def list_all_iff)
  ultimately show ?thesis by blast
qed

text \<open>An engine at which every instance belongs to \<open>alice\<close>.\<close>

definition owned_system :: "(unit, unit) system" where
  "owned_system = demo_system\<lparr>http := (\<lambda>rq e.
     (if rq_method rq = ''GET'' then Reply 200 ''200 OK'' '''' (Inr (JObj [(''tenantId'', JStr ''alice'')]))
      else Reply 204 ''204 No Content'' '''' (Inl (JsonError ''EOF'')), e))\<rparr>"

definition instance_request :: "string \<Rightarrow> json res \<Rightarrow> api_request" where
  "instance_request token bd =
     \<lparr>path_value = path_value_of [(''id'', ''i1''), (''variable_name'', ''x'')], query = [],
      authorization = token, body = bd\<rparr>"

theorem changes_need_access_witness:
  "\<exists>token. GetParsedToken owned_system (instance_request ''t'' (Inr (JInt 1))) = Inr token \<and>
     granted owned_system Ep2_SetProcessInstanceVariable ''i1'' (GetUserId token) demo_world"
proof -
  let ?rq = "instance_request ''t'' (Inr (JInt 1))"
  define r where "r = serve owned_system Ep2_SetProcessInstanceVariable ?rq demo_world"
  have "map rq_method (sent (snd r)) = [''GET'', ''POST'']" unfolding r_def by code_simp
  then have m: "''POST'' \<in> rq_method ` set (sent (snd r))" by (metis list.set_intros list.set_map)
  have "sent (snd r) = sent demo_world @ sent (snd r)" by (simp add: demo_world_def)
  moreover have "\<exists>q \<in> set (sent (snd r)). rq_method q \<noteq> ''GET''" using m by force
  moreover have "serve owned_system Ep2_SetProcessInstanceVariable ?rq demo_world = (fst r, snd r)"
    by (simp add: r_def)
  ultimately show ?thesis
    using changes_need_access [of Ep2_SetProcessInstanceVariable owned_system ?rq demo_world]
    by (fastforce simp: guarded_def instance_request_def path_value_of_def)
qed

text \<open>
  C31: The endpoints that answer questions (all with the method \<open>GET\<close>, but the ones that start a
  process) make no other request than \<open>GET\<close> to the engines, leave the relation and the databases'
  constraints alone, and do nothing to the shards but list them and look up the one of the user whom
  the token names, which assigns one to this user and to nobody else (to nobody if there is no token).
\<close>
theorem reading_endpoints_read:
  assumes "ep \<in> reading" and "serve sys ep rq w = (code, w1)"
  shows "(\<exists>rqs. sent w1 = sent w @ rqs \<and> (\<forall>q \<in> set rqs. rq_method q = ''GET'')) \<and>
    committed (vids w1) = committed (vids w) \<and> shard_steps sys (token_users sys rq) (shards w) (shards w1)"
  using frameD [OF serve_reading [OF assms(1)] assms(2)]
  by (auto simp: stays_def same_relation_def gets_def list_all_iff)

theorem reading_endpoints_read_witness:
  "\<exists>rqs. sent (snd (serve demo_system Ep2_ListDeployments (instance_request ''t'' (Inr JNull)) demo_world)) = rqs \<and>
     rqs \<noteq> [] \<and> list_all (\<lambda>q. rq_method q = ''GET'') rqs"
proof -
  let ?r = "serve demo_system Ep2_ListDeployments (instance_request ''t'' (Inr JNull)) demo_world"
  have "sent (snd ?r) \<noteq> []" by code_simp
  moreover have "sent demo_world = []" by (simp add: demo_world_def)
  moreover have "Ep2_ListDeployments \<in> reading" by (simp add: reading_def)
  moreover have "\<exists>rqs. sent (snd ?r) = sent demo_world @ rqs \<and> (\<forall>q \<in> set rqs. rq_method q = ''GET'')" if "Ep2_ListDeployments \<in> reading"
    using reading_endpoints_read [OF that prod.collapse [symmetric]] by blast
  ultimately show ?thesis by (auto simp: list_all_iff)
qed

section \<open>Connections that are closed without an answer\<close>

text \<open>
  When the engine cannot be reached, the endpoints that remove an instance or set its variable
  close the connection without an answer: the access check reports the status code 0, which the
  server refuses.
\<close>
theorem unreachable_engine_panics:
  assumes "ep \<in> {Ep2_DeleteProcessInstance, Ep1_DeleteProcessInstance} \<or>
      ep = Ep2_SetProcessInstanceVariable \<and> body rq = Inr v"
    and "GetParsedToken sys rq = Inr token"
    and "ensure_shard sys (GetUserId token) w = (Inr shard, w0)"
    and "http sys (get_request (instance_url shard (path_value rq ''id''))) (env w0) = (HttpFail err, e)"
  shows "fst (serve sys ep rq w) = None"
proof -
  obtain w2 where "CheckProcessInstanceAccess sys (path_value rq ''id'') (GetUserId token) w = ((Some err, 0), w2)"
    using assms(3,4) by (simp add: CheckProcessInstanceAccess_def send_def)
  then have "fst (answer (V2_DeleteProcessInstance sys rq) w) = None"
    "body rq = Inr v \<Longrightarrow> fst (answer (V2_SetProcessInstanceVariable sys rq) w) = None"
    by (simp_all add: answer_def V2_DeleteProcessInstance_def V2_SetProcessInstanceVariable_def
        with_token_def with_body_def assms(2) attempt_code_def http_error_def status_of_def Let_def)
  with assms(1) show ?thesis by (auto simp: serve_def as_v2)
qed

definition unreachable_system :: "(unit, unit) system" where
  "unreachable_system = demo_system\<lparr>http := (\<lambda>rq e. (HttpFail (ErrMsg ''connection refused''), e))\<rparr>"

theorem unreachable_engine_panics_witness:
  "fst (serve unreachable_system Ep2_DeleteProcessInstance (instance_request ''t'' (Inr JNull)) demo_world) = None"
proof -
  let ?rq = "instance_request ''t'' (Inr JNull)"
  obtain token where t: "GetParsedToken unreachable_system ?rq = Inr token \<and> GetUserId token = ''alice''"
  proof -
    have "(case GetParsedToken unreachable_system ?rq of Inl e \<Rightarrow> False | Inr token \<Rightarrow> GetUserId token = ''alice'')"
      by code_simp
    then show ?thesis using that by (auto split: sum.splits)
  qed
  obtain w0 where w0: "ensure_shard unreachable_system ''alice'' demo_world = (Inr ''s1'', w0)"
  proof -
    have "fst (ensure_shard unreachable_system ''alice'' demo_world) = Inr ''s1''" by code_simp
    then show ?thesis using that by (metis prod.collapse)
  qed
  show ?thesis
    by (rule unreachable_engine_panics [where token = token and w = demo_world and shard = "''s1''" and ?w0.0 = w0 and v = JNull])
      (use t w0 in \<open>auto simp: unreachable_system_def\<close>)
qed

text \<open>
  An event whose body is the JSON text \<open>null\<close> is counted, and then the connection is closed
  without an answer (the message is a nil map, into which the tenant cannot be written).
\<close>
theorem null_event_panics:
  assumes "GetParsedToken sys rq = Inr token" and "body rq = Inr JNull"
    and "fst (ensure_shard sys (GetUserId token) (w\<lparr>event_messages := event_messages w + 1\<rparr>)) = Inr shard"
    and "serve sys Ep2_TriggerEvent rq w = (code, w1)"
  shows "code = None \<and> event_messages w1 = event_messages w + 1 \<and> sent w1 = sent w"
proof -
  let ?w = "w\<lparr>event_messages := event_messages w + 1\<rparr>"
  obtain w0 where w0: "ensure_shard sys (GetUserId token) ?w = (Inr shard, w0)"
    using assms(3) by (metis prod.collapse)
  have "event_user token None = Some (GetUserId token)" by (simp add: event_user_def)
  with assms(4) w0 have "code = None \<and> w1 = w0"
    by (simp add: serve_def answer_def V2_TriggerEvent_def with_token_def with_body_def assms(1,2)
        decode_object_def trigger_def attempt_def respond_def status_of_def)
  with ensure_shard_sent [OF w0] w0 show ?thesis
    by (auto simp: ensure_shard_def on_shards_def split: prod.splits)
qed

theorem null_event_panics_witness:
  "\<exists>w1. serve demo_system Ep2_TriggerEvent (instance_request ''t'' (Inr JNull)) demo_world = (None, w1) \<and>
     event_messages w1 = 1"
proof -
  let ?rq = "instance_request ''t'' (Inr JNull)"
  let ?r = "serve demo_system Ep2_TriggerEvent ?rq demo_world"
  have "(case GetParsedToken demo_system ?rq of Inl e \<Rightarrow> False | Inr token \<Rightarrow>
      fst (ensure_shard demo_system (GetUserId token) (demo_world\<lparr>event_messages := event_messages demo_world + 1\<rparr>))
        = Inr ''s1'')" by code_simp
  then obtain token where t: "GetParsedToken demo_system ?rq = Inr token"
    "fst (ensure_shard demo_system (GetUserId token) (demo_world\<lparr>event_messages := event_messages demo_world + 1\<rparr>))
      = Inr ''s1''" by (auto split: sum.splits)
  have b: "body ?rq = Inr JNull" by (simp add: instance_request_def)
  have "?r = (fst ?r, snd ?r)" by simp
  from null_event_panics [OF t(1) b t(2) this]
  have "fst ?r = None" "event_messages (snd ?r) = 1" by (simp_all add: demo_world_def)
  then show ?thesis by (metis prod.collapse)
qed

end
