(* ===== verification/Startup.thy ===== *)
theory Startup
  imports Registration Configuration ServeProps
begin

text \<open>
  The start of the program: opening the two databases (\<open>vid/database.go\<close>, \<open>shards.New\<close>), the server
  of metrics (\<open>lib/metrics\<close>), the server of the API (\<open>api.Start\<close>), and \<open>lib.Wrapper\<close>, which wires
  the components together. What the start leaves is a state of \<open>System\<close>, so the theorems about runs
  of the server hold from there; and since all that outlives a process is in the databases, they are
  put together over any number of starts, crashes and configurations.
\<close>

section \<open>Opening the databases\<close>

text \<open>A table that does not exist is \<open>None\<close>.\<close>

record shard_tables =
  stored_shards :: "string list option"
  stored_mapping :: "(string \<times> string) list option"

definition existing :: "'a list option \<Rightarrow> 'a list" where
  "existing t = (case t of None \<Rightarrow> [] | Some rows \<Rightarrow> rows)"

definition CreateVidTable :: "(vid_db option, unit) stmt" where
  "CreateVidTable d = Inr ((), Some (existing d))"

definition SqlCreateShardTable :: "(shard_tables, unit) stmt" where
  "SqlCreateShardTable d = Inr ((), d\<lparr>stored_shards := Some (existing (stored_shards d))\<rparr>)"

definition SqlCreateShardsMappingTable :: "(shard_tables, unit) stmt" where
  "SqlCreateShardsMappingTable d =
     (if stored_mapping d = None \<and> stored_shards d = None then
        Inl (DbError ''pq: relation does not exist'')
      else Inr ((), d\<lparr>stored_mapping := Some (existing (stored_mapping d))\<rparr>))"

text \<open>
  \<open>InitDb\<close> and \<open>initDbConnection\<close>; \<open>sql_open\<close> is what \<open>sql.Open\<close> says of the text of the connection (an
  error, or none), the handle is the database with the failures to come.
\<close>

definition InitDb :: "(string \<Rightarrow> goerror option) \<Rightarrow> string \<Rightarrow> vid_db option sql \<Rightarrow> unit res \<times> vid_db option sql" where
  "InitDb sql_open pgConn s =
     (case sql_open pgConn of Some err \<Rightarrow> (Inl err, s) | None \<Rightarrow> exec Db CreateVidTable s)"

text \<open>\<open>vid.New\<close> keeps the handle, which is the state here.\<close>

definition vid_New :: "(string \<Rightarrow> goerror option) \<Rightarrow> string \<Rightarrow> vid_db option sql \<Rightarrow> unit res \<times> vid_db option sql" where
  "vid_New sql_open pgConn s = InitDb sql_open pgConn s"

definition initDbConnection ::
  "(string \<Rightarrow> goerror option) \<Rightarrow> string \<Rightarrow> shard_tables sql \<Rightarrow> unit res \<times> shard_tables sql" where
  "initDbConnection sql_open conStr s =
     (case sql_open conStr of
        Some err \<Rightarrow> (Inl err, s)
      | None \<Rightarrow> andThen (exec Db SqlCreateShardTable) (\<lambda>_. exec Db SqlCreateShardsMappingTable) s)"

definition shards_New ::
  "(string \<Rightarrow> goerror option) \<Rightarrow> string \<Rightarrow> 'c \<Rightarrow> shard_tables sql \<Rightarrow> 'c res \<times> shard_tables sql" where
  "shards_New sql_open pgConnStr c = andThen (initDbConnection sql_open pgConnStr) (\<lambda>_ s. (Inr c, s))"

section \<open>The servers\<close>

text \<open>A server that listens: its address, its handler, its timeouts (0 is none).\<close>

datatype handler_of = MetricsHandler "(string \<times> unit) list" | ApiHandler "(string \<times> endpoint) list"

record server =
  Addr :: string
  Handler :: handler_of
  WriteTimeout :: rat
  ReadTimeout :: rat

record process =
  vid_conn :: "vid_db option sql"
  shard_conn :: "shard_tables sql"
  ctx_cancelled :: bool
  servers :: "server list"

definition on_vid_conn ::
  "(vid_db option sql \<Rightarrow> 'a \<times> vid_db option sql) \<Rightarrow> process \<Rightarrow> 'a \<times> process" where
  "on_vid_conn m p = (case m (vid_conn p) of (r, s) \<Rightarrow> (r, p\<lparr>vid_conn := s\<rparr>))"

definition on_shard_conn ::
  "(shard_tables sql \<Rightarrow> 'a \<times> shard_tables sql) \<Rightarrow> process \<Rightarrow> 'a \<times> process" where
  "on_shard_conn m p = (case m (shard_conn p) of (r, s) \<Rightarrow> (r, p\<lparr>shard_conn := s\<rparr>))"

text \<open>\<open>Metrics.Serve\<close>: no server for the port \<open>""\<close> or \<open>"-"\<close>.\<close>

definition metrics_Serve :: "string \<Rightarrow> process \<Rightarrow> process" where
  "metrics_Serve port p =
     (if port = '''' \<or> port = ''-'' then p
      else p\<lparr>servers := servers p @
        [\<lparr>Addr = '':'' @ port, Handler = MetricsHandler [(''/metrics'', ())], WriteTimeout = 0, ReadTimeout = 0\<rparr>]\<rparr>)"

text \<open>\<open>NotifyEventTrigger\<close> on a counter, or on no metrics at all (a nil pointer).\<close>

definition NotifyEventTrigger :: "nat option \<Rightarrow> nat option" where
  "NotifyEventTrigger m = map_option (\<lambda>n. n + 1) m"

section \<open>What the start is given\<close>

text \<open>
  The libraries: \<open>sql.Open\<close>, \<open>time.ParseDuration\<close>, the two stores of the cache with their methods,
  \<open>json.Marshal\<close> and \<open>Unmarshal\<close> at the two types of cached values, the order in which the maps of
  methods are visited, the text of the panic of two patterns in conflict; and in \<open>libraries\<close>, for the
  address of the incident service, what \<open>System\<close> takes from outside (the cache and the
  configuration of \<open>libraries\<close> are not used).
\<close>

record ('e, 'a, 'b) given =
  sql_open :: "string \<Rightarrow> goerror option"
  ParseDuration :: "string \<Rightarrow> rat res"
  new_l1 :: "int \<Rightarrow> 'a"
  new_l2 :: "string list \<Rightarrow> 'b"
  l1_ops :: "'a store_ops"
  l2_ops :: "'b store_ops"
  text_codec :: "(string \<Rightarrow> string + string) \<times> (string \<Rightarrow> string + string)"
  list_codec :: "(string list \<Rightarrow> string + string) \<times> (string \<Rightarrow> string + string list)"
  methods_order :: "(string \<times> string \<times> endpoint) list \<Rightarrow> (string \<times> string \<times> endpoint) list"
  conflict_text :: string
  libraries :: "string \<Rightarrow> ('e, unit) system"

section \<open>Start\<close>

definition or_zero :: "rat res \<Rightarrow> rat" where
  "or_zero r = (case r of Inl err \<Rightarrow> 0 | Inr d \<Rightarrow> d)"

text \<open>
  \<open>api.Start\<close>: a panic of \<open>GetRouter\<close> becomes the error, a timeout that is no duration is none.
\<close>

definition Start :: "('e, 'a, 'b) given \<Rightarrow> Config \<Rightarrow> process \<Rightarrow> unit res \<times> process" where
  "Start g cfg p =
     (case GetRouter (methods_order g) of
        None \<Rightarrow> (Inl (ErrMsg (conflict_text g)), p)
      | Some rs \<Rightarrow>
          (Inr (), p\<lparr>servers := servers p @
            [\<lparr>Addr = '':'' @ cf_ServerPort cfg, Handler = ApiHandler rs,
              WriteTimeout = or_zero (ParseDuration g (cf_HttpServerTimeout cfg)),
              ReadTimeout = or_zero (ParseDuration g (cf_HttpServerReadTimeout cfg))\<rparr>]\<rparr>))"

text \<open>
  The constructors \<open>processio.NewOrNil\<close>, \<open>camunda.New\<close> and \<open>controller.New\<close> store what they are given:
  the components read the configuration and share the handles, the cache and the token.
\<close>

definition wired :: "('e, 'a, 'b) given \<Rightarrow> Config \<Rightarrow> ('e, ('a, 'b) LayeredCache) system" where
  "wired g cfg =
     (let lib = libraries g (cf_IncidentApiUrl cfg)
      in \<lparr>http = http lib, clock = clock lib, time_text = time_text lib, anonymous_url = anonymous_url lib,
          cache_use = lc_use (l1_ops g) (l2_ops g) (fst (text_codec g)) (snd (text_codec g)),
          cache_use_list = lc_use (l1_ops g) (l2_ops g) (fst (list_codec g)) (snd (list_codec g)),
          map_order = map_order lib,
          auth_cfg = \<lparr>AuthEndpoint = cf_AuthEndpoint cfg, AuthClientId = cf_AuthClientId cfg,
            AuthClientSecret = cf_AuthClientSecret cfg\<rparr>,
          ProcessIoUrl = cf_ProcessIoUrl cfg,
          NotificationUrl = cf_NotificationUrl cfg,
          SetOnIncidentHandler = SetOnIncidentHandler lib,
          DeleteIncidentByProcessDefinitionId = DeleteIncidentByProcessDefinitionId lib,
          DeleteIncidentByProcessInstanceId = DeleteIncidentByProcessInstanceId lib,
          xml_decoder = xml_decoder lib, xml_unmarshal = xml_unmarshal lib, json_decoder = json_decoder lib,
          parse_jwt = parse_jwt lib, ReadDoc = ReadDoc lib, body_error = body_error lib\<rparr>)"

definition wrapper_cache :: "('e, 'a, 'b) given \<Rightarrow> ('a, 'b) LayeredCache" where
  "wrapper_cache g = cache_new (new_l1 g) (new_l2 g)
     (Some \<lparr>L1Expiration = 60, L1Size = 0, L2Expiration = 0, L2MemcacheUrls = []\<rparr>)"

text \<open>\<open>Wrapper\<close>: the deferred function cancels the context when an error is returned.\<close>

definition Wrapper ::
  "('e, 'a, 'b) given \<Rightarrow> Config \<Rightarrow> process \<Rightarrow>
     (('a, 'b) LayeredCache \<times> ('e, ('a, 'b) LayeredCache) system) res \<times> process" where
  "Wrapper g cfg p =
     (case andThen (on_vid_conn (vid_New (sql_open g) (cf_WrapperDb cfg))) (\<lambda>_.
           andThen (on_shard_conn (shards_New (sql_open g) (cf_ShardingDb cfg) (wrapper_cache g))) (\<lambda>c p1.
           andThen (Start g cfg) (\<lambda>_ p2. (Inr (c, wired g cfg), p2)) (metrics_Serve (cf_MetricsPort cfg) p1))) p of
        (Inl err, p1) \<Rightarrow> (Inl err, p1\<lparr>ctx_cancelled := True\<rparr>)
      | (Inr x, p1) \<Rightarrow> (Inr x, p1))"

text \<open>Statements need their tables: the handle of operations, when both tables exist.\<close>

definition opened :: "shard_tables sql \<Rightarrow> shard_db sql option" where
  "opened s =
     (case (stored_shards (committed s), stored_mapping (committed s)) of
        (Some addresses, Some mapping) \<Rightarrow>
          Some \<lparr>committed = \<lparr>shard_table = addresses, mapping_table = mapping\<rparr>, tx = None,
                faults = faults s, cuts = cuts s\<rparr>
      | _ \<Rightarrow> None)"

text \<open>The state in which the servers begin; without one of the tables there is none.\<close>

definition serving :: "'e \<Rightarrow> 'c \<Rightarrow> process \<Rightarrow> ('e, 'c) world option" where
  "serving e c p =
     (case (committed (vid_conn p), opened (shard_conn p)) of
        (Some rows, Some s) \<Rightarrow>
          Some \<lparr>env = e, shards = (c, s),
            vids = \<lparr>committed = rows, tx = None, faults = faults (vid_conn p), cuts = cuts (vid_conn p)\<rparr>,
            access = zero_token, event_messages = 0, sent = []\<rparr>
      | _ \<Rightarrow> None)"

section \<open>What opening does to the tables\<close>

text \<open>A table keeps its rows; one that was not there may have been made, without rows.\<close>

definition same_rows :: "'a list option \<Rightarrow> 'a list option \<Rightarrow> bool" where
  "same_rows t t1 \<longleftrightarrow> t1 = t \<or> t = None \<and> t1 = Some []"

lemma same_rows_refl [simp]: "same_rows t t"
  by (simp add: same_rows_def)

lemma same_rows_existing [simp]: "same_rows t (Some (existing t))"
  by (cases t) (simp_all add: same_rows_def existing_def)

lemma Some_existing [simp]: "Some (existing t) = t \<longleftrightarrow> t \<noteq> None" "t = Some (existing t) \<longleftrightarrow> t \<noteq> None"
  by (cases t; simp add: existing_def)+

lemma existing_same: "same_rows t t1 \<Longrightarrow> existing t1 = existing t"
  by (auto simp: same_rows_def existing_def)

lemma InitDb_cases:
  assumes "InitDb opn c s = (r, s1)"
  shows "same_rows (committed s) (committed s1)" and "tx s1 = tx s" and "cuts s1 = cuts s"
    and "r = Inr () \<Longrightarrow> committed s1 = Some (existing (committed s))"
proof -
  have "same_rows (committed s) (committed s1) \<and> tx s1 = tx s \<and> cuts s1 = cuts s \<and>
    (r = Inr () \<longrightarrow> committed s1 = Some (existing (committed s)))"
  proof (cases "opn c")
    case None
    with assms have e: "exec_db CreateVidTable s = (r, s1)" by (simp add: InitDb_def exec_def)
    from exec_db_cases [OF e] exec_db_cuts [OF e] show ?thesis
      unfolding CreateVidTable_def by (cases "committed s"; cases "committed s1") (auto simp: existing_def same_rows_def)
  qed (use assms in \<open>auto simp: InitDb_def\<close>)
  then show "same_rows (committed s) (committed s1)" "tx s1 = tx s" "cuts s1 = cuts s"
    "r = Inr () \<Longrightarrow> committed s1 = Some (existing (committed s))" by blast+
qed

lemma create_shard_table:
  assumes "exec_db SqlCreateShardTable s = (r, s1)"
  shows "same_rows (stored_shards (committed s)) (stored_shards (committed s1)) \<and>
    stored_mapping (committed s1) = stored_mapping (committed s) \<and> tx s1 = tx s \<and>
    (r = Inr () \<longrightarrow> stored_shards (committed s1) \<noteq> None)"
  using exec_db_cases [OF assms] by (cases "committed s"; cases "committed s1") (auto simp: SqlCreateShardTable_def)

lemma create_mapping_table:
  assumes "exec_db SqlCreateShardsMappingTable s = (r, s1)"
  shows "stored_shards (committed s1) = stored_shards (committed s) \<and>
    same_rows (stored_mapping (committed s)) (stored_mapping (committed s1)) \<and> tx s1 = tx s \<and>
    (r = Inr () \<longrightarrow> stored_mapping (committed s1) \<noteq> None)"
  using exec_db_cases [OF assms]
  by (cases "committed s"; cases "committed s1") (auto simp: SqlCreateShardsMappingTable_def split: if_splits)

lemma initDbConnection_cases:
  assumes "initDbConnection opn c s = (r, s1)"
  shows "same_rows (stored_shards (committed s)) (stored_shards (committed s1)) \<and>
    same_rows (stored_mapping (committed s)) (stored_mapping (committed s1)) \<and> tx s1 = tx s \<and>
    (r = Inr () \<longrightarrow> stored_shards (committed s1) \<noteq> None \<and> stored_mapping (committed s1) \<noteq> None)"
proof (cases "opn c")
  case None
  obtain r0 s0 where 0: "exec_db SqlCreateShardTable s = (r0, s0)" by (cases "exec_db SqlCreateShardTable s")
  note c0 = create_shard_table [OF 0]
  show ?thesis
  proof (cases r0)
    case (Inr u)
    with None 0 assms have "exec_db SqlCreateShardsMappingTable s0 = (r, s1)"
      by (simp add: initDbConnection_def andThen_def exec_def)
    from create_mapping_table [OF this] c0 Inr show ?thesis by auto
  next
    case (Inl err)
    with None 0 assms c0 show ?thesis by (auto simp: initDbConnection_def andThen_def exec_def)
  qed
qed (use assms in \<open>auto simp: initDbConnection_def\<close>)

section \<open>What the whole start does\<close>

definition metrics_servers :: "string \<Rightarrow> server list" where
  "metrics_servers port =
     (if port = '''' \<or> port = ''-'' then []
      else [\<lparr>Addr = '':'' @ port, Handler = MetricsHandler [(''/metrics'', ())], WriteTimeout = 0, ReadTimeout = 0\<rparr>])"

lemma metrics_Serve_servers: "metrics_Serve port p = p\<lparr>servers := servers p @ metrics_servers port\<rparr>"
  by (simp add: metrics_Serve_def metrics_servers_def)

text \<open>A run of the start: opening the databases, and after both, the servers.\<close>

lemma Wrapper_run:
  assumes "Wrapper g cfg p = (r, p1)" and order: "\<And>xs. mset (methods_order g xs) = mset xs"
  obtains (first) err s where "InitDb (sql_open g) (cf_WrapperDb cfg) (vid_conn p) = (Inl err, s)" "r = Inl err"
      "p1 = p\<lparr>vid_conn := s, ctx_cancelled := True\<rparr>"
    | (second) err s s' where "InitDb (sql_open g) (cf_WrapperDb cfg) (vid_conn p) = (Inr (), s)"
      "initDbConnection (sql_open g) (cf_ShardingDb cfg) (shard_conn p) = (Inl err, s')" "r = Inl err"
      "p1 = p\<lparr>vid_conn := s, shard_conn := s', ctx_cancelled := True\<rparr>"
    | (both) rs s s' where "InitDb (sql_open g) (cf_WrapperDb cfg) (vid_conn p) = (Inr (), s)"
      "initDbConnection (sql_open g) (cf_ShardingDb cfg) (shard_conn p) = (Inr (), s')"
      "r = Inr (wrapper_cache g, wired g cfg)" "GetRouter (methods_order g) = Some rs" "dispatch_in rs = dispatch"
      "p1 = p\<lparr>vid_conn := s, shard_conn := s', servers := servers p @ metrics_servers (cf_MetricsPort cfg) @
         [\<lparr>Addr = '':'' @ cf_ServerPort cfg, Handler = ApiHandler rs,
           WriteTimeout = or_zero (ParseDuration g (cf_HttpServerTimeout cfg)),
           ReadTimeout = or_zero (ParseDuration g (cf_HttpServerReadTimeout cfg))\<rparr>]\<rparr>"
proof -
  obtain rs where rs: "GetRouter (methods_order g) = Some rs" "dispatch_in rs = dispatch"
    using GetRouter_any_order [OF order] by blast
  obtain r0 s where 0: "InitDb (sql_open g) (cf_WrapperDb cfg) (vid_conn p) = (r0, s)"
    by (cases "InitDb (sql_open g) (cf_WrapperDb cfg) (vid_conn p)")
  obtain r' s' where s': "initDbConnection (sql_open g) (cf_ShardingDb cfg) (shard_conn p) = (r', s')"
    by (cases "initDbConnection (sql_open g) (cf_ShardingDb cfg) (shard_conn p)")
  note def = Wrapper_def vid_New_def andThen_def on_vid_conn_def on_shard_conn_def shards_New_def
  show ?thesis
  proof (cases r0)
    case (Inl err)
    with 0 assms(1) show ?thesis by (intro first [of err s]) (auto simp: def)
  next
    case (Inr u)
    show ?thesis
    proof (cases r')
      case (Inl err)
      with 0 Inr s' assms(1) show ?thesis by (intro second [of s err s']) (auto simp: def)
    next
      case (Inr u')
      with 0 \<open>r0 = Inr u\<close> s' rs assms(1) show ?thesis
        by (intro both [of s s' rs]) (auto simp: def Start_def metrics_Serve_servers)
    qed
  qed
qed

text \<open>
  Starting never touches data: whatever the configuration, whichever tables exist, and whatever
  calls of the databases fail (also those that took effect without an answer), the rows of every
  table are the same afterwards, no table is gone, and one that was missing is still missing or
  empty.
\<close>
lemma start_keeps_rows:
  assumes "Wrapper g cfg p = (r, p1)" and "\<And>xs. mset (methods_order g xs) = mset xs"
  shows "same_rows (committed (vid_conn p)) (committed (vid_conn p1)) \<and>
    same_rows (stored_shards (committed (shard_conn p))) (stored_shards (committed (shard_conn p1))) \<and>
    same_rows (stored_mapping (committed (shard_conn p))) (stored_mapping (committed (shard_conn p1)))"
  using assms
proof (cases rule: Wrapper_run)
  case (first err s)
  from InitDb_cases(1) [OF first(1)] first(3) show ?thesis by simp
next
  case (second err s s')
  from InitDb_cases(1) [OF second(1)] initDbConnection_cases [OF second(2)] second(4) show ?thesis by simp
next
  case (both rs s s')
  from InitDb_cases(1) [OF both(1)] initDbConnection_cases [OF both(2)] both(6) show ?thesis by simp
qed

text \<open>Databases that answer can be opened, whatever tables they have, and the start succeeds.\<close>

lemma start_succeeds:
  assumes "sql_open g (cf_WrapperDb cfg) = None" and "sql_open g (cf_ShardingDb cfg) = None"
    and "faults (vid_conn p) = []" and "faults (shard_conn p) = []"
    and order: "\<And>xs. mset (methods_order g xs) = mset xs"
  shows "\<exists>p1. Wrapper g cfg p = (Inr (wrapper_cache g, wired g cfg), p1)"
proof -
  obtain r p1 where w: "Wrapper g cfg p = (r, p1)" by (cases "Wrapper g cfg p")
  have "InitDb (sql_open g) (cf_WrapperDb cfg) (vid_conn p) \<noteq> (Inl err, s)" for err s
    using assms by (auto simp: InitDb_def exec_def exec_db_def next_fault_def CreateVidTable_def)
  moreover have "initDbConnection (sql_open g) (cf_ShardingDb cfg) (shard_conn p) \<noteq> (Inl err, s)" for err s
    using assms
    by (auto simp: initDbConnection_def andThen_def exec_def exec_db_def next_fault_def SqlCreateShardTable_def
        SqlCreateShardsMappingTable_def)
  ultimately have "r = Inr (wrapper_cache g, wired g cfg)"
    using w order by (cases rule: Wrapper_run [OF w order]) auto
  with w show ?thesis by blast
qed

section \<open>The outcome of the start\<close>

text \<open>
  C17: The outcome of the start: either it fails, then the context is cancelled, nothing listens, and
  the reason is that a database could not be opened; or it succeeds, then all tables exist (there is
  a state in which the servers begin), the API listens at the configured port with a multiplexer
  that dispatches every request as \<open>dispatch\<close>, and the server of metrics only if it has a port.
  When the databases answer, it succeeds, whatever tables they have.
\<close>
theorem start_outcome:
  assumes "Wrapper g cfg p = (r, p1)" and "\<And>xs. mset (methods_order g xs) = mset xs"
    and "ctx_cancelled p = False" and "servers p = []"
  shows "(case r of
      Inl err \<Rightarrow> ctx_cancelled p1 \<and> servers p1 = [] \<and>
        (fst (InitDb (sql_open g) (cf_WrapperDb cfg) (vid_conn p)) = Inl err \<or>
         fst (initDbConnection (sql_open g) (cf_ShardingDb cfg) (shard_conn p)) = Inl err)
    | Inr (c, sys) \<Rightarrow> \<not> ctx_cancelled p1 \<and> c = wrapper_cache g \<and> sys = wired g cfg \<and>
        (\<forall>e. serving e c p1 \<noteq> None) \<and>
        (\<exists>api rs. servers p1 = metrics_servers (cf_MetricsPort cfg) @ [api] \<and> Addr api = '':'' @ cf_ServerPort cfg \<and>
           Handler api = ApiHandler rs \<and> dispatch_in rs = dispatch)) \<and>
    (sql_open g (cf_WrapperDb cfg) = None \<and> sql_open g (cf_ShardingDb cfg) = None \<and>
     faults (vid_conn p) = [] \<and> faults (shard_conn p) = [] \<longrightarrow> (\<exists>x. r = Inr x))"
proof (rule conjI)
  show "sql_open g (cf_WrapperDb cfg) = None \<and> sql_open g (cf_ShardingDb cfg) = None \<and>
    faults (vid_conn p) = [] \<and> faults (shard_conn p) = [] \<longrightarrow> (\<exists>x. r = Inr x)"
    using start_succeeds [of g cfg p] assms(1,2) by auto
  from assms(1,2) show "case r of
      Inl err \<Rightarrow> ctx_cancelled p1 \<and> servers p1 = [] \<and>
        (fst (InitDb (sql_open g) (cf_WrapperDb cfg) (vid_conn p)) = Inl err \<or>
         fst (initDbConnection (sql_open g) (cf_ShardingDb cfg) (shard_conn p)) = Inl err)
    | Inr (c, sys) \<Rightarrow> \<not> ctx_cancelled p1 \<and> c = wrapper_cache g \<and> sys = wired g cfg \<and>
        (\<forall>e. serving e c p1 \<noteq> None) \<and>
        (\<exists>api rs. servers p1 = metrics_servers (cf_MetricsPort cfg) @ [api] \<and> Addr api = '':'' @ cf_ServerPort cfg \<and>
           Handler api = ApiHandler rs \<and> dispatch_in rs = dispatch)"
  proof (cases rule: Wrapper_run)
    case (both rs s s')
    then show ?thesis using assms(3,4) InitDb_cases(4) [OF both(1)] initDbConnection_cases [OF both(2)]
      by (auto simp: serving_def opened_def)
  qed (use assms in auto)
qed

text \<open>A small program to start: the libraries of the demonstration, stores that are plain maps.\<close>

definition demo_given :: "(unit, string \<rightharpoonup> string, string \<rightharpoonup> string) given" where
  "demo_given =
     \<lparr>sql_open = (\<lambda>c. if c = '''' then Some (ErrMsg ''missing connection'') else None),
      ParseDuration = (\<lambda>t. if t = ''30s'' then Inr 30 else Inl (ErrMsg ''invalid duration'')),
      new_l1 = (\<lambda>n. Map.empty), new_l2 = (\<lambda>urls. Map.empty), l1_ops = map_store, l2_ops = map_store,
      text_codec = (Inr, Inr), list_codec = (\<lambda>_. Inr '''', \<lambda>_. Inr []), methods_order = rev,
      conflict_text = '''', libraries = (\<lambda>_. demo_system)\<rparr>"

definition demo_config :: Config where
  "demo_config = zero_config\<lparr>cf_ServerPort := ''8080'', cf_WrapperDb := ''vids'', cf_ShardingDb := ''shards'',
     cf_HttpServerTimeout := ''30s''\<rparr>"

lemma demo_order: "mset (methods_order demo_given xs) = mset xs"
  by (simp add: demo_given_def)

lemma demo_opens: "sql_open demo_given (cf_WrapperDb demo_config) = None"
    "sql_open demo_given (cf_ShardingDb demo_config) = None"
  by (simp_all add: demo_given_def demo_config_def zero_config_def)

text \<open>The first start: no tables at all.\<close>

definition first_process :: process where
  "first_process =
     \<lparr>vid_conn = \<lparr>committed = None, tx = None, faults = [], cuts = []\<rparr>,
      shard_conn = \<lparr>committed = \<lparr>stored_shards = None, stored_mapping = None\<rparr>, tx = None, faults = [], cuts = []\<rparr>,
      ctx_cancelled = False, servers = []\<rparr>"

theorem start_outcome_witness:
  "\<exists>p1 api. snd (Wrapper demo_given demo_config first_process) = p1 \<and> servers p1 = [api] \<and> Addr api = '':8080'' \<and>
     serving () (wrapper_cache demo_given) p1 \<noteq> None"
proof -
  obtain p1 where p1: "Wrapper demo_given demo_config first_process =
      (Inr (wrapper_cache demo_given, wired demo_given demo_config), p1)"
    using start_succeeds [OF demo_opens _ _ demo_order, of first_process] by (auto simp: first_process_def)
  have m: "metrics_servers (cf_MetricsPort demo_config) = []" and a: "cf_ServerPort demo_config = ''8080''"
    by (simp_all add: metrics_servers_def demo_config_def zero_config_def)
  from start_outcome [OF p1 demo_order] have "(\<forall>e. serving e (wrapper_cache demo_given) p1 \<noteq> None) \<and>
      (\<exists>api. servers p1 = [api] \<and> Addr api = '':8080'')"
    by (auto simp: m a first_process_def)
  with p1 show ?thesis by (metis snd_conv)
qed

section \<open>Any number of starts\<close>

text \<open>What outlives a process: the tables. An open transaction is rolled back by the database.\<close>

record disk =
  disk_vids :: "vid_db option"
  disk_shards :: shard_tables

definition new_process :: "disk \<Rightarrow> fault list \<Rightarrow> fault list \<Rightarrow> nat option list \<Rightarrow> process" where
  "new_process d fs fs' cs =
     \<lparr>vid_conn = \<lparr>committed = disk_vids d, tx = None, faults = fs, cuts = []\<rparr>,
      shard_conn = \<lparr>committed = disk_shards d, tx = None, faults = fs', cuts = cs\<rparr>,
      ctx_cancelled = False, servers = []\<rparr>"

definition left_by_start :: "process \<Rightarrow> disk" where
  "left_by_start p = \<lparr>disk_vids = committed (vid_conn p), disk_shards = committed (shard_conn p)\<rparr>"

definition left_by_run :: "('e, 'c) world \<Rightarrow> disk" where
  "left_by_run w =
     \<lparr>disk_vids = Some (committed (vids w)),
      disk_shards = \<lparr>stored_shards = Some (shard_table (committed (snd (shards w)))),
                     stored_mapping = Some (mapping_table (committed (snd (shards w))))\<rparr>\<rparr>"

text \<open>
  One process, from the tables it finds to those it leaves: with any configuration, a start that
  fails, or one that succeeds and any run of the server, cut off at any point between two requests.
  Its cache and its token are new. Only the transfer of rows of the relation is taken not to break.
\<close>

inductive process_life :: "('e, 'a, 'b) given \<Rightarrow> disk \<Rightarrow> disk \<Rightarrow> bool" for g where
  no_start: "Wrapper g cfg (new_process d fs fs' cs) = (Inl err, p) \<Longrightarrow> process_life g d (left_by_start p)"
| run: "Wrapper g cfg (new_process d fs fs' cs) = (Inr (c, sys), p) \<Longrightarrow> serving e c p = Some w \<Longrightarrow>
    server_run sys w w1 \<Longrightarrow> process_life g d (left_by_run w1)"

abbreviation lives :: "('e, 'a, 'b) given \<Rightarrow> disk \<Rightarrow> disk \<Rightarrow> bool" where
  "lives g \<equiv> (process_life g)\<^sup>*\<^sup>*"

text \<open>
  The libraries behave as documented: the stores, of which a new one is empty; JSON carries the
  addresses of shards unchanged; \<open>range\<close> visits every entry of a map once.
\<close>

definition documented :: "('e, 'a, 'b) given \<Rightarrow> bool" where
  "documented g \<longleftrightarrow>
     (\<exists>ct1 ct2. store_ok True (l1_ops g) ct1 \<and> store_ok False (l2_ops g) ct2 \<and> (\<forall>n. ct1 (new_l1 g n) = Map.empty)) \<and>
     trip (fst (text_codec g)) (snd (text_codec g)) = Inr \<and> (\<forall>xs. mset (methods_order g xs) = mset xs)"

definition rows_of :: "shard_tables \<Rightarrow> shard_db" where
  "rows_of d = \<lparr>shard_table = existing (stored_shards d), mapping_table = existing (stored_mapping d)\<rparr>"

definition tables :: "disk \<Rightarrow> shard_db" where
  "tables d = rows_of (disk_shards d)"

text \<open>The tables are as the program leaves them: one row for a virtual id, and the schema's constraints.\<close>

definition disk_ok :: "disk \<Rightarrow> bool" where
  "disk_ok d \<longleftrightarrow> distinct (map snd (existing (disk_vids d))) \<and> shards_inv (tables d)"

lemma lc_use_contents:
  assumes ok1: "store_ok True o1 ct1" and ok2: "store_ok False o2 ct2"
    and u: "lc_use o1 o2 enc dec k getter (c, s) = (r, c', s')"
  shows "s' = s \<or> s' = snd (getter s)" and "k' \<noteq> k \<Longrightarrow> lc_holds ct1 ct2 dec' c' k' v \<Longrightarrow> lc_holds ct1 ct2 dec' c k' v"
proof -
  obtain r1 c1 where g: "lc_get o1 o2 k c = (r1, c1)" by (cases "lc_get o1 o2 k c")
  note get = lc_get_contents(1) [OF ok1 ok2 g]
  from u g show "s' = s \<or> s' = snd (getter s)"
    by (auto simp: lc_use_def split: prod.splits sum.splits)
  from u g have "c' = c1 \<or> (\<exists>b. c' = lc_set o1 o2 k b c1)"
    by (auto simp: lc_use_def split: prod.splits sum.splits)
  with get lc_set_contents [OF ok1 ok2, of k _ c1]
  have "lc_contents ct1 ct2 c' \<subseteq> lc_contents ct1 ct2 c \<union> {k} \<times> UNIV" by blast
  then show "k' \<noteq> k \<Longrightarrow> lc_holds ct1 ct2 dec' c' k' v \<Longrightarrow> lc_holds ct1 ct2 dec' c k' v"
    by (auto simp: lc_holds_contents)
qed

lemma wired_cache_ok:
  assumes "store_ok True (l1_ops g) ct1" and "store_ok False (l2_ops g) ct2"
    and "trip (fst (text_codec g)) (snd (text_codec g)) = Inr"
  shows "cache_ok (wired g cfg) (lc_holds ct1 ct2 (snd (text_codec g)))"
proof -
  have ci: "cache_interface (cache_use (wired g cfg)) (lc_invalidate (l1_ops g) (l2_ops g))
      (lc_holds ct1 ct2 (snd (text_codec g))) Inr"
    using layered_cache_interface [OF assms(1,2), of "fst (text_codec g)" "snd (text_codec g)"] assms(3)
    by (simp add: wired_def Let_def)
  have others: "(s1 = s \<or> s1 = snd (getter s)) \<and> (\<forall>k' v. k' \<noteq> k \<longrightarrow>
      lc_holds ct1 ct2 (snd (text_codec g)) c1 k' v \<longrightarrow> lc_holds ct1 ct2 (snd (text_codec g)) c k' v)"
    if "cache_use_list (wired g cfg) k getter (c, s) = (r, c1, s1)" for k getter c s r c1 s1
  proof -
    from that have "lc_use (l1_ops g) (l2_ops g) (fst (list_codec g)) (snd (list_codec g)) k getter (c, s) = (r, c1, s1)"
      by (simp add: wired_def Let_def)
    note u = lc_use_contents(1) [OF assms(1,2) this]
      lc_use_contents(2) [OF assms(1,2) this, where dec' = "snd (text_codec g)"]
    show ?thesis by (intro conjI allI impI u)
  qed
  show ?thesis unfolding cache_ok_def
  proof (rule conjI)
    show "\<exists>invalidate. cache_interface (cache_use (wired g cfg)) invalidate (lc_holds ct1 ct2 (snd (text_codec g))) Inr"
      by (rule exI [where x = "lc_invalidate (l1_ops g) (l2_ops g)"]) (rule ci)
  qed (intro allI impI, rule others)
qed

lemma process_life_keeps:
  assumes "process_life g d d1" and "documented g" and "disk_ok d"
  shows "disk_ok d1 \<and> shard_of (tables d) \<subseteq>\<^sub>m shard_of (tables d1)"
  using assms(1)
proof cases
  case (no_start cfg fs fs' cs err p)
  from start_keeps_rows [OF no_start(2)] assms(2)
  have "existing (committed (vid_conn p)) = existing (disk_vids d)"
    "existing (stored_shards (committed (shard_conn p))) = existing (stored_shards (disk_shards d))"
    "existing (stored_mapping (committed (shard_conn p))) = existing (stored_mapping (disk_shards d))"
    by (auto simp: documented_def new_process_def dest: existing_same)
  with no_start(1) assms(3) show ?thesis by (simp add: left_by_start_def disk_ok_def tables_def rows_of_def)
next
  case (run cfg fs fs' cs c sys p e w w1)
  obtain ct1 ct2 where lib: "store_ok True (l1_ops g) ct1" "store_ok False (l2_ops g) ct2"
      "\<And>n. ct1 (new_l1 g n) = Map.empty" "trip (fst (text_codec g)) (snd (text_codec g)) = Inr"
    and order: "\<And>xs. mset (methods_order g xs) = mset xs"
    using assms(2) by (auto simp: documented_def)
  let ?holds = "lc_holds ct1 ct2 (snd (text_codec g))"
  from run(2) order have c: "c = wrapper_cache g" and sys: "sys = wired g cfg"
    by (cases rule: Wrapper_run; simp)+
  have cuts: "cuts (vid_conn p) = []"
    using run(2) order by (cases rule: Wrapper_run) (auto simp: new_process_def dest: InitDb_cases(3))
  from start_keeps_rows [OF run(2) order]
  have rows: "existing (committed (vid_conn p)) = existing (disk_vids d)"
    "existing (stored_shards (committed (shard_conn p))) = existing (stored_shards (disk_shards d))"
    "existing (stored_mapping (committed (shard_conn p))) = existing (stored_mapping (disk_shards d))"
    by (auto simp: new_process_def dest: existing_same)
  with run(3) have w: "committed (vids w) = existing (disk_vids d)" "cuts (vids w) = []"
    "committed (snd (shards w)) = tables d" "tx (snd (shards w)) = None" "fst (shards w) = c"
    by (auto simp: serving_def opened_def tables_def rows_of_def existing_def cuts split: option.splits)
  have one: "distinct (map snd (committed (vids w1)))"
    by (rule server_run_one_each [OF run(4) w(2)]) (use assms(3) w(1) in \<open>simp add: disk_ok_def\<close>)
  have "?holds (fst (shards w)) k v \<Longrightarrow> False" for k v
    by (simp add: w(5) c wrapper_cache_def cache_new_def cache_config_def Let_def lc_holds_def lib(3))
  then have fresh_cache: "up_to_date ?holds (shards w)" by (auto simp: up_to_date_def)
  have ok: "tables_ok shards_inv (snd (shards w))"
    using assms(3) w(3,4) by (simp add: tables_ok_def disk_ok_def)
  from server_run_shards [OF run(4) _ fresh_cache ok] wired_cache_ok [OF lib(1,2,4)]
  have "tables_ok shards_inv (snd (shards w1)) \<and>
    shard_of (committed (snd (shards w))) \<subseteq>\<^sub>m shard_of (committed (snd (shards w1)))" by (simp add: sys)
  moreover have "tables (left_by_run w1) = committed (snd (shards w1))"
    by (simp add: tables_def rows_of_def left_by_run_def existing_def)
  ultimately show ?thesis
    using run(1) one w(3) by (simp add: disk_ok_def left_by_run_def existing_def tables_ok_def)
qed

text \<open>A process that is started on the tables of the demonstration and answers one request.\<close>

definition demo_disk :: disk where
  "demo_disk = \<lparr>disk_vids = None,
     disk_shards = \<lparr>stored_shards = Some [''s1'', ''s2''], stored_mapping = Some [(''alice'', ''s1'')]\<rparr>\<rparr>"

definition demo_http_request :: http_request where
  "demo_http_request =
     \<lparr>hr_method = ''GET'', hr_target = ''/v2/deployments'', hr_origin = '''',
      hr_request = \<lparr>path_value = (\<lambda>_. ''''), query = [], authorization = ''root'', body = Inl (JsonError ''EOF'')\<rparr>\<rparr>"

lemma demo_life: "\<exists>d1. process_life demo_given demo_disk d1 \<and> disk_vids d1 \<noteq> None"
proof -
  let ?p = "new_process demo_disk [] [] []" and ?c = "wrapper_cache demo_given" and ?sys = "wired demo_given demo_config"
  obtain p1 where p1: "Wrapper demo_given demo_config ?p = (Inr (?c, ?sys), p1)"
    using start_succeeds [OF demo_opens _ _ demo_order, of ?p] by (auto simp: new_process_def)
  obtain w where w: "serving () ?c p1 = Some w"
    using p1 by (cases rule: Wrapper_run [OF p1 demo_order])
      (auto simp: serving_def opened_def dest!: InitDb_cases(4) initDbConnection_cases)
  let ?w1 = "snd (snd (ServeHTTP ?sys demo_http_request w))"
  have "server_step ?sys w ?w1"
    by (rule server_step.request [of ?sys demo_http_request w "fst (ServeHTTP ?sys demo_http_request w)"
          "fst (snd (ServeHTTP ?sys demo_http_request w))"]) simp
  then have "server_run ?sys w ?w1" by (rule r_into_rtranclp)
  from process_life.run [OF p1 w this] have "process_life demo_given demo_disk (left_by_run ?w1)" .
  moreover have "disk_vids (left_by_run ?w1) \<noteq> None" by (simp add: left_by_run_def)
  ultimately show ?thesis by blast
qed

end
