(* ===== verification/Client.thy ===== *)
theory Client
  imports Router Auth Model "HOL-Library.AList"
begin

text \<open>
  The client library (\<open>lib/client\<close>): the requests that its methods make and what they return of the
  replies, and the providers of access tokens. The network of the client is a parameter, as in the
  other parts; \<open>new_request\<close> is the error of \<open>http.NewRequest\<close> for a URL that does not parse.
\<close>

section \<open>Queries\<close>

definition values_get :: "url_values \<Rightarrow> string \<Rightarrow> string list" where
  "values_get vs key = (case map_of vs key of None \<Rightarrow> [] | Some xs \<Rightarrow> xs)"

definition values_add :: "string \<Rightarrow> string \<Rightarrow> url_values \<Rightarrow> url_values" where
  "values_add key val vs = AList.update key (values_get vs key @ [val]) vs"

text \<open>\<open>for key, val := range m { query.Add(key, val) }\<close>, with the map in the order of its visit.\<close>

definition values_add_all :: "(string \<times> string) list \<Rightarrow> url_values \<Rightarrow> url_values" where
  "values_add_all m vs = fold (\<lambda>(key, val). values_add key val) m vs"

record StartOptions =
  so_BusinessKey :: string
  so_Inputs :: "(string \<times> string res) list"

record InstanceListOptions =
  io_BusinessKey :: string
  io_OtherArgs :: "(string \<times> string) list"

definition instance_query :: "bool \<Rightarrow> InstanceListOptions \<Rightarrow> url_values" where
  "instance_query with_total options =
     (let query = (if with_total then values_add ''with_total'' ''true'' [] else []);
          query = (if io_BusinessKey options \<noteq> ''''
                   then values_add ''processInstanceBusinessKey'' (io_BusinessKey options) query else query)
      in values_add_all (io_OtherArgs options) query)"

text \<open>
  The inputs are given with the result of \<open>json.Marshal\<close> for each value; its error is dropped, and
  then the text is empty.
\<close>

definition start_query :: "StartOptions \<Rightarrow> url_values" where
  "start_query options =
     values_add_all (map (\<lambda>(key, r). (key, case r of Inl err \<Rightarrow> '''' | Inr str \<Rightarrow> str)) (so_Inputs options))
       (if so_BusinessKey options \<noteq> '''' then values_add ''business_key'' (so_BusinessKey options) [] else [])"

section \<open>Requests\<close>

definition client_request :: "string \<Rightarrow> string \<Rightarrow> string \<Rightarrow> req_body \<Rightarrow> request" where
  "client_request token meth url bd =
     \<lparr>rq_method = meth, rq_url = url, rq_type = '''', rq_auth = token, rq_body = bd\<rparr>"

type_synonym ('e, 'a) call = "'e \<Rightarrow> ('a res \<times> int) \<times> 'e"

record 'e transport =
  tr_do :: "request \<Rightarrow> 'e \<Rightarrow> reply \<times> 'e"
  tr_new_request :: "string \<Rightarrow> string \<Rightarrow> goerror option"

definition unexpected_status :: "int \<Rightarrow> string \<Rightarrow> goerror" where
  "unexpected_status st bd =
     HttpError (''unexpected statuscode '' @ itoa (nat st) @ '': '' @ bd)"

definition do_call :: "'e transport \<Rightarrow> (json \<Rightarrow> 'a res) \<Rightarrow> request \<Rightarrow> ('e, 'a) call" where
  "do_call tr dec rq e =
     (case tr_do tr rq e of
        (HttpFail err, e1) \<Rightarrow> ((Inl err, 500), e1)
      | (Reply st status bd js, e1) \<Rightarrow>
          if st > 299 then ((Inl (unexpected_status st bd), st), e1)
          else (case Sum_Type.case_sum Inl dec js of
                  Inl err \<Rightarrow> ((Inl err, 500), e1)
                | Inr result \<Rightarrow> ((Inr result, st), e1)))"

definition doVoid :: "'e transport \<Rightarrow> request \<Rightarrow> ('e, unit) call" where
  "doVoid tr rq e =
     (case tr_do tr rq e of
        (HttpFail err, e1) \<Rightarrow> ((Inl err, 500), e1)
      | (Reply st status bd js, e1) \<Rightarrow>
          if st > 299 then ((Inl (unexpected_status st bd), st), e1) else ((Inr (), st), e1))"

text \<open>\<open>req, err := http.NewRequest(..); if err != nil { return err, 0 }\<close>, then the call.\<close>

definition with_request ::
  "'e transport \<Rightarrow> string \<Rightarrow> string \<Rightarrow> string \<Rightarrow> req_body \<Rightarrow> (request \<Rightarrow> ('e, 'a) call) \<Rightarrow> ('e, 'a) call" where
  "with_request tr token meth url bd k e =
     (case tr_new_request tr meth url of
        Some err \<Rightarrow> ((Inl err, 0), e)
      | None \<Rightarrow> k (client_request token meth url bd) e)"

section \<open>The methods\<close>

definition start_url :: "string \<Rightarrow> string \<Rightarrow> StartOptions \<Rightarrow> string" where
  "start_url serverUrl deplId options =
     serverUrl @ ''/v2/deployments/'' @ PathEscape deplId @ ''/start?'' @ values_encode (start_query options)"

definition Client_StartDeployment ::
  "'e transport \<Rightarrow> (json \<Rightarrow> 'a res) \<Rightarrow> string \<Rightarrow> string \<Rightarrow> string \<Rightarrow> StartOptions \<Rightarrow> ('e, 'a) call" where
  "Client_StartDeployment tr dec serverUrl token deplId options =
     with_request tr token ''GET'' (start_url serverUrl deplId options) NoBody (do_call tr dec)"

definition delete_url :: "string \<Rightarrow> string \<Rightarrow> string \<Rightarrow> string" where
  "delete_url serverUrl userId deplId = serverUrl @ ''/process-deployments/'' @ userId @ ''/'' @ deplId"

definition Client_DeleteDeployment ::
  "'e transport \<Rightarrow> string \<Rightarrow> string \<Rightarrow> string \<Rightarrow> string \<Rightarrow> ('e, unit) call" where
  "Client_DeleteDeployment tr serverUrl token userId deplId =
     with_request tr token ''DELETE'' (delete_url serverUrl userId deplId) NoBody (doVoid tr)"

definition business_key_url :: "string \<Rightarrow> string \<Rightarrow> string" where
  "business_key_url serverUrl businessKey =
     serverUrl @ ''/v2/process-instances-by-business-key/'' @ PathEscape businessKey"

definition Client_DeleteProcessInstancesByBusinessKey ::
  "'e transport \<Rightarrow> string \<Rightarrow> string \<Rightarrow> string \<Rightarrow> ('e, unit) call" where
  "Client_DeleteProcessInstancesByBusinessKey tr serverUrl token businessKey =
     with_request tr token ''DELETE'' (business_key_url serverUrl businessKey) NoBody (doVoid tr)"

definition Client_ListDeployments ::
  "'e transport \<Rightarrow> (json \<Rightarrow> 'a res) \<Rightarrow> string \<Rightarrow> string \<Rightarrow> (string \<times> string) list \<Rightarrow> ('e, 'a) call" where
  "Client_ListDeployments tr dec serverUrl token otherArgs =
     with_request tr token ''GET'' (serverUrl @ ''/v2/deployments?'' @ values_encode (values_add_all otherArgs []))
       NoBody (do_call tr dec)"

definition Client_GetProcessInstances ::
  "'e transport \<Rightarrow> (json \<Rightarrow> 'a res) \<Rightarrow> string \<Rightarrow> string \<Rightarrow> ('e, 'a) call" where
  "Client_GetProcessInstances tr dec serverUrl token =
     with_request tr token ''GET'' (serverUrl @ ''/v2/process-instances'') NoBody (do_call tr dec)"

definition Client_GetHistoricProcessInstances ::
  "'e transport \<Rightarrow> (json \<Rightarrow> 'a res) \<Rightarrow> string \<Rightarrow> string \<Rightarrow> InstanceListOptions \<Rightarrow> ('e, 'a) call" where
  "Client_GetHistoricProcessInstances tr dec serverUrl token options =
     with_request tr token ''GET''
       (serverUrl @ ''/v2/history/process-instances?'' @ values_encode (instance_query False options))
       NoBody (do_call tr dec)"

definition Client_GetHistoricProcessInstancesWithTotal ::
  "'e transport \<Rightarrow> (json \<Rightarrow> 'a res) \<Rightarrow> string \<Rightarrow> string \<Rightarrow> InstanceListOptions \<Rightarrow> ('e, 'a) call" where
  "Client_GetHistoricProcessInstancesWithTotal tr dec serverUrl token options =
     with_request tr token ''GET''
       (serverUrl @ ''/v2/history/process-instances?'' @ values_encode (instance_query True options))
       NoBody (do_call tr dec)"

text \<open>The message as JSON; the undeployed document, which the wrapper does not read, is separate.\<close>

definition encode_DeploymentMessage :: "string \<Rightarrow> DeploymentMessage \<Rightarrow> json" where
  "encode_DeploymentMessage raw depl =
     JObj ([(''id'', JStr (dm_Id depl)), (''name'', JStr (dm_Name depl)),
        (''diagram'', JObj [(''xml_raw'', JStr raw), (''xml_deployed'', JStr (dg_XmlDeployed (dm_Diagram depl))),
           (''svg'', JStr (dg_Svg (dm_Diagram depl)))])] @
      (case dm_IncidentHandling depl of
         None \<Rightarrow> []
       | Some ih \<Rightarrow> [(''incident_handling'',
           JObj [(''restart'', JBool (ih_Restart ih)), (''notify'', JBool (ih_Notify ih))])]) @
      [(''user_id'', JStr (dm_UserId depl)), (''source'', JStr (dm_Source depl))])"

definition Client_Deploy ::
  "'e transport \<Rightarrow> string \<Rightarrow> string \<Rightarrow> string \<Rightarrow> DeploymentMessage \<Rightarrow> ('e, unit) call" where
  "Client_Deploy tr serverUrl token raw depl =
     with_request tr token ''PUT'' (serverUrl @ ''/process-deployments'')
       (JsonBody (encode_DeploymentMessage raw depl)) (doVoid tr)"

section \<open>Token providers\<close>

text \<open>
  Both providers keep a token in a closure, which is state here; on an error the deferred function
  empties it. The three requests differ in the form that is posted.
\<close>

definition token_reply :: "rat \<Rightarrow> reply \<times> 'e \<Rightarrow> OpenidToken res \<times> 'e" where
  "token_reply requesttime re =
     (case re of
        (HttpFail err, e1) \<Rightarrow> (Inl err, e1)
      | (Reply st status bd js, e1) \<Rightarrow>
          if st \<ge> 300 then (Inl (HttpError (status @ '': '' @ bd)), e1)
          else (case Sum_Type.case_sum Inl decode_OpenidToken js of
                  Inl err \<Rightarrow> (Inl err, e1)
                | Inr openid \<Rightarrow> (Inr (openid\<lparr>RequestTime := requesttime\<rparr>), e1)))"

definition getOpenidToken ::
  "(request \<Rightarrow> 'e \<Rightarrow> reply \<times> 'e) \<Rightarrow> ('e \<Rightarrow> rat) \<Rightarrow> auth_config \<Rightarrow> 'e \<Rightarrow> OpenidToken res \<times> 'e" where
  "getOpenidToken http now cfg e = token_reply (now e) (http (token_request cfg
     [(''client_id'', [AuthClientId cfg]), (''client_secret'', [AuthClientSecret cfg]),
      (''grant_type'', [''client_credentials''])]) e)"

definition refreshOpenidToken ::
  "(request \<Rightarrow> 'e \<Rightarrow> reply \<times> 'e) \<Rightarrow> ('e \<Rightarrow> rat) \<Rightarrow> auth_config \<Rightarrow> OpenidToken \<Rightarrow> 'e \<Rightarrow> OpenidToken res \<times> 'e"
  where
  "refreshOpenidToken http now cfg oldOpenid e = token_reply (now e) (http (token_request cfg
     [(''client_id'', [AuthClientId cfg]), (''client_secret'', [AuthClientSecret cfg]),
      (''refresh_token'', [RefreshToken oldOpenid]), (''grant_type'', [''refresh_token''])]) e)"

definition password_request :: "auth_config \<Rightarrow> string \<Rightarrow> string \<Rightarrow> request" where
  "password_request cfg username password = token_request cfg
     [(''client_id'', [AuthClientId cfg]), (''client_secret'', [AuthClientSecret cfg]),
      (''username'', [username]), (''password'', [password]), (''grant_type'', [''password''])]"

definition getOpenidPasswordToken ::
  "(request \<Rightarrow> 'e \<Rightarrow> reply \<times> 'e) \<Rightarrow> ('e \<Rightarrow> rat) \<Rightarrow> auth_config \<Rightarrow> string \<Rightarrow> string \<Rightarrow> 'e \<Rightarrow>
   OpenidToken res \<times> 'e" where
  "getOpenidPasswordToken http now cfg username password e =
     token_reply (now e) (http (password_request cfg username password) e)"

definition provide ::
  "('e \<Rightarrow> OpenidToken res \<times> 'e) \<Rightarrow> (request \<Rightarrow> 'e \<Rightarrow> reply \<times> 'e) \<Rightarrow> ('e \<Rightarrow> rat) \<Rightarrow> auth_config \<Rightarrow>
   OpenidToken \<times> 'e \<Rightarrow> string res \<times> OpenidToken \<times> 'e" where
  "provide get http now cfg te =
     (case te of (openid, e) \<Rightarrow>
        let duration = now e - RequestTime openid + 10;
            fresh = (\<lambda>e1. case get e1 of
                (Inl err, e2) \<Rightarrow> (Inl err, zero_token, e2)
              | (Inr tok, e2) \<Rightarrow> (Inr (''Bearer '' @ AccessToken tok), tok, e2))
        in if AccessToken openid \<noteq> '''' \<and> ExpiresIn openid > duration
           then (Inr (''Bearer '' @ AccessToken openid), openid, e)
           else if RefreshToken openid \<noteq> '''' \<and> RefreshExpiresIn openid > duration
           then (case refreshOpenidToken http now cfg openid e of
                   (Inl err, e1) \<Rightarrow> fresh e1
                 | (Inr tok, e1) \<Rightarrow> (Inr (''Bearer '' @ AccessToken tok), tok, e1))
           else fresh e)"

definition NewTokenProvider ::
  "(request \<Rightarrow> 'e \<Rightarrow> reply \<times> 'e) \<Rightarrow> ('e \<Rightarrow> rat) \<Rightarrow> auth_config \<Rightarrow>
   OpenidToken \<times> 'e \<Rightarrow> string res \<times> OpenidToken \<times> 'e" where
  "NewTokenProvider http now cfg = provide (getOpenidToken http now cfg) http now cfg"

definition NewUserTokenProvider ::
  "(request \<Rightarrow> 'e \<Rightarrow> reply \<times> 'e) \<Rightarrow> ('e \<Rightarrow> rat) \<Rightarrow> auth_config \<Rightarrow> string \<Rightarrow> string \<Rightarrow>
   OpenidToken \<times> 'e \<Rightarrow> string res \<times> OpenidToken \<times> 'e" where
  "NewUserTokenProvider http now cfg userName pw =
     provide (getOpenidPasswordToken http now cfg userName pw) http now cfg"

end
