(* ===== verification/Cleanup.thy ===== *)
theory Cleanup
  imports Client Vid Shards
begin

text \<open>
  The command line tools: finding and removing what is not linked any more (\<open>lib/cleanup\<close>,
  \<open>cmd/cleanup\<close>). The handles of the databases that \<open>shards.New\<close> and \<open>vid.New\<close> open are arguments.
\<close>

section \<open>What the tools are given\<close>

text \<open>
  The network and the clock, the parser of Go's times, a URL without its user (\<open>None\<close>: \<open>url.Parse\<close>
  fails, its result is nil, and writing to it panics), the JSON codec of the cache \<open>None\<close>, and the
  order in which \<open>range\<close> visits a map.
\<close>

record 'e tools =
  tl_net :: "request \<Rightarrow> 'e \<Rightarrow> reply \<times> 'e"
  tl_now :: "'e \<Rightarrow> rat"
  tl_parse_time :: "string \<Rightarrow> rat res"
  tl_anonymous :: "string \<Rightarrow> string option"
  tl_marshal :: "string list \<Rightarrow> string + string"
  tl_unmarshal :: "string \<Rightarrow> string + string list"
  tl_range :: "(string \<rightharpoonup> string) \<Rightarrow> (string \<times> string) list"

record 'e tool_state =
  ts_shards :: "shard_db sql"
  ts_vids :: "vid_db sql"
  ts_env :: 'e

section \<open>The deployments of an engine\<close>

record RawDeployment =
  rd_Id :: string
  rd_Name :: string
  rd_Source :: string
  rd_DeploymentTime :: string
  rd_TenantId :: string

definition decode_RawDeployment :: "json \<Rightarrow> RawDeployment res" where
  "decode_RawDeployment = decode_struct
     [(''id'', string_field rd_Id_update), (''name'', string_field rd_Name_update),
      (''source'', string_field rd_Source_update), (''deploymentTime'', string_field rd_DeploymentTime_update),
      (''tenantId'', string_field rd_TenantId_update)]
     \<lparr>rd_Id = '''', rd_Name = '''', rd_Source = '''', rd_DeploymentTime = '''', rd_TenantId = ''''\<rparr>"

text \<open>\<open>Get\<close> of \<open>common.go\<close> decodes the body whatever the status is.\<close>

definition Cleanup_Get :: "'e tools \<Rightarrow> (json \<Rightarrow> 'a res) \<Rightarrow> string \<Rightarrow> 'e \<Rightarrow> 'a res \<times> 'e" where
  "Cleanup_Get tls dec url e =
     (case tl_net tls (get_request url) e of
        (HttpFail err, e1) \<Rightarrow> (Inl err, e1)
      | (Reply st status bd js, e1) \<Rightarrow> (Sum_Type.case_sum Inl dec js, e1))"

definition getDeploymentListAllRaw :: "'e tools \<Rightarrow> string \<Rightarrow> 'e \<Rightarrow> RawDeployment list res \<times> 'e" where
  "getDeploymentListAllRaw tls shard =
     Cleanup_Get tls (decode_list decode_RawDeployment) (shard @ ''/engine-rest/deployment'')"

text \<open>\<open>getDeploymentListAllRaw\<close> for one shard after the other, with what is done to each answer.\<close>

fun over_shards ::
  "'e tools \<Rightarrow> (string \<Rightarrow> RawDeployment list \<Rightarrow> 'e \<Rightarrow> 'a \<Rightarrow> 'a res) \<Rightarrow> string list \<Rightarrow> 'a \<Rightarrow> 'e \<Rightarrow> 'a res \<times> 'e" where
  "over_shards tls f [] acc e = (Inr acc, e)"
| "over_shards tls f (shard # rest) acc e =
     (case getDeploymentListAllRaw tls shard e of
        (Inl err, e1) \<Rightarrow> (Inl err, e1)
      | (Inr deployments, e1) \<Rightarrow>
          (case f shard deployments e1 acc of
             Inl err \<Rightarrow> (Inl err, e1)
           | Inr acc1 \<Rightarrow> over_shards tls f rest acc1 e1))"

text \<open>
  The beginning of both searches: the shards, the relation, and an error when there is no shard;
  \<open>None\<close> when \<open>GetRelations\<close> panics.
\<close>

definition with_relations ::
  "'e tools \<Rightarrow> (string list \<Rightarrow> (string \<rightharpoonup> string) \<Rightarrow> 'e \<Rightarrow> 'a res \<times> 'e) \<Rightarrow> 'e tool_state \<Rightarrow>
   'a res option \<times> 'e tool_state" where
  "with_relations tls k st =
     (case GetShards (none_use (tl_marshal tls) (tl_unmarshal tls)) ((), ts_shards st) of
        (Inl err, _, s1) \<Rightarrow> (Some (Inl err), st\<lparr>ts_shards := s1\<rparr>)
      | (Inr shards, _, s1) \<Rightarrow>
          (case GetRelations (ts_vids st) of
             (None, v1) \<Rightarrow> (None, st\<lparr>ts_shards := s1, ts_vids := v1\<rparr>)
           | (Some (Inl err), v1) \<Rightarrow> (Some (Inl err), st\<lparr>ts_shards := s1, ts_vids := v1\<rparr>)
           | (Some (Inr (byVid, byDeplId)), v1) \<Rightarrow>
               if shards = [] then (Some (Inl (ErrMsg ''no shards found'')), st\<lparr>ts_shards := s1, ts_vids := v1\<rparr>)
               else (case k shards byDeplId (ts_env st) of
                       (r, e1) \<Rightarrow> (Some r, \<lparr>ts_shards = s1, ts_vids = v1, ts_env = e1\<rparr>))))"

section \<open>Deployments without a virtual id\<close>

text \<open>The inner loop; the result is a map from shards to the ids found there.\<close>

fun collect_pids ::
  "'e tools \<Rightarrow> rat \<Rightarrow> (string \<rightharpoonup> string) \<Rightarrow> string \<Rightarrow> RawDeployment list \<Rightarrow> 'e \<Rightarrow> url_values \<Rightarrow> url_values res" where
  "collect_pids tls buffer byDeplId shard [] e acc = Inr acc"
| "collect_pids tls buffer byDeplId shard (depl # ds) e acc =
     (case tl_parse_time tls (rd_DeploymentTime depl) of
        Inl err \<Rightarrow> Inl err
      | Inr deplTime \<Rightarrow>
          collect_pids tls buffer byDeplId shard ds e
            (if byDeplId (rd_Id depl) = None \<and> tl_now tls e - deplTime > buffer
             then values_add shard (rd_Id depl) acc else acc))"

definition FindUnlinkedPid ::
  "'e tools \<Rightarrow> rat \<Rightarrow> 'e tool_state \<Rightarrow> url_values res option \<times> 'e tool_state" where
  "FindUnlinkedPid tls buffer =
     with_relations tls (\<lambda>shards byDeplId. over_shards tls (collect_pids tls buffer byDeplId) shards [])"

section \<open>Virtual ids without a deployment\<close>

definition FindUnlinkedVid :: "'e tools \<Rightarrow> 'e tool_state \<Rightarrow> string list res option \<times> 'e tool_state" where
  "FindUnlinkedVid tls =
     with_relations tls (\<lambda>shards byDeplId e.
       (case over_shards tls (\<lambda>shard ds e1 deplIndex. Inr (deplIndex @ map rd_Id ds)) shards [] e of
          (Inl err, e1) \<Rightarrow> (Inl err, e1)
        | (Inr deplIndex, e1) \<Rightarrow>
            (Inr (map snd (filter (\<lambda>(did, vid). did \<notin> set deplIndex) (tl_range tls byDeplId))), e1)))"

section \<open>Removing\<close>

text \<open>\<open>None\<close>: the panic of a URL that does not parse.\<close>

definition removeProcess :: "'e tools \<Rightarrow> string \<Rightarrow> string \<Rightarrow> 'e \<Rightarrow> unit res option \<times> 'e" where
  "removeProcess tls shard deploymentId e =
     (case tl_anonymous tls shard of
        None \<Rightarrow> (None, e)
      | Some anonymousShard \<Rightarrow>
          (case tl_net tls (delete_request (shard @ ''/engine-rest/deployment/'' @ deploymentId @
                 ''?cascade=true&skipIoMappings=true'')) e of
             (HttpFail err, e1) \<Rightarrow> (Some (Inl err), e1)
           | (Reply st status bd js, e1) \<Rightarrow>
               if st \<ge> 300
               then (Some (Inl (ErrMsg (''unable to delete '' @ anonymousShard @ '' '' @ deploymentId @ '' '' @
                       itoa (nat st) @ '' '' @ bd))), e1)
               else (Some (Inr ()), e1)))"

fun remove_all :: "'e tools \<Rightarrow> (string \<times> string) list \<Rightarrow> 'e \<Rightarrow> unit res option \<times> 'e" where
  "remove_all tls [] e = (Some (Inr ()), e)"
| "remove_all tls ((shard, pid) # rest) e =
     (case removeProcess tls shard pid e of
        (Some (Inr _), e1) \<Rightarrow> remove_all tls rest e1
      | (r, e1) \<Rightarrow> (r, e1))"

text \<open>The pairs of a map in the order of the two loops, for the map in the order of its visit.\<close>

definition pairs_of_map :: "url_values \<Rightarrow> (string \<times> string) list" where
  "pairs_of_map ids = concat (map (\<lambda>(shard, pids). map (\<lambda>pid. (shard, pid)) pids) ids)"

definition RemovePid :: "'e tools \<Rightarrow> url_values \<Rightarrow> 'e \<Rightarrow> unit res option \<times> 'e" where
  "RemovePid tls ids = remove_all tls (pairs_of_map ids)"

fun RemoveVid :: "'e transport \<Rightarrow> string \<Rightarrow> string \<Rightarrow> string list \<Rightarrow> 'e \<Rightarrow> unit res \<times> 'e" where
  "RemoveVid tr token port [] e = (Inr (), e)"
| "RemoveVid tr token port (i # ids) e =
     (case Client_DeleteDeployment tr (''http://localhost:'' @ port) token '''' i e of
        ((Inl err, code), e1) \<Rightarrow> (Inl err, e1)
      | ((Inr _, code), e1) \<Rightarrow> RemoveVid tr token port ids e1)"

section \<open>The commands\<close>

text \<open>The arguments of \<open>remove-pid\<close>: pairs of a shard and an id, gathered by shard.\<close>

fun pair_args :: "string list \<Rightarrow> url_values \<Rightarrow> url_values" where
  "pair_args (shardUrl # pid # inputs) m = pair_args inputs (values_add shardUrl pid m)"
| "pair_args _ m = m"

text \<open>
  The confirmation: the line that is read, without surrounding white space, has to be \<open>y\<close> or \<open>Y\<close>;
  any other answer ends the command without an error.
\<close>

definition confirmed :: "bool \<Rightarrow> string res \<Rightarrow> bool res" where
  "confirmed noConfirmation line =
     (if noConfirmation then Inr True
      else (case line of Inl err \<Rightarrow> Inl err | Inr s \<Rightarrow> Inr (TrimSpace s = ''y'' \<or> TrimSpace s = ''Y'')))"

definition removePids ::
  "'e tools \<Rightarrow> string list \<Rightarrow> bool \<Rightarrow> string res \<Rightarrow> 'e \<Rightarrow> unit res option \<times> 'e" where
  "removePids tls inputs noConfirmation line e =
     (if length inputs mod 2 \<noteq> 0
      then (Some (Inl (ErrMsg ''expect even count of arguments, with pairs of shard-urls and pid'')), e)
      else (case confirmed noConfirmation line of
              Inl err \<Rightarrow> (Some (Inl err), e)
            | Inr False \<Rightarrow> (Some (Inr ()), e)
            | Inr True \<Rightarrow> RemovePid tls (pair_args inputs []) e))"

definition removeVids ::
  "'e transport \<Rightarrow> string \<Rightarrow> string \<Rightarrow> string list \<Rightarrow> bool \<Rightarrow> string res \<Rightarrow> 'e \<Rightarrow> unit res \<times> 'e" where
  "removeVids tr token port inputs noConfirmation line e =
     (case confirmed noConfirmation line of
        Inl err \<Rightarrow> (Inl err, e)
      | Inr False \<Rightarrow> (Inr (), e)
      | Inr True \<Rightarrow> RemoveVid tr token port inputs e)"

text \<open>What \<open>list-unlinked-pid\<close> prints, word by word.\<close>

definition printed_pids :: "url_values \<Rightarrow> string list" where
  "printed_pids m = concat (map (\<lambda>(shard, pid). [shard, pid]) (pairs_of_map m))"

definition printUnlinkedPid :: "'e tools \<Rightarrow> 'e tool_state \<Rightarrow> string list res option \<times> 'e tool_state" where
  "printUnlinkedPid tls st =
     (case FindUnlinkedPid tls (24 * 3600) st of
        (r, st1) \<Rightarrow> (map_option (Sum_Type.map_sum (\<lambda>err. err) printed_pids) r, st1))"

definition printUnlinkedVid :: "'e tools \<Rightarrow> 'e tool_state \<Rightarrow> string list res option \<times> 'e tool_state" where
  "printUnlinkedVid = FindUnlinkedVid"

text \<open>
  The dispatch of \<open>main\<close>: the status of the process (1 after \<open>log.Fatal\<close>, 2 after a panic) and the
  lines that it has printed.
\<close>

definition tool_ending :: "string list res option \<Rightarrow> int \<times> string list" where
  "tool_ending r = (case r of None \<Rightarrow> (2, []) | Some (Inl err) \<Rightarrow> (1, []) | Some (Inr ls) \<Rightarrow> (0, ls))"

definition silent :: "unit res \<Rightarrow> string list res" where
  "silent r = (case r of Inl err \<Rightarrow> Inl err | Inr _ \<Rightarrow> Inr [])"

definition cleanup_main ::
  "'e tools \<Rightarrow> 'e transport \<Rightarrow> string \<Rightarrow> string \<Rightarrow> bool \<Rightarrow> string res \<Rightarrow> string list \<Rightarrow> 'e tool_state \<Rightarrow>
   (int \<times> string list) \<times> 'e tool_state" where
  "cleanup_main tls tr token port noConfirmation line args st =
     (case args of
        [] \<Rightarrow> ((1, []), st)
      | cmd # inputs \<Rightarrow>
          if cmd = ''list-unlinked-vid'' then map_prod tool_ending id (printUnlinkedVid tls st)
          else if cmd = ''list-unlinked-pid'' then map_prod tool_ending id (printUnlinkedPid tls st)
          else if cmd = ''remove-vid'' then
            (case removeVids tr token port inputs noConfirmation line (ts_env st) of
               (r, e) \<Rightarrow> (tool_ending (Some (silent r)), st\<lparr>ts_env := e\<rparr>))
          else if cmd = ''remove-pid'' then
            (case removePids tls inputs noConfirmation line (ts_env st) of
               (r, e) \<Rightarrow> (tool_ending (map_option silent r), st\<lparr>ts_env := e\<rparr>))
          else ((1, []), st))"

end
