(* ===== verification/Migration.thy ===== *)
theory Migration
  imports Cleanup "HOL-Library.Word"
begin

text \<open>
  Adding an engine to the wrapper and removing it (\<open>lib/shardmigration\<close>, called by the commands
  \<open>addshard\<close> and \<open>removeshard\<close>). Adding reads the tenants of all deployments of the engine, page
  by page, and moves each of them to the engine. The loop over the pages may not end, so it is a
  partial function; its counters are the 64 bit integers of the code. The network is a parameter.
\<close>

type_synonym int64 = "64 word"

section \<open>The pages of the engine\<close>

record TenantWrapper =
  tw_TenantId :: string

definition decode_TenantWrapper :: "json \<Rightarrow> TenantWrapper res" where
  "decode_TenantWrapper =
     decode_struct [(''tenantId'', string_field tw_TenantId_update)] \<lparr>tw_TenantId = ''''\<rparr>"

text \<open>\<open>strconv.Itoa\<close> of a signed integer.\<close>

definition Itoa :: "int64 \<Rightarrow> string" where
  "Itoa i = (if sint i < 0 then CHR ''-'' # itoa (nat (- sint i)) else itoa (nat (sint i)))"

definition tenants_url :: "string \<Rightarrow> int64 \<Rightarrow> int64 \<Rightarrow> string" where
  "tenants_url camundaUrl limit offset =
     camundaUrl @ ''/engine-rest/deployment?firstResult='' @ Itoa offset @ ''&maxResults='' @ Itoa limit"

definition getDeploymentTenants ::
  "(request \<Rightarrow> 'e \<Rightarrow> reply \<times> 'e) \<Rightarrow> string \<Rightarrow> int64 \<Rightarrow> int64 \<Rightarrow> 'e \<Rightarrow> string list res \<times> 'e" where
  "getDeploymentTenants net camundaUrl limit offset e =
     (case net (get_request (tenants_url camundaUrl limit offset)) e of
        (HttpFail err, e1) \<Rightarrow> (Inl err, e1)
      | (Reply st status bd js, e1) \<Rightarrow>
          (case Sum_Type.case_sum Inl (decode_list decode_TenantWrapper) js of
             Inl err \<Rightarrow> (Inl err, e1)
           | Inr temp \<Rightarrow> (Inr (map tw_TenantId temp), e1)))"

text \<open>
  \<open>for count == batchSize { .. }\<close>, with the set of tenants as a list without repetitions. \<open>None\<close>: the
  loop does not end.
\<close>

partial_function (option) load_tenants ::
  "(request \<Rightarrow> 'e \<Rightarrow> reply \<times> 'e) \<Rightarrow> string \<Rightarrow> int64 \<Rightarrow> int64 \<Rightarrow> int64 \<Rightarrow> string list \<Rightarrow> 'e \<Rightarrow>
   (string list res \<times> 'e) option" where
  "load_tenants net camundaUrl batchSize offset cnt tenantSet e =
     (if cnt = batchSize then
        (case getDeploymentTenants net camundaUrl batchSize offset e of
           (Inl err, e1) \<Rightarrow> Some (Inl err, e1)
         | (Inr tenants, e1) \<Rightarrow>
             load_tenants net camundaUrl batchSize (offset + batchSize) (of_nat (length tenants))
               (fold List.insert tenants tenantSet) e1)
      else Some (Inr tenantSet, e))"

section \<open>Adding and removing\<close>

text \<open>The handle of \<open>shards.New\<close> with the cache \<open>None\<close>.\<close>

type_synonym shards_handle = "unit \<times> shard_db sql"

fun move_tenants :: "string \<Rightarrow> string list \<Rightarrow> shards_handle \<Rightarrow> unit res \<times> shards_handle" where
  "move_tenants camundaUrl [] s = (Inr (), s)"
| "move_tenants camundaUrl (tenant # rest) s =
     (case SetShardForUser none_invalidate tenant camundaUrl s of
        (Inl err, s1) \<Rightarrow> (Inl err, s1)
      | (Inr _, s1) \<Rightarrow> move_tenants camundaUrl rest s1)"

text \<open>\<open>ord\<close> is the order in which \<open>range\<close> visits the set.\<close>

definition Add ::
  "(request \<Rightarrow> 'e \<Rightarrow> reply \<times> 'e) \<Rightarrow> (string list \<Rightarrow> string list) \<Rightarrow> string \<Rightarrow> int64 \<Rightarrow> shards_handle \<times> 'e \<Rightarrow>
   (unit res \<times> shards_handle \<times> 'e) option" where
  "Add net ord camundaUrl batchSize se =
     (case se of (s, e) \<Rightarrow>
        (case load_tenants net camundaUrl batchSize 0 batchSize [] e of
           None \<Rightarrow> None
         | Some (Inl err, e1) \<Rightarrow> Some (Inl err, s, e1)
         | Some (Inr tenantSet, e1) \<Rightarrow>
             (case EnsureShard camundaUrl s of
                (Inl err, s1) \<Rightarrow> Some (Inl err, s1, e1)
              | (Inr _, s1) \<Rightarrow>
                  (case move_tenants camundaUrl (ord tenantSet) s1 of (r, s2) \<Rightarrow> Some (r, s2, e1)))))"

definition Remove :: "string \<Rightarrow> shards_handle \<Rightarrow> unit res \<times> shards_handle" where
  "Remove camundaUrl s = RemoveShard camundaUrl s"

text \<open>The batch of the command \<open>addshard\<close>.\<close>

definition add_shard ::
  "(request \<Rightarrow> 'e \<Rightarrow> reply \<times> 'e) \<Rightarrow> (string list \<Rightarrow> string list) \<Rightarrow> string \<Rightarrow> shards_handle \<times> 'e \<Rightarrow>
   (unit res \<times> shards_handle \<times> 'e) option" where
  "add_shard net ord camundaUrl = Add net ord camundaUrl 100"

section \<open>The loop over the pages\<close>

text \<open>
  An engine with the tenants \<open>ts\<close> of its deployments, in its order: a request for a page answers that
  page of them (the documented \<open>firstResult\<close> and \<open>maxResults\<close>), up to the first page behind the end.
\<close>

definition page :: "'a list \<Rightarrow> nat \<Rightarrow> nat \<Rightarrow> 'a list" where
  "page xs batch k = take batch (drop (k * batch) xs)"

definition page_request :: "string \<Rightarrow> nat \<Rightarrow> nat \<Rightarrow> request" where
  "page_request camundaUrl batch k =
     get_request (tenants_url camundaUrl (of_nat batch) (of_nat (k * batch)))"

text \<open>The state of the network after a list of requests, and after the requests for the first pages.\<close>

definition after :: "(request \<Rightarrow> 'e \<Rightarrow> reply \<times> 'e) \<Rightarrow> request list \<Rightarrow> 'e \<Rightarrow> 'e" where
  "after net rqs e = fold (\<lambda>rq e. snd (net rq e)) rqs e"

definition after_pages ::
  "(request \<Rightarrow> 'e \<Rightarrow> reply \<times> 'e) \<Rightarrow> string \<Rightarrow> nat \<Rightarrow> nat \<Rightarrow> 'e \<Rightarrow> 'e" where
  "after_pages net camundaUrl batch n e = after net (map (page_request camundaUrl batch) [0..<n]) e"

lemma after_pages_Suc:
  "after_pages net camundaUrl batch (Suc n) e =
     snd (net (page_request camundaUrl batch n) (after_pages net camundaUrl batch n e))"
  by (simp add: after_pages_def after_def)

text \<open>
  In a state of the surroundings: the engine answers the request for a page with that page; or the
  request fails, in the network or because the body is no list of deployments.
\<close>

definition answers_page ::
  "(request \<Rightarrow> 'e \<Rightarrow> reply \<times> 'e) \<Rightarrow> string \<Rightarrow> nat \<Rightarrow> string list \<Rightarrow> nat \<Rightarrow> 'e \<Rightarrow> bool" where
  "answers_page net camundaUrl batch ts k e \<longleftrightarrow>
     (\<exists>st status bd js e1. net (page_request camundaUrl batch k) e = (Reply st status bd (Inr js), e1) \<and>
        decode_list decode_TenantWrapper js = Inr (map TenantWrapper.make (page ts batch k)))"

definition page_error ::
  "(request \<Rightarrow> 'e \<Rightarrow> reply \<times> 'e) \<Rightarrow> string \<Rightarrow> nat \<Rightarrow> nat \<Rightarrow> 'e \<Rightarrow> goerror option" where
  "page_error net camundaUrl batch k e =
     (case fst (net (page_request camundaUrl batch k) e) of
        HttpFail err \<Rightarrow> Some err
      | Reply st status bd (Inl err) \<Rightarrow> Some err
      | Reply st status bd (Inr js) \<Rightarrow>
          (case decode_list decode_TenantWrapper js of Inl err \<Rightarrow> Some err | Inr x \<Rightarrow> None))"

text \<open>
  The replies to one run of the loop, when the engine has the tenants \<open>ts\<close>: \<open>n\<close> pages are answered,
  which are all, or up to the one at which the error \<open>err\<close> occurs.
\<close>

definition engine_pages ::
  "(request \<Rightarrow> 'e \<Rightarrow> reply \<times> 'e) \<Rightarrow> string \<Rightarrow> nat \<Rightarrow> string list \<Rightarrow> nat \<Rightarrow> goerror option \<Rightarrow> 'e \<Rightarrow> bool" where
  "engine_pages net camundaUrl batch ts n failure e \<longleftrightarrow>
     (\<forall>k < n. answers_page net camundaUrl batch ts k (after_pages net camundaUrl batch k e)) \<and>
     (case failure of
        None \<Rightarrow> n = Suc (length ts div batch)
      | Some err \<Rightarrow> n * batch \<le> length ts \<and>
          page_error net camundaUrl batch n (after_pages net camundaUrl batch n e) = Some err)"

text \<open>An engine that always answers, in every state of the surroundings.\<close>

definition lists_tenants ::
  "(request \<Rightarrow> 'e \<Rightarrow> reply \<times> 'e) \<Rightarrow> string \<Rightarrow> nat \<Rightarrow> string list \<Rightarrow> bool" where
  "lists_tenants net camundaUrl batch ts \<longleftrightarrow>
     (\<forall>k e. k * batch \<le> length ts \<longrightarrow> answers_page net camundaUrl batch ts k e)"

lemma div_page: "0 < batch \<Longrightarrow> k < Suc (length ts div batch) \<Longrightarrow> k * batch \<le> length ts"
  by (simp add: less_eq_div_iff_mult_less_eq less_Suc_eq_le)

lemma lists_engine_pages:
  "lists_tenants net camundaUrl batch ts \<Longrightarrow> 0 < batch \<Longrightarrow>
     engine_pages net camundaUrl batch ts (Suc (length ts div batch)) None e"
  by (simp add: lists_tenants_def engine_pages_def div_page)

lemma tenants_of_page:
  assumes "answers_page net camundaUrl batch ts k e"
  shows "getDeploymentTenants net camundaUrl (of_nat batch) (of_nat (k * batch)) e =
    (Inr (page ts batch k), snd (net (page_request camundaUrl batch k) e))"
proof -
  have c: "map (tw_TenantId \<circ> TenantWrapper.make) xs = xs" for xs
    by (induction xs) (simp_all add: TenantWrapper.make_def)
  from assms show ?thesis unfolding answers_page_def
    by (auto simp: getDeploymentTenants_def page_request_def c)
qed

lemma error_of_page:
  "page_error net camundaUrl batch k e = Some err \<Longrightarrow>
     getDeploymentTenants net camundaUrl (of_nat batch) (of_nat (k * batch)) e =
       (Inl err, snd (net (page_request camundaUrl batch k) e))"
  by (auto simp: page_error_def getDeploymentTenants_def page_request_def split: prod.splits reply.splits sum.splits)

lemma word_of_length: "m < 2 ^ 63 \<Longrightarrow> n < 2 ^ 63 \<Longrightarrow> (of_nat m :: int64) = of_nat n \<longleftrightarrow> m = n"
  by (simp add: word_of_nat_eq_iff take_bit_nat_eq_self)

text \<open>One round: the next page is the last, or the loop goes on behind it.\<close>

lemma load_tenants_round:
  assumes "answers_page net camundaUrl batch ts k e" and "k * batch \<le> length ts"
    and "0 < batch" and "length ts + batch < 2 ^ 63"
  shows "load_tenants net camundaUrl (of_nat batch) (of_nat (k * batch)) (of_nat batch) acc e =
    (let acc1 = fold List.insert (page ts batch k) acc; e1 = snd (net (page_request camundaUrl batch k) e)
     in if Suc k * batch \<le> length ts
        then load_tenants net camundaUrl (of_nat batch) (of_nat (Suc k * batch)) (of_nat batch) acc1 e1
        else Some (Inr acc1, e1))"
proof -
  have l: "length (page ts batch k) = min batch (length ts - k * batch)" by (simp add: page_def)
  with assms(3) have "length (page ts batch k) = batch \<longleftrightarrow> Suc k * batch \<le> length ts" by auto
  moreover have "(of_nat (length (page ts batch k)) :: int64) = of_nat batch \<longleftrightarrow> length (page ts batch k) = batch"
    using l assms(4) by (intro word_of_length) auto
  moreover have "(of_nat (k * batch) + of_nat batch :: int64) = of_nat (Suc k * batch)" by simp
  moreover have "load_tenants net camundaUrl (of_nat batch) (of_nat (k * batch)) (of_nat batch) acc e =
      load_tenants net camundaUrl (of_nat batch) (of_nat (k * batch) + of_nat batch)
        (of_nat (length (page ts batch k))) (fold List.insert (page ts batch k) acc)
        (snd (net (page_request camundaUrl batch k) e))"
    using tenants_of_page [OF assms(1)] by (subst load_tenants.simps) simp
  moreover have "load_tenants net camundaUrl (of_nat batch) off (of_nat n) acc1 e1 = Some (Inr acc1, e1)"
    if "(of_nat n :: int64) \<noteq> of_nat batch" for off n acc1 e1
    using that by (subst load_tenants.simps) simp
  ultimately show ?thesis unfolding Let_def by presburger
qed

text \<open>Behind \<open>n\<close> full pages, the loop has their tenants and goes on with the next page.\<close>

lemma load_tenants_full_pages:
  assumes "\<forall>k < n. answers_page net camundaUrl batch ts k (after_pages net camundaUrl batch k e)"
    and "n * batch \<le> length ts" and "0 < batch" and "length ts + batch < 2 ^ 63"
  shows "load_tenants net camundaUrl (of_nat batch) 0 (of_nat batch) [] e =
    load_tenants net camundaUrl (of_nat batch) (of_nat (n * batch)) (of_nat batch)
      (fold List.insert (take (n * batch) ts) []) (after_pages net camundaUrl batch n e)"
  using assms(1,2)
proof (induction n)
  case (Suc n)
  have "fold List.insert (page ts batch n) (fold List.insert (take (n * batch) ts) []) =
      fold List.insert (take (Suc n * batch) ts) []"
    by (simp add: page_def add.commute [of batch] take_add)
  moreover have "n * batch \<le> length ts" using Suc.prems(2) by simp
  ultimately show ?case
    using Suc.IH Suc.prems load_tenants_round [OF _ _ assms(3,4), of net camundaUrl n
        "after_pages net camundaUrl batch n e" "fold List.insert (take (n * batch) ts) []"]
    by (simp add: Let_def after_pages_Suc)
qed (simp add: after_pages_def after_def)

lemma load_tenants_pages:
  assumes "engine_pages net camundaUrl batch ts n failure e"
    and "0 < batch" and "length ts + batch < 2 ^ 63"
  shows "\<exists>m. load_tenants net camundaUrl (of_nat batch) 0 (of_nat batch) [] e =
      Some (case failure of None \<Rightarrow> Inr (fold List.insert ts []) | Some err \<Rightarrow> Inl err,
        after_pages net camundaUrl batch m e) \<and> (failure = None \<longrightarrow> m = n)"
proof (cases failure)
  case None
  define k where "k = length ts div batch"
  have n: "n = Suc k" and pages: "\<forall>j < Suc k. answers_page net camundaUrl batch ts j (after_pages net camundaUrl batch j e)"
    using assms(1) None by (simp_all add: engine_pages_def k_def)
  have k: "k * batch \<le> length ts" unfolding k_def by (simp add: div_page assms(2))
  have "length ts < Suc k * batch" using dividend_less_times_div [OF assms(2), of "length ts"]
    by (simp add: k_def mult.commute)
  moreover from this k have "fold List.insert (page ts batch k) (fold List.insert (take (k * batch) ts) []) =
      fold List.insert ts []"
    by (simp add: page_def) (metis append_take_drop_id comp_apply fold_append)
  ultimately show ?thesis
    using None n pages load_tenants_full_pages [OF _ k assms(2,3), of net camundaUrl e]
      load_tenants_round [OF _ k assms(2,3), of net camundaUrl "after_pages net camundaUrl batch k e"]
    by (simp add: Let_def after_pages_Suc)
next
  case (Some err)
  let ?e = "after_pages net camundaUrl batch n e"
  from assms(1) Some have "page_error net camundaUrl batch n ?e = Some err" by (simp add: engine_pages_def)
  from error_of_page [OF this] have "getDeploymentTenants net camundaUrl (of_nat batch) (of_nat (n * batch)) ?e =
      (Inl err, after_pages net camundaUrl batch (Suc n) e)" by (simp only: after_pages_Suc)
  then have "load_tenants net camundaUrl (of_nat batch) (of_nat (n * batch)) (of_nat batch) acc ?e =
      Some (Inl err, after_pages net camundaUrl batch (Suc n) e)" for acc
    by (subst load_tenants.simps) simp
  with assms Some load_tenants_full_pages [of n net camundaUrl batch ts e] show ?thesis
    by (auto simp: engine_pages_def)
qed

lemma set_fold_insert: "set (fold List.insert xs acc) = set xs \<union> set acc"
  by (induction xs arbitrary: acc) auto

section \<open>Moving the tenants\<close>

lemma ensured_shard:
  assumes "EnsureShard a (c, s) = (r, c1, s1)"
  shows "mapping_table (committed s1) = mapping_table (committed s)"
    and "r = Inr () \<Longrightarrow> a \<in> set (shard_table (committed s1))"
    and "set (shard_table (committed s1)) \<subseteq> insert a (set (shard_table (committed s)))"
proof -
  have e: "exec_db (SqlEnsureShard a) s = (r, s1)"
    using assms by (simp add: EnsureShard_def exec_def split: prod.splits)
  have q: "SqlEnsureShard a d = Inr (x, d1) \<Longrightarrow>
      mapping_table d1 = mapping_table d \<and> set (shard_table d1) = insert a (set (shard_table d))" for d x d1
    by (auto simp: SqlEnsureShard_def split: if_splits)
  show "mapping_table (committed s1) = mapping_table (committed s)"
    "r = Inr () \<Longrightarrow> a \<in> set (shard_table (committed s1))"
    "set (shard_table (committed s1)) \<subseteq> insert a (set (shard_table (committed s)))"
    using exec_db_cases [OF e] q by (metis, metis insertI1, metis order_refl subset_insertI)
qed

lemma move_tenants_moves:
  assumes "move_tenants a ts (c, s) = (r, c1, s1)"
  shows "shard_of (committed s1) u = shard_of (committed s) u \<or> u \<in> set ts \<and> shard_of (committed s1) u = Some a"
    and "r = Inr () \<Longrightarrow> u \<in> set ts \<Longrightarrow> shard_of (committed s1) u = Some a"
    and "shard_table (committed s1) = shard_table (committed s)"
proof -
  have "(\<forall>u. shard_of (committed s1) u = shard_of (committed s) u \<or>
        u \<in> set ts \<and> shard_of (committed s1) u = Some a) \<and>
      (r = Inr () \<longrightarrow> (\<forall>u \<in> set ts. shard_of (committed s1) u = Some a)) \<and>
      shard_table (committed s1) = shard_table (committed s)"
    using assms
  proof (induction ts arbitrary: c s)
    case (Cons t ts)
    obtain r0 c0 s0 where t: "SetShardForUser none_invalidate t a (c, s) = (r0, c0, s0)" by (metis prod_cases3)
    note at = SetShardForUser_atomic [OF t]
    have m: "shard_of (committed s0) u = shard_of (committed s) u \<or> u = t \<and> shard_of (committed s0) u = Some a"
      "shard_table (committed s0) = shard_table (committed s)" for u
      using at(1) by (auto simp: moves_def split: if_splits)
    show ?case
    proof (cases r0)
      case (Inl err)
      with Cons.prems t m show ?thesis by auto
    next
      case (Inr x)
      then have "shard_of (committed s0) t = Some a" using at(2) by (simp add: moves_at)
      moreover have "move_tenants a ts (c0, s0) = (r, c1, s1)" using Cons.prems t Inr by simp
      ultimately show ?thesis using Cons.IH m by (metis list.set_intros insert_iff list.simps(15))
    qed
  qed simp
  then show "shard_of (committed s1) u = shard_of (committed s) u \<or> u \<in> set ts \<and> shard_of (committed s1) u = Some a"
    "r = Inr () \<Longrightarrow> u \<in> set ts \<Longrightarrow> shard_of (committed s1) u = Some a"
    "shard_table (committed s1) = shard_table (committed s)" by auto
qed

lemma healthy_SetShardForUser:
  assumes "healthy s" and "varchar255 u" and "varchar255 a" and "a \<in> set (shard_table (committed s))"
  obtains s1 where "SetShardForUser none_invalidate u a (c, s) = (Inr (), c, s1)" "healthy s1"
    "shard_table (committed s1) = shard_table (committed s)"
proof -
  let ?others = "filter (\<lambda>m. fst m \<noteq> u) (mapping_table (committed s))"
  let ?d = "(committed s)\<lparr>mapping_table := ?others @ [(u, a)]\<rparr>"
  have f: "faults s = []" using assms(1) by (simp add: healthy_def)
  have u: "u \<notin> fst ` set ?others" by auto
  have "SetShardForUser none_invalidate u a (c, s) = (Inr (), c, s\<lparr>tx := None, committed := ?d\<rparr>)"
    using assms(2-4) u by (simp add: SetShardForUser_def set_shard_tx_def andThen_def orRollback_def
      begin_tx_def next_fault_def f removeShardForUser_def addShardForUser_def exec_def exec_tx_def
      SqlDeleteUserShard_def SqlCreateUserShard_def commit_def none_invalidate_def del: set_filter)
  then show ?thesis by (rule that) (use assms(1) in \<open>simp_all add: healthy_def\<close>)
qed

lemma healthy_move_tenants:
  assumes "healthy s" and "list_all varchar255 ts" and "varchar255 a" and "a \<in> set (shard_table (committed s))"
  shows "fst (move_tenants a ts (c, s)) = Inr ()"
  using assms
proof (induction ts arbitrary: s)
  case (Cons t ts)
  then obtain s1 where "SetShardForUser none_invalidate t a (c, s) = (Inr (), c, s1)" "healthy s1"
    "shard_table (committed s1) = shard_table (committed s)"
    by (auto elim: healthy_SetShardForUser)
  with Cons show ?case by simp
qed simp

section \<open>An engine for demonstrations\<close>

text \<open>Three deployments of two tenants, in pages of two; every other request is answered by an empty list.\<close>

definition deployment_json :: "string \<Rightarrow> json" where
  "deployment_json tenant = JObj [(''id'', JStr ''d''), (''tenantId'', JStr tenant)]"

definition demo_pages :: "request \<Rightarrow> reply" where
  "demo_pages rq = Reply 200 ''200 OK'' '''' (Inr (JArr (map deployment_json
     (if has_suffix (rq_url rq) ''?firstResult=0&maxResults=2'' then [''alice'', ''bob'']
      else if has_suffix (rq_url rq) ''?firstResult=2&maxResults=2'' then [''alice''] else []))))"

lemma decode_tenants:
  "decode_list decode_TenantWrapper (JArr (map deployment_json ts)) = Inr (map TenantWrapper.make ts)"
proof -
  have "decode_elems decode_TenantWrapper (map deployment_json ts) = Inr (map TenantWrapper.make ts)"
    by (induction ts) (simp_all add: deployment_json_def decode_TenantWrapper_def decode_struct_def
        find_field_def string_field_def TenantWrapper.make_def)
  then show ?thesis by (simp add: decode_list_def)
qed

lemma demo_digits: "itoa 0 = ''0''" "itoa 2 = ''2''"
  by code_simp+

lemma demo_lists_tenants:
  "lists_tenants (\<lambda>rq e. (demo_pages rq, f rq e)) ''s3'' 2 [''alice'', ''bob'', ''alice'']"
  unfolding lists_tenants_def answers_page_def
proof (intro allI impI)
  fix k :: nat and e assume "k * 2 \<le> length [''alice'', ''bob'', ''alice'']"
  then have "k = 0 \<or> k = 1" by auto
  moreover have "demo_pages (page_request ''s3'' 2 0) =
      Reply 200 ''200 OK'' '''' (Inr (JArr (map deployment_json [''alice'', ''bob''])))"
    "demo_pages (page_request ''s3'' 2 1) =
      Reply 200 ''200 OK'' '''' (Inr (JArr (map deployment_json [''alice''])))"
    by (simp_all add: demo_pages_def page_request_def get_request_def tenants_url_def Itoa_def has_suffix_def demo_digits)
  ultimately show "\<exists>st status bd js e1. (demo_pages (page_request ''s3'' 2 k), f (page_request ''s3'' 2 k) e) =
      (Reply st status bd (Inr js), e1) \<and>
      decode_list decode_TenantWrapper js = Inr (map TenantWrapper.make (page [''alice'', ''bob'', ''alice''] 2 k))"
    by (elim disjE) (auto simp: page_def decode_tenants simp del: list.map)
qed

lemma demo_lists_nothing:
  "lists_tenants (\<lambda>rq e. (demo_pages rq, e)) ''s3'' 0 [''alice'', ''bob'', ''alice'']"
  unfolding lists_tenants_def answers_page_def
proof (intro allI impI exI conjI)
  fix k :: nat and e
  show "(demo_pages (page_request ''s3'' 0 k), e) =
      (Reply 200 ''200 OK'' '''' (Inr (JArr (map deployment_json []))), e)"
    by (simp add: demo_pages_def page_request_def get_request_def tenants_url_def Itoa_def has_suffix_def demo_digits)
  show "decode_list decode_TenantWrapper (JArr (map deployment_json [])) =
      Inr (map TenantWrapper.make (page [''alice'', ''bob'', ''alice''] 0 k))"
    unfolding decode_tenants by (simp add: page_def)
qed

section \<open>What adding an engine does\<close>

lemma Add_pages:
  assumes "engine_pages net camundaUrl batch ts n failure e" and "0 < batch" and "length ts + batch < 2 ^ 63"
  shows "\<exists>m. Add net ord camundaUrl (of_nat batch) (s, e) =
    (let e1 = after_pages net camundaUrl batch m e
     in case failure of
          Some err \<Rightarrow> Some (Inl err, s, e1)
        | None \<Rightarrow>
            (case EnsureShard camundaUrl s of
               (Inl err, s1) \<Rightarrow> Some (Inl err, s1, e1)
             | (Inr _, s1) \<Rightarrow>
                 (case move_tenants camundaUrl (ord (fold List.insert ts [])) s1 of (r, s2) \<Rightarrow> Some (r, s2, e1)))) \<and>
    (failure = None \<longrightarrow> m = n)"
proof -
  obtain m where "load_tenants net camundaUrl (of_nat batch) 0 (of_nat batch) [] e =
      Some (case failure of None \<Rightarrow> Inr (fold List.insert ts []) | Some err \<Rightarrow> Inl err,
        after_pages net camundaUrl batch m e)" "failure = None \<longrightarrow> m = n"
    using load_tenants_pages [OF assms] by blast
  then show ?thesis by (intro exI [of _ m]) (simp add: Add_def Let_def split: option.split)
qed

text \<open>
  C23: Adding an engine ends, and moves the tenants of its deployments there, all of them or none. The
  engine has deployments of the tenants \<open>ts\<close> and answers pages of them; in the state of the run, it
  answers all pages, or one of the requests fails: in the network, or because its body is no list of
  deployments. When a request fails, \<open>Add\<close> returns that error and has not touched the tables, however
  many pages were read before. When all are answered, the loop stops behind the last page for any
  positive batch; whatever then fails in the database, a user's shard is the one from before or, for a
  tenant of the engine, the new engine; after a success every tenant is there, and the engine is in
  the table; and it succeeds when the database does not fail and the texts fit into their columns.
\<close>
theorem adding_moves_the_tenants:
  assumes "engine_pages net camundaUrl batch ts n failure e" and "0 < batch" and "length ts + batch < 2 ^ 63"
    and "\<And>xs. set (ord xs) = set xs"
  shows "\<exists>r c1 s1 e1. Add net ord camundaUrl (of_nat batch) ((c, s), e) = Some (r, (c1, s1), e1) \<and>
    (case failure of
       Some err \<Rightarrow> r = Inl err \<and> (c1, s1) = (c, s)
     | None \<Rightarrow>
        (\<forall>u. shard_of (committed s1) u = shard_of (committed s) u \<or>
             u \<in> set ts \<and> shard_of (committed s1) u = Some camundaUrl) \<and>
        (r = Inr () \<longrightarrow> camundaUrl \<in> set (shard_table (committed s1)) \<and>
             (\<forall>u \<in> set ts. shard_of (committed s1) u = Some camundaUrl)) \<and>
        (healthy s \<and> list_all varchar255 (camundaUrl # ts) \<longrightarrow> r = Inr ()))"
proof (cases failure)
  case (Some err)
  with Add_pages [OF assms(1-3), of ord "(c, s)"] show ?thesis by (auto simp: Let_def)
next
  case None
  let ?xs = "ord (fold List.insert ts [])"
  have xs: "set ?xs = set ts" using assms(4) by (simp add: set_fold_insert)
  obtain r0 c0 s0 where en: "EnsureShard camundaUrl (c, s) = (r0, c0, s0)" by (metis prod_cases3)
  note E = ensured_shard [OF en]
  obtain r1 c1 s1 where mv: "move_tenants camundaUrl ?xs (c0, s0) = (r1, c1, s1)" by (metis prod_cases3)
  note M = move_tenants_moves [OF mv]
  have same: "shard_of (committed s0) u = shard_of (committed s) u" for u using E(1) by (simp add: shard_of_def)
  have ok: "r0 = Inr () \<and> r1 = Inr ()" if "healthy s" "list_all varchar255 (camundaUrl # ts)"
  proof -
    have "r0 = Inr () \<and> healthy s0"
      using that en by (auto simp: EnsureShard_def exec_def exec_db_def healthy_def next_fault_def
        SqlEnsureShard_def split: if_splits)
    moreover from this have "fst (move_tenants camundaUrl ?xs (c0, s0)) = Inr ()"
      using that xs E(2) by (intro healthy_move_tenants) (auto simp: list_all_iff)
    ultimately show ?thesis using mv by simp
  qed
  from Add_pages [OF assms(1-3), of ord "(c, s)"] None obtain m where A:
    "Add net ord camundaUrl (of_nat batch) ((c, s), e) =
      (let e1 = after_pages net camundaUrl batch m e
       in case EnsureShard camundaUrl (c, s) of
            (Inl err, s1) \<Rightarrow> Some (Inl err, s1, e1)
          | (Inr _, s1) \<Rightarrow> (case move_tenants camundaUrl ?xs s1 of (r, s2) \<Rightarrow> Some (r, s2, e1)))" by auto
  show ?thesis
  proof (cases r0)
    case (Inl err)
    with A None en ok same show ?thesis by (auto simp: Let_def)
  next
    case (Inr x)
    with A None en mv ok same xs M E(2) show ?thesis by (simp add: Let_def)
  qed
qed

text \<open>
  Alice, who was at the first engine, is moved to the new one with Bob, who was new; when the second
  page fails, nobody is moved.
\<close>

definition failing_pages :: "request \<Rightarrow> unit \<Rightarrow> reply \<times> unit" where
  "failing_pages rq e =
     (if has_suffix (rq_url rq) ''?firstResult=2&maxResults=2'' then HttpFail (ErrMsg ''EOF'') else demo_pages rq, e)"

lemma demo_page_error:
  "engine_pages failing_pages ''s3'' 2 [''alice'', ''bob'', ''alice''] 1 (Some (ErrMsg ''EOF'')) ()"
proof -
  have "demo_pages (page_request ''s3'' 2 0) =
      Reply 200 ''200 OK'' '''' (Inr (JArr (map deployment_json [''alice'', ''bob''])))"
    and "failing_pages (page_request ''s3'' 2 0) () = (demo_pages (page_request ''s3'' 2 0), ())"
    and "failing_pages (page_request ''s3'' 2 1) () = (HttpFail (ErrMsg ''EOF''), ())"
    by (simp_all add: demo_pages_def failing_pages_def page_request_def get_request_def tenants_url_def Itoa_def
        has_suffix_def demo_digits)
  moreover have "page [''alice'', ''bob'', ''alice''] 2 0 = [''alice'', ''bob'']" by (simp add: page_def)
  ultimately show ?thesis using decode_tenants [of "[''alice'', ''bob'']"]
    by (simp add: engine_pages_def answers_page_def page_error_def del: list.map)
qed

theorem adding_moves_the_tenants_witness:
  "(\<exists>c1 s1 e1. Add (\<lambda>rq e. (demo_pages rq, e)) rev ''s3'' 2 (((), demo_sql demo_db []), ()) =
      Some (Inr (), (c1, s1), e1) \<and>
    shard_of (committed s1) ''alice'' = Some ''s3'' \<and> shard_of (committed s1) ''bob'' = Some ''s3'') \<and>
   (\<exists>e1. Add failing_pages rev ''s3'' 2 (((), demo_sql demo_db []), ()) =
      Some (Inl (ErrMsg ''EOF''), ((), demo_sql demo_db []), e1))"
proof
  have "healthy (demo_sql demo_db []) \<and> list_all varchar255 [''s3'', ''alice'', ''bob'', ''alice'']"
    by (simp add: healthy_def demo_sql_def varchar255_def char_count_def)
  then show "\<exists>c1 s1 e1. Add (\<lambda>rq e. (demo_pages rq, e)) rev ''s3'' 2 (((), demo_sql demo_db []), ()) =
      Some (Inr (), (c1, s1), e1) \<and>
    shard_of (committed s1) ''alice'' = Some ''s3'' \<and> shard_of (committed s1) ''bob'' = Some ''s3''"
    using adding_moves_the_tenants [OF lists_engine_pages [OF demo_lists_tenants [of "\<lambda>rq e. e"]],
        of rev "()" "demo_sql demo_db []" "()"]
    by auto
  show "\<exists>e1. Add failing_pages rev ''s3'' 2 (((), demo_sql demo_db []), ()) =
      Some (Inl (ErrMsg ''EOF''), ((), demo_sql demo_db []), e1)"
    using adding_moves_the_tenants [OF demo_page_error, of rev "()" "demo_sql demo_db []"] by auto
qed

text \<open>
  Every page is read once: adding an engine makes exactly one request for each full
  page of its deployments and one more, in their order, and no other.
\<close>
theorem adding_reads_every_page_once:
  assumes "lists_tenants (\<lambda>rq rqs. (answer rq, rqs @ [rq])) camundaUrl batch ts"
    and "0 < batch" and "length ts + batch < 2 ^ 63"
  shows "\<exists>r s1. Add (\<lambda>rq rqs. (answer rq, rqs @ [rq])) ord camundaUrl (of_nat batch) (s, []) =
    Some (r, s1, map (page_request camundaUrl batch) [0..<length ts div batch + 1])"
proof -
  have "after (\<lambda>rq rqs. (answer rq, rqs @ [rq])) rqs acc = acc @ rqs" for rqs acc
    by (induction rqs arbitrary: acc) (simp_all add: after_def)
  then show ?thesis
    using Add_pages [OF lists_engine_pages [OF assms(1,2)] assms(2,3), of ord s "[]"]
    by (auto simp: Let_def after_pages_def split: prod.split sum.split)
qed

theorem adding_reads_every_page_once_witness:
  "\<exists>r s1. Add (\<lambda>rq rqs. (demo_pages rq, rqs @ [rq])) rev ''s3'' 2 (((), demo_sql demo_db []), []) =
    Some (r, s1, [get_request ''s3/engine-rest/deployment?firstResult=0&maxResults=2'',
                  get_request ''s3/engine-rest/deployment?firstResult=2&maxResults=2''])"
proof -
  have "page_request ''s3'' 2 0 = get_request ''s3/engine-rest/deployment?firstResult=0&maxResults=2''"
    "page_request ''s3'' 2 (Suc 0) = get_request ''s3/engine-rest/deployment?firstResult=2&maxResults=2''"
    by (simp_all add: page_request_def tenants_url_def Itoa_def demo_digits)
  then show ?thesis
    using adding_reads_every_page_once [OF demo_lists_tenants, of rev "((), demo_sql demo_db [])"] by simp
qed

text \<open>
  With a batch of zero adding never ends: an empty page is a full one, and the same page is asked
  for again and again.
\<close>
theorem adding_in_batches_of_zero_never_ends:
  assumes "lists_tenants net camundaUrl 0 ts"
  shows "Add net ord camundaUrl 0 se = None"
proof -
  have zero: "getDeploymentTenants net camundaUrl 0 0 e = (Inr [], snd (net (page_request camundaUrl 0 0) e))" for e
    using tenants_of_page [of net camundaUrl 0 ts 0 e] assms by (simp add: lists_tenants_def page_def)
  have never: "load_tenants net camundaUrl 0 0 0 acc e \<noteq> Some x" for acc e x
  proof
    let ?P = "\<lambda>net' url (b :: int64) (off :: int64) (n :: int64) acc (e :: 'a) x.
      net' = net \<longrightarrow> url = camundaUrl \<longrightarrow> b = 0 \<longrightarrow> off = 0 \<longrightarrow> n = 0 \<longrightarrow> False"
    assume ret: "load_tenants net camundaUrl 0 0 0 acc e = Some x"
    have "?P net camundaUrl 0 0 0 acc e x"
    proof (rule load_tenants.raw_induct [where P = ?P, OF _ ret])
    qed (insert zero, auto, blast)
    then show False by simp
  qed
  then show ?thesis by (cases se) (auto simp: Add_def split: option.split)
qed

theorem adding_in_batches_of_zero_never_ends_witness:
  "Add (\<lambda>rq e. (demo_pages rq, e)) rev ''s3'' 0 (((), demo_sql demo_db []), ()) = None"
  by (rule adding_in_batches_of_zero_never_ends [OF demo_lists_nothing])

end
