(* ===== verification/Commands.thy ===== *)
theory Commands
  imports Startup Migration
begin

text \<open>
  The commands \<open>addshard\<close> and \<open>removeshard\<close> from their arguments to the exit of the process
  (\<open>cmd/addshard\<close>, \<open>cmd/removeshard\<close>), and everything that can happen to the tables: processes of the
  server and commands in any number and order.
\<close>

section \<open>The commands\<close>

text \<open>The handle of \<open>shards.New\<close> with the cache \<open>None\<close>, used and left; an open transaction is rolled back.\<close>

definition closed :: "shards_handle \<Rightarrow> shard_tables sql" where
  "closed h =
     \<lparr>committed = \<lparr>stored_shards = Some (shard_table (committed (snd h))),
                   stored_mapping = Some (mapping_table (committed (snd h)))\<rparr>,
      tx = None, faults = faults (snd h), cuts = cuts (snd h)\<rparr>"

definition with_shards ::
  "(string \<Rightarrow> goerror option) \<Rightarrow> string \<Rightarrow>
   (shards_handle \<times> 'e \<Rightarrow> (unit res \<times> shards_handle \<times> 'e) option) \<Rightarrow> shard_tables sql \<times> 'e \<Rightarrow>
   (unit res \<times> shard_tables sql \<times> 'e) option" where
  "with_shards opn pgConnStr m se =
     (case se of (s, e) \<Rightarrow>
        (case shards_New opn pgConnStr () s of
           (Inl err, s1) \<Rightarrow> Some (Inl err, s1, e)
         | (Inr c, s1) \<Rightarrow>
             (case opened s1 of
                None \<Rightarrow> Some (Inl (DbError ''pq: relation does not exist''), s1, e)
              | Some db \<Rightarrow> map_option (\<lambda>(r, h, e1). (r, closed h, e1)) (m ((c, db), e)))))"

text \<open>
  A command: without exactly one argument, without a configuration, or with an error of the
  migration it ends with \<open>log.Fatal\<close> (status 1), after a panic of \<open>LoadConfig\<close> with status 2.
\<close>

definition exit_of :: "unit res \<Rightarrow> int" where
  "exit_of r = (case r of Inl err \<Rightarrow> 1 | Inr _ \<Rightarrow> 0)"

definition command_main ::
  "(string \<Rightarrow> goerror option) \<Rightarrow> (Config \<times> rat) res option \<Rightarrow> string list \<Rightarrow>
   (string \<Rightarrow> shards_handle \<times> 'e \<Rightarrow> (unit res \<times> shards_handle \<times> 'e) option) \<Rightarrow> shard_tables sql \<times> 'e \<Rightarrow>
   (int \<times> shard_tables sql \<times> 'e) option" where
  "command_main opn loaded args m se =
     (if length args \<noteq> 1 then Some (1, se)
      else (case loaded of
              None \<Rightarrow> Some (2, se)
            | Some (Inl err) \<Rightarrow> Some (1, se)
            | Some (Inr (cfg, timeout)) \<Rightarrow>
                map_option (\<lambda>(r, se1). (exit_of r, se1))
                  (with_shards opn (cf_ShardingDb cfg) (m (args ! 0)) se)))"

definition addshard_main ::
  "(string \<Rightarrow> goerror option) \<Rightarrow> (request \<Rightarrow> 'e \<Rightarrow> reply \<times> 'e) \<Rightarrow> (string list \<Rightarrow> string list) \<Rightarrow>
   (Config \<times> rat) res option \<Rightarrow> string list \<Rightarrow> shard_tables sql \<times> 'e \<Rightarrow> (int \<times> shard_tables sql \<times> 'e) option" where
  "addshard_main opn net ord loaded args = command_main opn loaded args (add_shard net ord)"

definition removeshard_main ::
  "(string \<Rightarrow> goerror option) \<Rightarrow> (Config \<times> rat) res option \<Rightarrow> string list \<Rightarrow> shard_tables sql \<times> 'e \<Rightarrow>
   (int \<times> shard_tables sql \<times> 'e) option" where
  "removeshard_main opn loaded args = command_main opn loaded args
     (\<lambda>camundaUrl (h, e). case Remove camundaUrl h of (r, h1) \<Rightarrow> Some (r, h1, e))"

section \<open>What they do to the tables\<close>

lemma move_tenants_inv:
  "tables_ok shards_inv (snd s) \<Longrightarrow> tables_ok shards_inv (snd (snd (move_tenants url ts s)))"
proof (induction ts arbitrary: s)
  case (Cons t ts)
  obtain c db where s: "s = (c, db)" by (cases s)
  have "tables_ok shards_inv (snd (snd (SetShardForUser none_invalidate t url s)))"
    using SetShardForUser_inv Cons.prems by (simp add: s)
  with Cons.IH show ?case by (auto split: prod.split sum.split)
qed simp

lemma Add_inv:
  assumes "Add net ord url batch ((c, db), e) = Some (r, h, e1)" and "tables_ok shards_inv db"
  shows "tables_ok shards_inv (snd h)"
proof -
  obtain r0 h0 where en: "EnsureShard url (c, db) = (r0, h0)" by (cases "EnsureShard url (c, db)")
  with EnsureShard_inv [OF assms(2), of url c] have h0: "tables_ok shards_inv (snd h0)" by simp
  have "tables_ok shards_inv (snd h1)" if "move_tenants url ts h0 = (r1, h1)" for ts r1 h1
    using move_tenants_inv [OF h0, of url ts] that by simp
  with assms h0 en show ?thesis
    by (auto simp: Add_def split: option.splits prod.splits sum.splits)
qed

lemma closed_inv: "tables_ok shards_inv (snd h) \<Longrightarrow> shards_inv (rows_of (committed (closed h)))"
  by (cases "committed (snd h)") (simp add: tables_ok_def closed_def rows_of_def existing_def)

lemma with_shards_inv:
  assumes "with_shards opn con m (s, e) = Some (r, s1, e1)" and "shards_inv (rows_of (committed s))"
    and m: "\<And>c db e r h e1. m ((c, db), e) = Some (r, h, e1) \<Longrightarrow> tables_ok shards_inv db \<Longrightarrow> tables_ok shards_inv (snd h)"
  shows "shards_inv (rows_of (committed s1))"
proof -
  obtain r0 s0 where i: "initDbConnection opn con s = (r0, s0)" by (cases "initDbConnection opn con s")
  note o = initDbConnection_cases [OF i]
  then have rows: "rows_of (committed s0) = rows_of (committed s)"
    by (auto simp: rows_of_def dest: existing_same)
  show ?thesis
  proof (cases "r0 = Inr () \<and> opened s0 \<noteq> None")
    case True
    then obtain db where db: "opened s0 = Some db" by auto
    then have "tables_ok shards_inv db"
      using assms(2) rows by (auto simp: opened_def tables_ok_def rows_of_def existing_def split: option.splits)
    with assms(1) i True db show ?thesis
      by (auto simp: with_shards_def shards_New_def andThen_def intro!: closed_inv dest: m)
  next
    case False
    with assms(1,2) i rows show ?thesis
      by (cases r0; cases "opened s0") (auto simp: with_shards_def shards_New_def andThen_def)
  qed
qed

lemma command_inv:
  assumes "command_main opn loaded args m (s, e) = Some (code, s1, e1)" and "shards_inv (rows_of (committed s))"
    and m: "\<And>u c db e r h e1. m u ((c, db), e) = Some (r, h, e1) \<Longrightarrow> tables_ok shards_inv db \<Longrightarrow>
      tables_ok shards_inv (snd h)"
  shows "shards_inv (rows_of (committed s1))"
  using assms(1,2) with_shards_inv [OF _ assms(2) m]
  by (auto simp: command_main_def split: if_splits option.splits sum.splits)

lemma commands_inv:
  assumes "shards_inv (rows_of (committed s))"
  shows "addshard_main opn net ord loaded args (s, e) = Some (code, s1, e1) \<Longrightarrow> shards_inv (rows_of (committed s1))"
    and "removeshard_main opn loaded args (s, e) = Some (code, s1, e1) \<Longrightarrow> shards_inv (rows_of (committed s1))"
proof -
  show "addshard_main opn net ord loaded args (s, e) = Some (code, s1, e1) \<Longrightarrow> shards_inv (rows_of (committed s1))"
    unfolding addshard_main_def by (erule command_inv [OF _ assms]) (auto simp: add_shard_def dest: Add_inv)
  have "tables_ok shards_inv db \<Longrightarrow> Remove u (c, db) = (r, h) \<Longrightarrow> tables_ok shards_inv (snd h)" for u c db r h
    using RemoveShard_inv [of db u c] by (simp add: Remove_def)
  note r = this
  show "removeshard_main opn loaded args (s, e) = Some (code, s1, e1) \<Longrightarrow> shards_inv (rows_of (committed s1))"
    unfolding removeshard_main_def by (erule command_inv [OF _ assms]) (auto dest: r split: prod.splits)
qed

section \<open>The life of the tables\<close>

text \<open>
  What happens to the tables, one after the other: a process of the server, or a command, which
  knows the shards only. Several failures, environments and configurations are possible at each.
\<close>

definition command_on :: "disk \<Rightarrow> fault list \<Rightarrow> nat option list \<Rightarrow> shard_tables sql" where
  "command_on d fs cs = \<lparr>committed = disk_shards d, tx = None, faults = fs, cuts = cs\<rparr>"

inductive operating :: "('e, 'a, 'b) given \<Rightarrow> disk \<Rightarrow> disk \<Rightarrow> bool" for g where
  server: "process_life g d d1 \<Longrightarrow> operating g d d1"
| adding: "addshard_main (sql_open g) net ord loaded args (command_on d fs cs, e :: 'e) = Some (code, s1, e1) \<Longrightarrow>
    operating g d (d\<lparr>disk_shards := committed s1\<rparr>)"
| removing: "removeshard_main (sql_open g) loaded args (command_on d fs cs, e :: 'e) = Some (code, s1, e1) \<Longrightarrow>
    operating g d (d\<lparr>disk_shards := committed s1\<rparr>)"

lemma operating_keeps:
  assumes "operating g d d1" and "documented g" and "disk_ok d"
  shows "disk_ok d1"
  using assms(1)
proof cases
  case server
  from process_life_keeps [OF server assms(2,3)] show ?thesis by blast
next
  case (adding net ord loaded args fs cs e code s1 e1)
  with commands_inv(1) [OF _ adding(2)] assms(3) show ?thesis by (simp add: command_on_def disk_ok_def tables_def)
next
  case (removing loaded args fs cs e code s1 e1)
  with commands_inv(2) [OF _ removing(2)] assms(3) show ?thesis by (simp add: command_on_def disk_ok_def tables_def)
qed

text \<open>
  C4: What the databases hold survives every sequential history of the program: any number of processes
  of the server and of commands that add or remove engines, one process at a time, each process with
  its own configuration, its start failing or succeeding, and ended between any two of its requests
  (not in the middle of one); its requests in any order, but each one ending before the next begins;
  and any failure of the calls of the databases, but no loss of rows of the relation on their way. Over
  such a history no virtual id ever has two deployments and the tables keep the constraints of their
  schema; as long as only the server runs, every user who has been given a shard stays at it. The
  first of these is false of the server that answers requests concurrently, as \<open>Races\<close> shows.
\<close>
theorem history_keeps_everything:
  assumes "(operating g)\<^sup>*\<^sup>* d d1" and "documented g" and "disk_ok d"
  shows "disk_ok d1 \<and>
    (lives g d d1 \<longrightarrow> (\<forall>u a. shard_of (tables d) u = Some a \<longrightarrow> shard_of (tables d1) u = Some a))"
proof (intro conjI impI)
  from assms(1) show "disk_ok d1"
    by (induction rule: rtranclp_induct) (use assms operating_keeps in blast)+
  assume "lives g d d1"
  then have "disk_ok d1 \<and> shard_of (tables d) \<subseteq>\<^sub>m shard_of (tables d1)"
  proof (induction rule: rtranclp_induct)
    case (step d1 d2)
    with process_life_keeps [OF step.hyps(2) assms(2)] map_le_trans show ?case by blast
  qed (use assms(3) in simp)
  then show "\<forall>u a. shard_of (tables d) u = Some a \<longrightarrow> shard_of (tables d1) u = Some a"
    by (auto dest: map_le_someD)
qed

theorem history_keeps_everything_witness:
  "\<exists>d1. lives demo_given demo_disk d1 \<and> disk_vids d1 \<noteq> None \<and> disk_ok d1 \<and>
     shard_of (tables d1) ''alice'' = Some ''s1''"
proof -
  obtain d1 where d1: "lives demo_given demo_disk d1" "(operating demo_given)\<^sup>*\<^sup>* demo_disk d1" "disk_vids d1 \<noteq> None"
    using demo_life by (blast intro: r_into_rtranclp operating.server)
  have t: "trip Inr Inr = (Inr :: string \<Rightarrow> string res)"
    by (rule ext) (simp add: trip_def json_marshal_def json_unmarshal_def)
  have "documented demo_given" unfolding documented_def
    by (intro conjI exI [of _ "\<lambda>s. s"]) (simp_all add: demo_given_def map_store_ok t)
  moreover have "disk_ok demo_disk"
    by (simp add: disk_ok_def demo_disk_def tables_def rows_of_def existing_def shards_inv_def varchar255_def char_count_def)
  moreover have "shard_of (tables demo_disk) ''alice'' = Some ''s1''"
    by (simp add: demo_disk_def tables_def rows_of_def existing_def shard_of_def)
  ultimately have "disk_ok d1 \<and> shard_of (tables d1) ''alice'' = Some ''s1''"
    using history_keeps_everything [OF d1(2)] d1(1) by blast
  with d1 show ?thesis by blast
qed

end
