(* ===== verification/Shutdown.thy ===== *)
theory Shutdown
  imports Startup
begin

text \<open>
  The process from its start to its end (\<open>main.go\<close>): the configuration, \<open>lib.Wrapper\<close>, and then the
  goroutines, as a step relation: the main one, which waits for a signal, and two for each server,
  one that serves and one that shuts it down when the context is done (\<open>api.Start\<close>,
  \<open>Metrics.Serve\<close>). The steps of goroutines interleave in any order.
\<close>

section \<open>Goroutines\<close>

text \<open>
  A server: its goroutine has begun, it listens, it has been told to shut down and waits for the
  requests it still answers, or all of them are answered. The number counts those requests.
\<close>

datatype server_state = Begun | Listening | Draining | Closed

record goroutines =
  main_waits :: bool
  cancelled :: bool
  exit_code :: "int option"
  states :: "(server_state \<times> nat) list"

text \<open>
  The steps. \<open>fails\<close>: \<open>ListenAndServe\<close> returns an error and the goroutine calls \<open>log.Fatal\<close>. \<open>signal\<close>:
  the main goroutine receives from \<open>shutdown\<close> and cancels the context. \<open>returns\<close>: \<open>main\<close> returns,
  which ends the process whatever the others do. \<open>shuts\<close>: \<open>server.Shutdown\<close> after \<open>ctx.Done\<close>; from
  then on \<open>ListenAndServe\<close> answers \<open>ErrServerClosed\<close>, which is no failure.
\<close>

inductive step :: "goroutines \<Rightarrow> goroutines \<Rightarrow> bool" where
  listens: "exit_code r = None \<Longrightarrow> i < length (states r) \<Longrightarrow> states r ! i = (Begun, n) \<Longrightarrow>
    step r (r\<lparr>states := (states r)[i := (Listening, n)]\<rparr>)"
| fails: "exit_code r = None \<Longrightarrow> i < length (states r) \<Longrightarrow> fst (states r ! i) \<in> {Begun, Listening} \<Longrightarrow>
    step r (r\<lparr>exit_code := Some 1\<rparr>)"
| accepts: "exit_code r = None \<Longrightarrow> i < length (states r) \<Longrightarrow> states r ! i = (Listening, n) \<Longrightarrow>
    step r (r\<lparr>states := (states r)[i := (Listening, Suc n)]\<rparr>)"
| answers: "exit_code r = None \<Longrightarrow> i < length (states r) \<Longrightarrow> states r ! i = (st, Suc n) \<Longrightarrow>
    st \<in> {Listening, Draining} \<Longrightarrow> step r (r\<lparr>states := (states r)[i := (st, n)]\<rparr>)"
| signal: "exit_code r = None \<Longrightarrow> main_waits r \<Longrightarrow> step r (r\<lparr>main_waits := False, cancelled := True\<rparr>)"
| returns: "exit_code r = None \<Longrightarrow> \<not> main_waits r \<Longrightarrow> step r (r\<lparr>exit_code := Some 0\<rparr>)"
| shuts: "exit_code r = None \<Longrightarrow> cancelled r \<Longrightarrow> i < length (states r) \<Longrightarrow> states r ! i = (st, n) \<Longrightarrow>
    st \<in> {Begun, Listening} \<Longrightarrow> step r (r\<lparr>states := (states r)[i := (Draining, n)]\<rparr>)"
| closes: "exit_code r = None \<Longrightarrow> i < length (states r) \<Longrightarrow> states r ! i = (Draining, 0) \<Longrightarrow>
    step r (r\<lparr>states := (states r)[i := (Closed, 0)]\<rparr>)"

abbreviation steps :: "goroutines \<Rightarrow> goroutines \<Rightarrow> bool" where
  "steps \<equiv> step\<^sup>*\<^sup>*"

section \<open>The main function\<close>

text \<open>
  \<open>main\<close> and \<open>wrapper\<close> up to the wait: a file that cannot be read as a configuration and a start that
  fails end the process with \<open>log.Fatal\<close> (status 1), a panic of \<open>LoadConfig\<close> with status 2.
\<close>

definition ended :: "int \<Rightarrow> process \<Rightarrow> goroutines" where
  "ended status p =
     \<lparr>main_waits = False, cancelled = ctx_cancelled p, exit_code = Some status,
      states = map (\<lambda>_. (Begun, 0)) (servers p)\<rparr>"

definition wrapper_main :: "('e, 'a, 'b) given \<Rightarrow> Config \<Rightarrow> process \<Rightarrow> goroutines" where
  "wrapper_main g cfg p =
     (case Wrapper g cfg p of
        (Inl err, p1) \<Rightarrow> ended 1 p1
      | (Inr _, p1) \<Rightarrow>
          \<lparr>main_waits = True, cancelled = ctx_cancelled p1, exit_code = None,
           states = map (\<lambda>_. (Begun, 0)) (servers p1)\<rparr>)"

definition main_start ::
  "('e, 'a, 'b) given \<Rightarrow> (string \<Rightarrow> rat) \<Rightarrow> (string \<Rightarrow> string) \<Rightarrow> json res \<Rightarrow> process \<Rightarrow> goroutines" where
  "main_start g pf getenv file p =
     (case LoadConfig pf getenv (ParseDuration g) file of
        None \<Rightarrow> ended 2 p
      | Some (Inl err) \<Rightarrow> ended 1 p
      | Some (Inr (cfg, timeout)) \<Rightarrow> wrapper_main g cfg p)"

text \<open>A process before its start: nothing listens and nothing has been cancelled.\<close>

definition unstarted :: "process \<Rightarrow> bool" where
  "unstarted p \<longleftrightarrow> \<not> ctx_cancelled p \<and> servers p = []"

section \<open>What can happen\<close>

text \<open>
  In every state: servers are only shut down, and the process only ends with status 0, after the
  signal; what is closed has answered every request.
\<close>

definition in_order :: "goroutines \<Rightarrow> bool" where
  "in_order r \<longleftrightarrow>
     (cancelled r \<longrightarrow> \<not> main_waits r) \<and> (exit_code r = None \<and> \<not> main_waits r \<longrightarrow> cancelled r) \<and>
     (exit_code r = Some 0 \<longrightarrow> cancelled r) \<and>
     (\<forall>s \<in> set (states r). (fst s \<in> {Draining, Closed} \<longrightarrow> cancelled r) \<and> (fst s = Closed \<longrightarrow> snd s = 0))"

lemma step_in_order: "step r r1 \<Longrightarrow> in_order r \<Longrightarrow> in_order r1"
proof (induction rule: step.induct)
  case (answers r i st n)
  then have "(st, Suc n) \<in> set (states r)" by (metis nth_mem)
  with answers show ?case by (auto simp: in_order_def dest!: set_update_subset_insert [THEN subsetD])
next
  case (closes r i)
  then have "(Draining, 0) \<in> set (states r)" by (metis nth_mem)
  with closes show ?case by (auto simp: in_order_def dest!: set_update_subset_insert [THEN subsetD])
qed (auto simp: in_order_def dest!: set_update_subset_insert [THEN subsetD])

lemma steps_in_order: "steps r r1 \<Longrightarrow> in_order r \<Longrightarrow> in_order r1"
  by (induction rule: rtranclp_induct) (auto intro: step_in_order)

lemma main_start_in_order:
  assumes "unstarted p" and "\<And>xs. mset (methods_order g xs) = mset xs"
  shows "in_order (main_start g pf getenv file p)"
proof -
  have "in_order (wrapper_main g cfg p)" for cfg
  proof -
    obtain r p1 where w: "Wrapper g cfg p = (r, p1)" by (cases "Wrapper g cfg p")
    from w assms show ?thesis
      by (cases rule: Wrapper_run [OF w assms(2)])
        (auto simp: wrapper_main_def ended_def in_order_def unstarted_def w)
  qed
  with assms(1) show ?thesis
    by (auto simp: main_start_def ended_def in_order_def unstarted_def split: option.split sum.split)
qed

lemma signal_and_return:
  assumes "exit_code r = None"
  shows "\<exists>r1. steps r r1 \<and> exit_code r1 = Some 0 \<and> states r1 = states r"
proof (cases "main_waits r")
  case True
  let ?r = "r\<lparr>main_waits := False, cancelled := True\<rparr>"
  have "step r ?r" by (rule step.signal [OF assms True])
  moreover have "step ?r (?r\<lparr>exit_code := Some 0\<rparr>)" by (rule step.returns) (simp_all add: assms)
  ultimately have "steps r (?r\<lparr>exit_code := Some 0\<rparr>)" by (meson r_into_rtranclp rtranclp.rtrancl_into_rtrancl)
  then show ?thesis by (intro exI conjI) (assumption, simp_all)
next
  case False
  from step.returns [OF assms this] have "steps r (r\<lparr>exit_code := Some 0\<rparr>)" by (rule r_into_rtranclp)
  then show ?thesis by (intro exI conjI) (assumption, simp_all)
qed

text \<open>
  C18: The end of the process. In every run of the program, from its start on: it ends with status 0
  only after a signal, servers are shut down only after it, and one that is closed has answered all
  its requests. But the end does not wait for that: from every state that has not ended, the program
  can receive the signal and end with status 0 while every server still is in the state that it was,
  with the requests that it was answering cut off. \<open>main\<close> returns after \<open>cancel()\<close>, and nothing waits
  for the goroutines that call \<open>server.Shutdown\<close>.
\<close>
theorem end_does_not_wait:
  assumes "steps (main_start g pf getenv file p) r" and "unstarted p"
    and "\<And>xs. mset (methods_order g xs) = mset xs"
  shows "in_order r \<and>
    (exit_code r = None \<longrightarrow> (\<exists>r1. steps r r1 \<and> exit_code r1 = Some 0 \<and> states r1 = states r))"
  using steps_in_order [OF assms(1) main_start_in_order [OF assms(2,3)]] signal_and_return by blast

lemma nothing_set: "handle_fields pf (\<lambda>_. '''') fs c = Some c"
  by (induction fs) (auto simp: Let_def)

definition demo_file :: json where
  "demo_file = JObj [(''server_port'', JStr ''8080''), (''wrapper_db'', JStr ''vids''),
     (''sharding_db'', JStr ''shards''), (''http_server_timeout'', JStr ''30s'')]"

lemma demo_main: "\<exists>r. steps (main_start demo_given (\<lambda>_. 0) (\<lambda>_. '''') (Inr demo_file) first_process) r \<and>
  exit_code r = None \<and> states r = [(Listening, 1)]"
proof -
  have "decode_Config demo_file = Inr demo_config" by code_simp
  then have "\<exists>t. LoadConfig (\<lambda>_. 0) (\<lambda>_. '''') (ParseDuration demo_given) (Inr demo_file) = Some (Inr (demo_config, t))"
    by (simp add: LoadConfig_def handleEnvironmentVars_def nothing_set)
  then obtain t where l: "LoadConfig (\<lambda>_. 0) (\<lambda>_. '''') (ParseDuration demo_given) (Inr demo_file) = Some (Inr (demo_config, t))" ..
  obtain p1 where p1: "Wrapper demo_given demo_config first_process =
      (Inr (wrapper_cache demo_given, wired demo_given demo_config), p1)"
    using start_succeeds [OF demo_opens _ _ demo_order, of first_process] by (auto simp: first_process_def)
  have m: "metrics_servers (cf_MetricsPort demo_config) = []"
    by (simp add: metrics_servers_def demo_config_def zero_config_def)
  from p1 obtain api where "servers p1 = [api]" "\<not> ctx_cancelled p1"
    by (cases rule: Wrapper_run [OF p1 demo_order]) (auto simp: m first_process_def)
  with l p1 have s: "main_start demo_given (\<lambda>_. 0) (\<lambda>_. '''') (Inr demo_file) first_process =
      \<lparr>main_waits = True, cancelled = False, exit_code = None, states = [(Begun, 0)]\<rparr>"
    by (simp add: main_start_def wrapper_main_def)
  let ?r = "\<lambda>st n. \<lparr>main_waits = True, cancelled = False, exit_code = None, states = [(st, n)]\<rparr>"
  have "step (?r Begun 0) (?r Listening 0)" using step.listens [of "?r Begun 0" 0 0] by simp
  moreover have "step (?r Listening 0) (?r Listening 1)" using step.accepts [of "?r Listening 0" 0 0] by simp
  ultimately have "steps (?r Begun 0) (?r Listening 1)" by (meson r_into_rtranclp rtranclp.rtrancl_into_rtrancl)
  with s show ?thesis by (intro exI [of _ "?r Listening 1"]) simp
qed

theorem end_does_not_wait_witness:
  "\<exists>r r1. steps (main_start demo_given (\<lambda>_. 0) (\<lambda>_. '''') (Inr demo_file) first_process) r \<and>
     states r = [(Listening, 1)] \<and> steps r r1 \<and> exit_code r1 = Some 0 \<and> states r1 = [(Listening, 1)]"
proof -
  obtain r where r: "steps (main_start demo_given (\<lambda>_. 0) (\<lambda>_. '''') (Inr demo_file) first_process) r"
    "exit_code r = None" "states r = [(Listening, 1)]" using demo_main by blast
  have "unstarted first_process" by (simp add: unstarted_def first_process_def)
  from end_does_not_wait [OF r(1) this demo_order] r show ?thesis by auto
qed

end
