(* ===== verification/Answers.thy ===== *)
theory Answers
  imports ServeProps
begin

text \<open>
  Which codes the endpoints answer with. A handler that is put together from the usual parts answers
  with one of five codes; the others pass on a code that an operation computed, which is where a
  connection can be closed without an answer.
\<close>

section \<open>Codes of handlers\<close>

definition usual :: "int set" where
  "usual = {200, 400, 401, 403, 500}"

definition always_answered :: "('e, 'c, 'a) handler \<Rightarrow> bool" where
  "always_answered h \<longleftrightarrow> (\<forall>w. status_of (fst (h w)) \<in> Some ` usual)"

definition usual_response :: "'a response \<Rightarrow> bool" where
  "usual_response r \<longleftrightarrow> status_of r \<in> Some ` usual"

lemma usual_responses [simp]:
  "usual_response (Json x)" "usual_response (Text t)" "usual_response Empty"
  "code \<in> usual \<Longrightarrow> usual_response (http_error msg code)"
  "usual_response (internal err)" "usual_response (bad_request err)" "usual_response (access_denied err)"
  by (auto simp: usual_response_def status_of_def usual_def http_error_def internal_def bad_request_def
      access_denied_def)

lemma usual_codes [simp]: "200 \<in> usual" "400 \<in> usual" "401 \<in> usual" "403 \<in> usual" "500 \<in> usual"
  by (simp_all add: usual_def)

lemma answeredI: "(\<And>w. usual_response (fst (h w))) \<Longrightarrow> always_answered h"
  by (simp add: always_answered_def usual_response_def)

lemma answeredD: "always_answered h \<Longrightarrow> usual_response (fst (h w))"
  by (simp add: always_answered_def usual_response_def)

lemma answered_respond: "usual_response r \<Longrightarrow> always_answered (respond r)"
  by (rule answeredI) (simp add: respond_def)

lemma answered_attempt:
  "(\<And>err. usual_response (f err)) \<Longrightarrow> (\<And>x. always_answered (k x)) \<Longrightarrow> always_answered (attempt m f k)"
  by (rule answeredI) (simp add: attempt_def answeredD split: prod.split sum.split)

lemma answered_attempt_code:
  assumes "\<And>w err code w1. m w = ((Some err, code), w1) \<Longrightarrow> code \<in> usual" and "always_answered k"
  shows "always_answered (attempt_code m k)"
  using assms by (intro answeredI) (auto simp: attempt_code_def answeredD split: prod.split option.split)

lemma answered_encode: "always_answered (encode m)"
  unfolding encode_def by (intro answered_attempt answered_respond) simp_all

lemma answered_with_token: "(\<And>token. always_answered (k token)) \<Longrightarrow> always_answered (with_token sys rq k)"
  by (simp add: with_token_def answered_respond split: sum.split)

lemma answered_with_body: "(\<And>x. always_answered (k x)) \<Longrightarrow> always_answered (with_body rq dec k)"
  by (auto simp: with_body_def answered_respond split: sum.split)

lemma answered_first_definition:
  "(\<And>d. always_answered (k d)) \<Longrightarrow> always_answered (first_definition sys i u k)"
  unfolding first_definition_def
  by (intro answered_attempt) (simp_all add: answered_respond split: list.split)

lemma answered_if: "(b \<Longrightarrow> always_answered h) \<Longrightarrow> (\<not> b \<Longrightarrow> always_answered k) \<Longrightarrow> always_answered (if b then h else k)"
  by simp

lemmas answer_rules = answered_with_token answered_with_body answered_encode answered_first_definition
  answered_attempt answered_respond answered_if

section \<open>The endpoints\<close>

text \<open>The endpoints that pass on a computed code, or that can meet a nil map.\<close>

definition passing :: "endpoint set" where
  "passing = set
    [Ep2_DeleteProcessInstance, Ep1_DeleteProcessInstance, Ep2_SetProcessInstanceVariable,
     Ep2_DeleteProcessMultipleInstances, Ep2_DeleteHistoricProcessInstance,
     Ep1_DeleteHistoricPricessInstance, Ep2_DeleteMultipleHistoricProcessInstances, Ep2_TriggerEvent]"

text \<open>The endpoints that copy the body of an engine's reply.\<close>

definition diagrams :: "endpoint set" where
  "diagrams = {Ep2_GetProcessDefinitionDiagram, Ep1_GetProcessDefinitionDiagram}"

lemma Deploy_codes: "Deploy sys depl w = ((Some err, code), w1) \<Longrightarrow> code \<in> usual"
  by (auto simp: Deploy_def prepare_xml_def usual_def split: sum.splits prod.splits option.splits if_splits)

lemma answered_deployments: "always_answered (Api_Deploy sys rq)" "always_answered (Api_DeleteDeployment sys rq)"
  unfolding Api_Deploy_def Api_DeleteDeployment_def
  by (intro answer_rules answered_attempt_code Deploy_codes; simp; fail)+

lemma answered_ListDeployments: "always_answered (V2_ListDeployments sys rq)"
  unfolding V2_ListDeployments_def
  by (intro answered_with_token answeredI) (auto split: prod.split intro!: answeredD answered_encode)

lemma answered_by_business_key: "always_answered (V2_DeleteProcessInstancesByBusinessKey sys rq)"
proof -
  have "always_answered (\<lambda>w. case remove_each sys u xs None w of
      (Some err, w1) \<Rightarrow> (internal err, w1) | (None, w1) \<Rightarrow> (Json ''ok'', w1))" for u xs
    by (rule answeredI) (simp split: prod.split option.split)
  then show ?thesis unfolding V2_DeleteProcessInstancesByBusinessKey_def Let_def
    by (intro answered_with_token answered_attempt) simp_all
qed

lemma answered_v2:
  "always_answered (V2_StartProcessDefinition sys rq)" "always_answered (V2_StartProcessDefinitionAndGetInstanceId sys rq)"
  "always_answered (V2_StartDeployment sys rq)" "always_answered (V2_GetDeployment sys rq)"
  "always_answered (V2_DeploymentExists sys rq)" "always_answered (V2_GetDeploymentParameters sys rq)"
  "always_answered (V2_GetDeploymentDefinition sys rq)" "always_answered (V2_GetDeploymentInstances sys rq)"
  "always_answered (V2_GetProcessDefinition sys rq)"
  "always_answered (V2_ListProcessInstances sys rq)" "always_answered (V2_GetProcessInstanceCount sys rq)"
  "always_answered (V2_GetHistoricProcessInstances sys rq)"
  unfolding V2_StartProcessDefinition_def V2_StartProcessDefinitionAndGetInstanceId_def
    V2_StartDeployment_def V2_GetDeploymentInstances_def v2_reading_defs Let_def
  by (intro answer_rules; simp; fail)+

lemma answered_v1:
  "always_answered (V1_HealthCheck rq)" "always_answered (V1_GetHistoricProcessInstances sys rq)"
  "always_answered (V1_GetFilteredHistoricProcessInstances sys rq)"
  "always_answered (V1_GetFinishedProcessInstances sys rq)" "always_answered (V1_GetUnfinishedProcessInstances sys rq)"
  "always_answered (V1_FindFinishedProcessInstances sys rq)" "always_answered (V1_FindUnfinishedProcessInstances sys rq)"
  "always_answered (V1_GetHistoricProcessInstancesOfProcessDefinition sys rq)"
  "always_answered (V1_GetFinishedProcessInstancesOfProcessDefinition sys rq)"
  "always_answered (V1_GetUnfinishedProcessInstancesOfProcessDefinition sys rq)"
  unfolding V1_HealthCheck_def V1_GetHistoricProcessInstances_def
    V1_GetFilteredHistoricProcessInstances_def V1_GetFinishedProcessInstances_def
    V1_GetUnfinishedProcessInstances_def V1_FindFinishedProcessInstances_def
    V1_FindUnfinishedProcessInstances_def V1_GetHistoricProcessInstancesOfProcessDefinition_def
    V1_GetFinishedProcessInstancesOfProcessDefinition_def
    V1_GetUnfinishedProcessInstancesOfProcessDefinition_def Let_def
  by (intro answer_rules; simp; fail)+

lemma answered_Swagger: "always_answered (Swagger sys)"
  by (simp add: Swagger_def answered_respond split: sum.split)

lemma status_of_answer: "always_answered h \<Longrightarrow> fst (answer h w) \<in> Some ` usual"
  by (simp add: always_answered_def answer_def split: prod.split) (metis fst_conv)

text \<open>The two endpoints that copy a body: 501 when reading it fails before its first byte.\<close>

lemma diagram_codes:
  assumes "V2_GetProcessDefinitionDiagram sys rq w = (r, w1)"
  shows "usual_response r \<or> status_of r = Some 501 \<and> body_error sys (env w1) \<noteq> None"
  using assms
  by (auto simp: V2_GetProcessDefinitionDiagram_def with_token_def attempt_def respond_def copy_body_def
      http_error_def [of _ 501] status_of_def [of "Failure _ _"] Let_def
      split: sum.splits prod.splits option.splits if_splits)

section \<open>Every other endpoint answers\<close>

lemma serve_answered:
  assumes "ep \<notin> passing" and "ep \<notin> diagrams"
  shows "fst (serve sys ep rq w) \<in> Some ` usual"
proof -
  from assms have "ep \<in> set [Ep_Deploy, Ep_DeleteDeployment, Ep2_StartProcessDefinition,
      Ep2_StartProcessDefinitionAndGetInstanceId, Ep2_GetDeployment, Ep2_DeploymentExists, Ep2_StartDeployment,
      Ep2_GetDeploymentParameters, Ep2_GetDeploymentDefinition, Ep2_GetDeploymentInstances,
      Ep2_ListDeployments, Ep2_GetProcessDefinition, Ep2_ListProcessInstances, Ep2_GetProcessInstanceCount, Ep2_GetHistoricProcessInstances,
      Ep2_DeleteProcessInstancesByBusinessKey, Ep1_HealthCheck, Ep1_StartProcessDefinition,
      Ep1_StartProcessDefinitionAndGetInstanceId, Ep1_GetDeployment, Ep1_DeploymentExists,
      Ep1_StartDeployment, Ep1_GetDeploymentParameters, Ep1_GetDeploymentDefinition, Ep1_GetDeployments,
      Ep1_GetProcessDefinition, Ep1_GetProcessInstances,
      Ep1_GetProcessInstanceCount, Ep1_GetHistoricProcessInstances,
      Ep1_GetFilteredHistoricProcessInstances, Ep1_GetFinishedProcessInstances,
      Ep1_FindFinishedProcessInstances, Ep1_FindUnfinishedProcessInstances,
      Ep1_GetUnfinishedProcessInstances, Ep1_GetHistoricProcessInstancesOfProcessDefinition,
      Ep1_GetFinishedProcessInstancesOfProcessDefinition,
      Ep1_GetUnfinishedProcessInstancesOfProcessDefinition, Ep_Swagger]"
    by (cases ep) (simp_all add: passing_def diagrams_def)
  then show ?thesis unfolding set_simps
    by (elim insertE emptyE; hypsubst; unfold serve_def endpoint.case as_v2;
        intro status_of_answer answered_deployments answered_ListDeployments answered_by_business_key
          answered_v2 answered_v1 answered_Swagger)
qed

text \<open>
  C6: Whatever the request, the engines, the database and the state of the server, every endpoint
  answers, with one of the codes 200, 400, 401, 403 and 500, except for the eight endpoints that pass
  on a code which an operation computed or that can write into a nil map; the two endpoints of the
  diagram of a definition can also answer 501, and do so only when the engine's reply breaks off
  while its body is read.
\<close>
theorem other_endpoints_answer:
  assumes "ep \<notin> {Ep2_DeleteProcessInstance, Ep1_DeleteProcessInstance, Ep2_SetProcessInstanceVariable,
     Ep2_DeleteProcessMultipleInstances, Ep2_DeleteHistoricProcessInstance,
     Ep1_DeleteHistoricPricessInstance, Ep2_DeleteMultipleHistoricProcessInstances, Ep2_TriggerEvent}"
  shows "\<exists>code w1. serve sys ep rq w = (Some code, w1) \<and>
    (code \<in> {200, 400, 401, 403, 500} \<or>
     code = 501 \<and> ep \<in> {Ep2_GetProcessDefinitionDiagram, Ep1_GetProcessDefinitionDiagram} \<and>
       body_error sys (env w1) \<noteq> None)"
proof (cases "ep \<in> diagrams")
  case True
  obtain r w1 where r: "V2_GetProcessDefinitionDiagram sys rq w = (r, w1)"
    by (cases "V2_GetProcessDefinitionDiagram sys rq w")
  from True r have "serve sys ep rq w = (status_of r, w1)"
    by (auto simp: diagrams_def serve_def as_v2 answer_def)
  with True diagram_codes [OF r] show ?thesis
    by (auto simp: usual_response_def usual_def diagrams_def)
next
  case False
  have "ep \<notin> passing" using assms by (simp add: passing_def)
  then show ?thesis using serve_answered [of ep sys rq w] False
    by (cases "serve sys ep rq w") (auto simp: usual_def)
qed

text \<open>An engine whose replies break off before the first byte of the body.\<close>

definition breaking_system :: "(unit, unit) system" where
  "breaking_system = demo_system\<lparr>body_error := (\<lambda>_. Some (ErrMsg ''unexpected EOF'')),
     http := (\<lambda>rq e. (Reply 200 ''200 OK'' '''' (Inr (JObj [(''tenantId'', JStr ''alice'')])), e))\<rparr>"

theorem other_endpoints_answer_witness:
  "(\<exists>code w1. serve demo_system Ep2_ListDeployments (instance_request ''t'' (Inr JNull)) demo_world = (Some code, w1) \<and>
      code \<in> {200, 400, 401, 403, 500}) \<and>
   fst (serve breaking_system Ep1_GetProcessDefinitionDiagram (instance_request ''t'' (Inr JNull)) demo_world) = Some 501"
proof
  show "\<exists>code w1. serve demo_system Ep2_ListDeployments (instance_request ''t'' (Inr JNull)) demo_world = (Some code, w1) \<and>
      code \<in> {200, 400, 401, 403, 500}"
    using other_endpoints_answer [of Ep2_ListDeployments demo_system "instance_request ''t'' (Inr JNull)" demo_world]
    by simp
  show "fst (serve breaking_system Ep1_GetProcessDefinitionDiagram (instance_request ''t'' (Inr JNull)) demo_world) = Some 501"
    by code_simp
qed

end
