(* ===== verification/Races.thy ===== *)
theory Races
  imports ServeProps
begin

text \<open>
  Two requests to deploy one virtual id that run beside each other. \<open>Deploy\<close> first removes what the
  id has and stores the new relation at its end; nothing holds the id in between, and the table has
  no key on virtual ids.
\<close>

section \<open>The parts of Deploy\<close>

text \<open>What \<open>Deploy\<close> does after \<open>cleanupExistingDeployment\<close>.\<close>

definition deploy_and_save ::
  "('e, 'c) system \<Rightarrow> DeploymentMessage \<Rightarrow> string \<Rightarrow> ('e, 'c, unit) act" where
  "deploy_and_save sys depl xml =
     andThen (DeployProcess sys (dm_Name depl) xml (dg_Svg (dm_Diagram depl)) (dm_UserId depl) (dm_Source depl))
       (\<lambda>deploymentId.
     andThen (incident_handling sys depl deploymentId) (\<lambda>_.
       or_undeploy sys deploymentId (dm_UserId depl) (on_vids (SaveVidRelation (dm_Id depl) deploymentId))))"

lemma deploy_prepared_parts:
  "deploy_prepared sys depl xml =
     andThen (cleanupExistingDeployment sys (dm_UserId depl) (dm_Id depl)) (\<lambda>_. deploy_and_save sys depl xml)"
  by (simp add: deploy_prepared_def deploy_and_save_def)

lemma deploy_and_save_success:
  assumes "deploy_and_save sys depl xml w = (Inr (), w1)"
  shows "\<exists>i. committed (vids w1) = committed (vids w) @ [(i, dm_Id depl)]"
proof -
  from assms obtain i wd wh where
    d: "DeployProcess sys (dm_Name depl) xml (dg_Svg (dm_Diagram depl)) (dm_UserId depl) (dm_Source depl) w = (Inr i, wd)"
    and h: "incident_handling sys depl i wd = (Inr (), wh)"
    and s: "or_undeploy sys i (dm_UserId depl) (on_vids (SaveVidRelation (dm_Id depl) i)) wh = (Inr (), w1)"
    by (auto simp: deploy_and_save_def andThen_Inr)
  have "vids wh = vids w"
    using leaves_vidsD [OF leaves.deploys d] leaves_vidsD [OF leaves.handles_incidents h] by simp
  with or_undeploy_save_cases(2) [OF s] show ?thesis by auto
qed

section \<open>Two requests\<close>

text \<open>
  C21: When two requests deploy the same virtual id beside each other, so that both have looked for what
  there is to remove before either stores its relation, and both succeed, then the virtual id has two
  deployments afterwards: what no sequence of requests can bring about.
\<close>
theorem concurrent_deploys_duplicate:
  assumes "dm_Id depl1 = vid" and "dm_Id depl2 = vid"
    and "cleanupExistingDeployment sys (dm_UserId depl1) vid w = (Inr (), w1)"
    and "cleanupExistingDeployment sys (dm_UserId depl2) vid w1 = (Inr (), w2)"
    and "deploy_and_save sys depl1 xml1 w2 = (Inr (), w3)" and "deploy_and_save sys depl2 xml2 w3 = (Inr (), w4)"
  shows "(\<exists>i j. committed (vids w4) = committed (vids w2) @ [(i, vid), (j, vid)]) \<and> \<not> one_each (vids w4)"
  using deploy_and_save_success [OF assms(5)] deploy_and_save_success [OF assms(6)] assms(1,2)
  by (auto simp: one_each_def)

text \<open>The demonstration: both requests are those of its user, the id is known before.\<close>

theorem concurrent_deploys_duplicate_witness:
  "\<exists>w1 w2 w3 w4. cleanupExistingDeployment demo_system ''alice'' ''v1'' demo_world = (Inr (), w1) \<and>
     cleanupExistingDeployment demo_system ''alice'' ''v1'' w1 = (Inr (), w2) \<and>
     deploy_and_save demo_system demo_message ''doc'' w2 = (Inr (), w3) \<and>
     deploy_and_save demo_system demo_message ''doc'' w3 = (Inr (), w4) \<and> \<not> one_each (vids w4)"
proof -
  let ?clean = "cleanupExistingDeployment demo_system ''alice'' ''v1''"
  let ?save = "deploy_and_save demo_system demo_message ''doc''"
  have "(case ?clean demo_world of (r1, w1) \<Rightarrow> case ?clean w1 of (r2, w2) \<Rightarrow>
      case ?save w2 of (r3, w3) \<Rightarrow> r1 = Inr () \<and> r2 = Inr () \<and> r3 = Inr () \<and> fst (?save w3) = Inr ())"
    by code_simp
  then obtain w1 w2 w3 w4 where "?clean demo_world = (Inr (), w1)" "?clean w1 = (Inr (), w2)"
    "?save w2 = (Inr (), w3)" "?save w3 = (Inr (), w4)"
    by (auto split: prod.splits simp: prod_eq_iff)
  moreover from concurrent_deploys_duplicate [of demo_message "''v1''" demo_message demo_system demo_world w1 w2 "''doc''" w3 "''doc''" w4] this
  have "\<not> one_each (vids w4)" by (simp add: demo_message_def)
  ultimately show ?thesis by blast
qed

end
