(* ===== verification/Concurrent.thy ===== *)
theory Concurrent
  imports Shards
begin

text \<open>
  \<open>EnsureShardForUser\<close> and \<open>SetShardForUser\<close> as they run beside each other: every call to the
  database or the cache is a step, requests take their steps in any order, and every step may fail.
  The transactions are those of PostgreSQL at the level \<open>BeginTx(ctx, nil)\<close> asks for (read committed):
  a statement sees what is committed and what its own transaction wrote; one that writes a row which
  another open transaction has written waits for its end. The cache is the one of the server
  (\<open>L1\<close> only); \<open>Get\<close> and \<open>Set\<close> hold its mutex one at a time, but not while the getter runs between them.
\<close>

section \<open>Requests\<close>

text \<open>
  The point that a request has reached: the next call it makes. \<open>At_Release\<close> is the commit of a
  transaction that changed nothing.
\<close>

datatype point =
    At_Begin | At_Get | At_Select | At_Set string | At_Release "string res"
  | At_Choose | At_Insert string | At_Commit string
  | Move_Begin string | Move_Delete string | Move_Insert string | Move_Commit string | Move_Invalidate string
  | Done "string res"

text \<open>
  What the open transaction of a request wrote: whether it deleted the row of its user, and the
  shard of the row that it inserted.
\<close>

record shard_request =
  user :: string
  point :: point
  removed :: bool
  added :: "string option"

record shared =
  tables :: shard_db
  cached :: "string \<Rightarrow> string option"
  requests :: "shard_request list"

text \<open>
  How a call ends. \<open>Silent\<close>: a commit that took effect and whose answer was lost. \<open>Cut\<close>: only some
  rows arrive. \<open>Gone\<close>: a \<open>DELETE\<close> that waited for a transaction which removed the row.
\<close>

datatype outcome = Good | Bad string | Silent string | Cut nat | Gone

definition finish :: "string res \<Rightarrow> shard_request \<Rightarrow> shard_request" where
  "finish r rq = rq\<lparr>point := Done r, removed := False, added := None\<rparr>"

text \<open>The tables as the transaction of a request sees them.\<close>

definition unrowed :: "shard_request \<Rightarrow> shard_db \<Rightarrow> shard_db" where
  "unrowed rq d =
     (if removed rq then d\<lparr>mapping_table := filter (\<lambda>m. fst m \<noteq> user rq) (mapping_table d)\<rparr> else d)"

definition view :: "shard_request \<Rightarrow> shard_db \<Rightarrow> shard_db" where
  "view rq d =
     (case added rq of
        None \<Rightarrow> unrowed rq d
      | Some a \<Rightarrow> (unrowed rq d)\<lparr>mapping_table := mapping_table (unrowed rq d) @ [(user rq, a)]\<rparr>)"

definition begin_step :: "outcome \<Rightarrow> shard_request \<Rightarrow> point \<Rightarrow> shard_request option" where
  "begin_step out rq after =
     (case out of
        Good \<Rightarrow> Some (rq\<lparr>point := after\<rparr>)
      | Bad m \<Rightarrow> Some (finish (Inl (DbError m)) rq)
      | _ \<Rightarrow> None)"

text \<open>\<open>addShardForUser\<close>; \<open>busy\<close>: another open transaction has written the row of this user.\<close>

definition insert_step ::
  "bool \<Rightarrow> outcome \<Rightarrow> shard_db \<Rightarrow> shard_request \<Rightarrow> string \<Rightarrow> point \<Rightarrow> shard_request option" where
  "insert_step busy out d rq a after =
     (case out of
        Bad m \<Rightarrow> Some (finish (Inl (DbError m)) rq)
      | Good \<Rightarrow>
          if busy then None
          else (case SqlCreateUserShard (user rq) a (view rq d) of
                  Inl e \<Rightarrow> Some (finish (Inl e) rq)
                | Inr _ \<Rightarrow> Some (rq\<lparr>point := after, added := Some a\<rparr>))
      | _ \<Rightarrow> None)"

text \<open>\<open>removeShardForUser\<close>; \<open>removing\<close>: another open transaction has deleted the row of this user.\<close>

definition delete_step :: "bool \<Rightarrow> outcome \<Rightarrow> shard_db \<Rightarrow> shard_request \<Rightarrow> point \<Rightarrow> shard_request option" where
  "delete_step removing out d rq after =
     (case out of
        Bad m \<Rightarrow> Some (finish (Inl (DbError m)) rq)
      | Gone \<Rightarrow> Some (rq\<lparr>point := after\<rparr>)
      | Good \<Rightarrow>
          if user rq \<notin> fst ` set (mapping_table d) then Some (rq\<lparr>point := after\<rparr>)
          else if removing then None
          else Some (rq\<lparr>point := after, removed := True\<rparr>)
      | _ \<Rightarrow> None)"

definition commit_step :: "outcome \<Rightarrow> shard_db \<Rightarrow> shard_request \<Rightarrow> point \<Rightarrow> (shard_db \<times> shard_request) option" where
  "commit_step out d rq after =
     (case out of
        Good \<Rightarrow> Some (view rq d, rq\<lparr>point := after, removed := False, added := None\<rparr>)
      | Silent m \<Rightarrow> Some (view rq d, finish (Inl (DbError m)) rq)
      | Bad m \<Rightarrow> Some (d, finish (Inl (DbError m)) rq)
      | _ \<Rightarrow> None)"

text \<open>\<open>selectShard\<close> on the rows that arrive.\<close>

definition choose_from ::
  "((string \<times> int) list \<Rightarrow> (string \<times> int) list) \<Rightarrow> (nat \<times> string) list \<Rightarrow> string" where
  "choose_from ord rows = select_min (ord (fold (\<lambda>(n, a). AList.update a (int n)) rows []))"

definition choose_step ::
  "((string \<times> int) list \<Rightarrow> (string \<times> int) list) \<Rightarrow> outcome \<Rightarrow> shard_db \<Rightarrow> shard_request \<Rightarrow> shard_request option" where
  "choose_step ord out d rq =
     (let rows = map (\<lambda>a. (user_count (view rq d) a, a)) (shard_table (view rq d));
          chosen = (\<lambda>a. if a = '''' then finish (Inl (ErrMsg ''no shard found'')) rq
                        else rq\<lparr>point := At_Insert a\<rparr>)
      in case out of
           Good \<Rightarrow> Some (chosen (choose_from ord rows))
         | Cut n \<Rightarrow> Some (chosen (choose_from ord (take n rows)))
         | Bad m \<Rightarrow> Some (finish (Inl (DbError m)) rq)
         | _ \<Rightarrow> None)"

text \<open>
  The next call of a request to \<open>EnsureShardForUser\<close>. A store that cannot be read is a miss; one
  that cannot be written is logged.
\<close>

definition ensure_step ::
  "((string \<times> int) list \<Rightarrow> (string \<times> int) list) \<Rightarrow> outcome \<Rightarrow> bool \<Rightarrow> shard_db \<Rightarrow>
   (string \<Rightarrow> string option) \<Rightarrow> shard_request \<Rightarrow> (shard_db \<times> (string \<Rightarrow> string option) \<times> shard_request) option" where
  "ensure_step ord out busy d c rq =
     (let stay = map_option (\<lambda>rq'. (d, c, rq'))
      in case point rq of
           At_Begin \<Rightarrow> stay (begin_step out rq At_Get)
         | At_Get \<Rightarrow>
             (case out of
                Good \<Rightarrow> Some (d, c, rq\<lparr>point := (case c (user rq) of Some a \<Rightarrow> At_Release (Inr a) | None \<Rightarrow> At_Select)\<rparr>)
              | Bad _ \<Rightarrow> Some (d, c, rq\<lparr>point := At_Select\<rparr>)
              | _ \<Rightarrow> None)
         | At_Select \<Rightarrow>
             (case out of
                Good \<Rightarrow> Some (d, c, rq\<lparr>point := (case shard_of (view rq d) (user rq) of Some a \<Rightarrow> At_Set a | None \<Rightarrow> At_Choose)\<rparr>)
              | Bad m \<Rightarrow> Some (d, c, rq\<lparr>point := At_Release (Inl (DbError m))\<rparr>)
              | _ \<Rightarrow> None)
         | At_Set a \<Rightarrow>
             (case out of
                Good \<Rightarrow> Some (d, c(user rq \<mapsto> a), rq\<lparr>point := At_Release (Inr a)\<rparr>)
              | Bad _ \<Rightarrow> Some (d, c, rq\<lparr>point := At_Release (Inr a)\<rparr>)
              | _ \<Rightarrow> None)
         | At_Release r \<Rightarrow> Some (d, c, finish r rq)
         | At_Choose \<Rightarrow> stay (choose_step ord out d rq)
         | At_Insert a \<Rightarrow> stay (insert_step busy out d rq a (At_Commit a))
         | At_Commit a \<Rightarrow> map_option (\<lambda>(d', rq'). (d', c, rq')) (commit_step out d rq (Done (Inr a)))
         | _ \<Rightarrow> None)"

text \<open>The next call of a request to \<open>SetShardForUser\<close>; removing from the cache of the server cannot fail.\<close>

definition move_step ::
  "outcome \<Rightarrow> bool \<Rightarrow> bool \<Rightarrow> shard_db \<Rightarrow> (string \<Rightarrow> string option) \<Rightarrow> shard_request \<Rightarrow>
   (shard_db \<times> (string \<Rightarrow> string option) \<times> shard_request) option" where
  "move_step out busy removing d c rq =
     (let stay = map_option (\<lambda>rq'. (d, c, rq'))
      in case point rq of
           Move_Begin a \<Rightarrow> stay (begin_step out rq (Move_Delete a))
         | Move_Delete a \<Rightarrow> stay (delete_step removing out d rq (Move_Insert a))
         | Move_Insert a \<Rightarrow> stay (insert_step busy out d rq a (Move_Commit a))
         | Move_Commit a \<Rightarrow> map_option (\<lambda>(d', rq'). (d', c, rq')) (commit_step out d rq (Move_Invalidate a))
         | Move_Invalidate a \<Rightarrow> Some (d, c(user rq := None), finish (Inr a) rq)
         | _ \<Rightarrow> None)"

fun moving :: "point \<Rightarrow> bool" where
  "moving (Move_Begin a) = True"
| "moving (Move_Delete a) = True"
| "moving (Move_Insert a) = True"
| "moving (Move_Commit a) = True"
| "moving (Move_Invalidate a) = True"
| "moving _ = False"

definition advance ::
  "((string \<times> int) list \<Rightarrow> (string \<times> int) list) \<Rightarrow> outcome \<Rightarrow> bool \<Rightarrow> bool \<Rightarrow> shard_db \<Rightarrow>
   (string \<Rightarrow> string option) \<Rightarrow> shard_request \<Rightarrow> (shard_db \<times> (string \<Rightarrow> string option) \<times> shard_request) option" where
  "advance ord out busy removing d c rq =
     (if moving (point rq) then move_step out busy removing d c rq else ensure_step ord out busy d c rq)"

section \<open>Interleavings\<close>

definition rivals :: "nat \<Rightarrow> shard_request list \<Rightarrow> shard_request list" where
  "rivals i rqs =
     map ((!) rqs) (filter (\<lambda>j. j \<noteq> i \<and> user (rqs ! j) = user (rqs ! i)) [0..<length rqs])"

definition writing :: "shard_request \<Rightarrow> bool" where
  "writing rq \<longleftrightarrow> removed rq \<or> added rq \<noteq> None"

text \<open>An event: a request makes its next call; an entry of the cache expires; a shard is added.\<close>

datatype event = Call nat outcome | Expire string | Add_Shard string

definition perform ::
  "((string \<times> int) list \<Rightarrow> (string \<times> int) list) \<Rightarrow> event \<Rightarrow> shared \<Rightarrow> shared option" where
  "perform ord ev w =
     (case ev of
        Call i out \<Rightarrow>
          (if i < length (requests w) then
             map_option (\<lambda>(d, c, rq). \<lparr>tables = d, cached = c, requests = (requests w)[i := rq]\<rparr>)
               (advance ord out (list_ex writing (rivals i (requests w)))
                  (list_ex removed (rivals i (requests w))) (tables w) (cached w) (requests w ! i))
           else None)
      | Expire u \<Rightarrow> Some (w\<lparr>cached := (cached w)(u := None)\<rparr>)
      | Add_Shard a \<Rightarrow>
          Some (case SqlEnsureShard a (tables w) of Inl e \<Rightarrow> w | Inr (_, d) \<Rightarrow> w\<lparr>tables := d\<rparr>))"

fun run ::
  "((string \<times> int) list \<Rightarrow> (string \<times> int) list) \<Rightarrow> event list \<Rightarrow> shared \<Rightarrow> shared option" where
  "run ord [] w = Some w"
| "run ord (ev # evs) w = (case perform ord ev w of None \<Rightarrow> None | Some w1 \<Rightarrow> run ord evs w1)"

definition ensuring :: "string \<Rightarrow> shard_request" where
  "ensuring u = \<lparr>user = u, point = At_Begin, removed = False, added = None\<rparr>"

definition moving_to :: "string \<Rightarrow> string \<Rightarrow> shard_request" where
  "moving_to u a = \<lparr>user = u, point = Move_Begin a, removed = False, added = None\<rparr>"

definition fresh :: "shard_request \<Rightarrow> bool" where
  "fresh rq \<longleftrightarrow> rq = ensuring (user rq) \<or> (\<exists>a. rq = moving_to (user rq) a)"

section \<open>What every interleaving keeps\<close>

text \<open>The writes of a transaction belong to the point that the request has reached.\<close>

definition fits :: "shard_request \<Rightarrow> bool" where
  "fits rq \<longleftrightarrow>
     (case point rq of
        At_Commit a \<Rightarrow> added rq = Some a \<and> \<not> removed rq
      | Move_Commit a \<Rightarrow> added rq = Some a
      | Move_Insert a \<Rightarrow> added rq = None
      | _ \<Rightarrow> added rq = None \<and> \<not> removed rq)"

text \<open>A transaction can be committed: its row has a free key and a shard.\<close>

definition prepared :: "shard_db \<Rightarrow> shard_request \<Rightarrow> bool" where
  "prepared d rq \<longleftrightarrow>
     (removed rq \<longrightarrow> user rq \<in> fst ` set (mapping_table d)) \<and>
     (\<forall>a. added rq = Some a \<longrightarrow>
        varchar255 (user rq) \<and> a \<in> set (shard_table d) \<and>
        user rq \<notin> fst ` set (mapping_table (unrowed rq d)))"

definition exclusive :: "shard_request list \<Rightarrow> bool" where
  "exclusive rqs \<longleftrightarrow>
     (\<forall>i < length rqs. \<forall>j < length rqs. i \<noteq> j \<longrightarrow> user (rqs ! i) = user (rqs ! j) \<longrightarrow>
        writing (rqs ! i) \<longrightarrow> \<not> writing (rqs ! j))"

definition orderly :: "shared \<Rightarrow> bool" where
  "orderly w \<longleftrightarrow>
     shards_inv (tables w) \<and> (\<forall>rq \<in> set (requests w). prepared (tables w) rq \<and> fits rq) \<and>
     exclusive (requests w)"

lemma set_rivals:
  "set (rivals i rqs) = {rqs ! j | j. j < length rqs \<and> j \<noteq> i \<and> user (rqs ! j) = user (rqs ! i)}"
  by (auto simp: rivals_def)

lemma view_plain [simp]: "\<not> writing rq \<Longrightarrow> view rq d = d"
  by (simp add: view_def unrowed_def writing_def)

lemma unrowed_shards [simp]: "shard_table (unrowed rq d) = shard_table d"
  by (simp add: unrowed_def)

lemma view_shards [simp]: "shard_table (view rq d) = shard_table d"
  by (simp add: view_def split: option.split)

lemma finish_simps [simp]:
  "user (finish r rq) = user rq" "point (finish r rq) = Done r" "removed (finish r rq) = False"
  "added (finish r rq) = None" "writing (finish r rq) = False" "fits (finish r rq)" "prepared d (finish r rq)"
  by (simp_all add: finish_def writing_def fits_def prepared_def)

lemmas step_defs = begin_step_def insert_step_def delete_step_def choose_step_def

text \<open>
  The effect of one call in the terms of the invariant: either it commits what the request wrote, or
  the tables stay, and the request writes only rows that are free.
\<close>

definition lawful ::
  "bool \<Rightarrow> bool \<Rightarrow> shard_db \<Rightarrow> shard_request \<Rightarrow> shard_db \<Rightarrow> shard_request \<Rightarrow> bool" where
  "lawful busy removing d rq d' rq' \<longleftrightarrow>
     user rq' = user rq \<and> fits rq' \<and>
     (d' = d \<and> prepared d rq' \<and>
        (writing rq' \<longrightarrow> writing rq \<or> \<not> busy \<or> \<not> removing \<and> user rq \<in> fst ` set (mapping_table d)) \<or>
      d' = view rq d \<and> writing rq \<and> \<not> writing rq')"

lemma prepared_plain: "\<not> writing rq \<Longrightarrow> prepared d rq"
  by (simp add: prepared_def writing_def)

lemma lawful_idle: "user rq' = user rq \<Longrightarrow> fits rq' \<Longrightarrow> \<not> writing rq' \<Longrightarrow> lawful busy removing d rq d rq'"
  by (simp add: lawful_def prepared_def writing_def)

lemma lawful_begin:
  assumes "begin_step out rq after = Some rq'" and "\<not> writing rq" and "fits (rq\<lparr>point := after\<rparr>)"
  shows "lawful busy removing d rq d rq'"
  by (rule lawful_idle) (use assms in \<open>auto simp: begin_step_def writing_def split: outcome.splits\<close>)

lemma lawful_choose:
  assumes "choose_step ord out d rq = Some rq'" and "\<not> writing rq"
  shows "lawful busy removing d rq d rq'"
  by (rule lawful_idle)
    (use assms in \<open>auto simp: choose_step_def Let_def writing_def fits_def split: outcome.splits if_splits\<close>)

lemma lawful_insert:
  assumes "insert_step busy out d rq a after = Some rq'" and "added rq = None" and "prepared d rq"
    and "fits (rq\<lparr>point := after, added := Some a\<rparr>)"
  shows "lawful busy removing d rq d rq'"
proof (cases "\<exists>r. rq' = finish r rq")
  case True
  then show ?thesis by (auto intro: lawful_idle)
next
  case False
  with assms(1) have "\<not> busy" and q: "SqlCreateUserShard (user rq) a (view rq d) = Inr ((), snd (projr (SqlCreateUserShard (user rq) a (view rq d))))"
    and rq': "rq' = rq\<lparr>point := after, added := Some a\<rparr>"
    by (auto simp: insert_step_def split: outcome.splits if_splits sum.splits)
  have v: "view rq d = unrowed rq d" using assms(2) by (simp add: view_def)
  from q have "varchar255 (user rq)" "a \<in> set (shard_table d)" "user rq \<notin> fst ` set (mapping_table (unrowed rq d))"
    unfolding v by (auto simp: SqlCreateUserShard_def split: if_splits)
  with \<open>\<not> busy\<close> assms(3,4) rq' show ?thesis
    by (auto simp: lawful_def prepared_def unrowed_def split: if_splits)
qed

lemma lawful_delete:
  assumes "delete_step removing out d rq after = Some rq'" and "\<not> writing rq"
    and "fits (rq\<lparr>point := after\<rparr>)" and "fits (rq\<lparr>point := after, removed := True\<rparr>)"
  shows "lawful busy removing d rq d rq'"
  using assms
  by (auto simp: delete_step_def lawful_def prepared_def writing_def intro: rev_image_eqI
      split: outcome.splits if_splits)

lemma lawful_commit:
  assumes "commit_step out d rq after = Some (d', rq')" and "added rq = Some a"
    and "fits (rq\<lparr>point := after, removed := False, added := None\<rparr>)"
  shows "lawful busy removing d rq d' rq'"
  using assms
  by (auto simp: commit_step_def lawful_def writing_def split: outcome.splits)

lemma lawful_ensure:
  assumes "ensure_step ord out busy d c rq = Some (d', c', rq')" and "fits rq" and "prepared d rq"
  shows "lawful busy removing d rq d' rq'"
proof (cases "point rq")
  case At_Begin
  then show ?thesis using assms by (auto simp: ensure_step_def fits_def writing_def intro!: lawful_begin)
next
  case At_Choose
  then show ?thesis using assms by (auto simp: ensure_step_def fits_def writing_def intro!: lawful_choose)
next
  case (At_Insert a)
  then show ?thesis using assms by (auto simp: ensure_step_def fits_def intro!: lawful_insert)
next
  case (At_Commit a)
  then show ?thesis using assms by (auto simp: ensure_step_def fits_def intro!: lawful_commit)
next
  case At_Get
  then show ?thesis using assms
    by (auto simp: ensure_step_def fits_def writing_def intro!: lawful_idle split: outcome.splits option.splits)
next
  case At_Select
  then show ?thesis using assms
    by (auto simp: ensure_step_def fits_def writing_def intro!: lawful_idle split: outcome.splits option.splits)
next
  case (At_Set a)
  then show ?thesis using assms
    by (auto simp: ensure_step_def fits_def writing_def intro!: lawful_idle split: outcome.splits)
next
  case (At_Release r)
  then show ?thesis using assms by (auto simp: ensure_step_def intro!: lawful_idle)
qed (use assms(1) in \<open>simp_all add: ensure_step_def\<close>)

lemma lawful_move:
  assumes "move_step out busy removing d c rq = Some (d', c', rq')" and "fits rq" and "prepared d rq"
  shows "lawful busy removing d rq d' rq'"
proof (cases "point rq")
  case (Move_Begin a)
  then show ?thesis using assms by (auto simp: move_step_def fits_def writing_def intro!: lawful_begin)
next
  case (Move_Delete a)
  then show ?thesis using assms by (auto simp: move_step_def fits_def writing_def intro!: lawful_delete)
next
  case (Move_Insert a)
  then show ?thesis using assms by (auto simp: move_step_def fits_def intro!: lawful_insert)
next
  case (Move_Commit a)
  then show ?thesis using assms by (auto simp: move_step_def fits_def intro!: lawful_commit)
next
  case (Move_Invalidate a)
  then show ?thesis using assms by (auto simp: move_step_def intro!: lawful_idle)
qed (use assms(1) in \<open>simp_all add: move_step_def\<close>)

lemma lawful_advance:
  assumes "advance ord out busy removing d c rq = Some (d', c', rq')" and "fits rq" and "prepared d rq"
  shows "lawful busy removing d rq d' rq'"
  using assms lawful_ensure lawful_move by (auto simp: advance_def split: if_splits)

lemma exclusiveD:
  "exclusive rqs \<Longrightarrow> i < length rqs \<Longrightarrow> j < length rqs \<Longrightarrow> i \<noteq> j \<Longrightarrow> user (rqs ! i) = user (rqs ! j) \<Longrightarrow>
   writing (rqs ! i) \<Longrightarrow> \<not> writing (rqs ! j)"
  by (simp add: exclusive_def)

lemma not_busy:
  "\<not> list_ex P (rivals i rqs) \<Longrightarrow> j < length rqs \<Longrightarrow> j \<noteq> i \<Longrightarrow> user (rqs ! j) = user (rqs ! i) \<Longrightarrow> \<not> P (rqs ! j)"
  by (auto simp: list_ex_iff set_rivals)

lemma exclusive_update:
  assumes "exclusive rqs" and "i < length rqs" and "user rq' = user (rqs ! i)"
    and "\<And>j. writing rq' \<Longrightarrow> j < length rqs \<Longrightarrow> j \<noteq> i \<Longrightarrow> user (rqs ! j) = user (rqs ! i) \<Longrightarrow> \<not> writing (rqs ! j)"
  shows "exclusive (rqs[i := rq'])"
  unfolding exclusive_def
proof (intro allI impI)
  fix j k
  assume jk: "j < length (rqs[i := rq'])" "k < length (rqs[i := rq'])" "j \<noteq> k"
    "user (rqs[i := rq'] ! j) = user (rqs[i := rq'] ! k)" "writing (rqs[i := rq'] ! j)"
  show "\<not> writing (rqs[i := rq'] ! k)"
  proof (cases "k = i")
    case True
    with jk assms(3) have j: "j < length rqs" "j \<noteq> i" "user (rqs ! j) = user (rqs ! i)" "writing (rqs ! j)" by auto
    with assms(4) have "\<not> writing rq'" by blast
    with True jk show ?thesis by simp
  next
    case False
    show ?thesis
    proof (cases "j = i")
      case True
      with False jk assms(3,4) show ?thesis by auto
    next
      case j: False
      with False jk exclusiveD [OF assms(1), of j k] show ?thesis by simp
    qed
  qed
qed

text \<open>A commit of one request leaves the transactions of the others as they can be committed.\<close>

lemma prepared_after_commit:
  assumes "prepared d rq" and "user rq \<noteq> user other" and "prepared d other"
  shows "prepared (view rq d) other"
proof -
  have keys: "user other \<in> fst ` set (mapping_table (view rq d)) \<longleftrightarrow> user other \<in> fst ` set (mapping_table d)"
    using assms(2) by (auto simp: view_def unrowed_def intro: rev_image_eqI split: option.splits)
  have rows: "user other \<in> fst ` set (mapping_table (unrowed other (view rq d))) \<longleftrightarrow>
      user other \<in> fst ` set (mapping_table (unrowed other d))"
    using keys by (auto simp: unrowed_def)
  show ?thesis using assms(3) by (simp add: prepared_def keys rows)
qed

lemma view_inv:
  assumes "shards_inv d" and "prepared d rq"
  shows "shards_inv (view rq d)"
proof -
  have u: "shards_inv (unrowed rq d)"
    using assms(1) by (auto simp: shards_inv_def unrowed_def distinct_map_filter)
  show ?thesis
  proof (cases "added rq")
    case (Some a)
    with u assms(2) show ?thesis by (auto simp: view_def shards_inv_def prepared_def)
  qed (simp add: view_def u)
qed

lemma orderly_call:
  assumes w: "orderly w" and i: "i < length (requests w)"
    and l: "lawful (list_ex writing (rivals i (requests w))) (list_ex removed (rivals i (requests w)))
       (tables w) (requests w ! i) d rq"
  shows "orderly \<lparr>tables = d, cached = c, requests = (requests w)[i := rq]\<rparr>"
proof -
  let ?rqs = "requests w" and ?d = "tables w"
  have each: "prepared ?d (?rqs ! j)" "fits (?rqs ! j)" if "j < length ?rqs" for j
    using w that by (simp_all add: orderly_def)
  have ex: "exclusive ?rqs" and inv: "shards_inv ?d" using w by (simp_all add: orderly_def)
  have "exclusive (?rqs[i := rq])"
  proof (rule exclusive_update [OF ex i])
    show "user rq = user (?rqs ! i)" using l by (simp add: lawful_def)
    fix j assume j: "writing rq" "j < length ?rqs" "j \<noteq> i" "user (?rqs ! j) = user (?rqs ! i)"
    from l j(1) consider "writing (?rqs ! i)" | "\<not> list_ex writing (rivals i ?rqs)"
      | "\<not> list_ex removed (rivals i ?rqs)" "user (?rqs ! i) \<in> fst ` set (mapping_table ?d)"
      by (auto simp: lawful_def)
    then show "\<not> writing (?rqs ! j)"
    proof cases
      case 1
      then show ?thesis using exclusiveD [OF ex i j(2)] j by simp
    next
      case 2
      then show ?thesis using not_busy j by blast
    next
      case 3
      from not_busy [OF 3(1) j(2,3,4)] have r: "\<not> removed (?rqs ! j)" .
      with each(1) [OF j(2)] 3(2) j(4) show ?thesis
        by (auto simp: prepared_def unrowed_def writing_def)
    qed
  qed
  moreover have "prepared d (?rqs ! j)" if j: "j < length ?rqs" "j \<noteq> i" for j
  proof (cases "d = ?d")
    case False
    with l have d: "d = view (?rqs ! i) ?d" and wr: "writing (?rqs ! i)" by (auto simp: lawful_def)
    show ?thesis
    proof (cases "user (?rqs ! j) = user (?rqs ! i)")
      case True
      with exclusiveD [OF ex i j(1)] j(2) wr show ?thesis by (simp add: prepared_plain)
    next
      case False
      then show ?thesis unfolding d using prepared_after_commit each(1) i j(1) by metis
    qed
  qed (use each j in simp)
  moreover have "prepared d rq" "fits rq" using l by (auto simp: lawful_def prepared_plain)
  moreover have "shards_inv d" using l inv view_inv [OF inv each(1) [OF i]] by (auto simp: lawful_def)
  ultimately show ?thesis using each i
    by (auto simp: orderly_def in_set_conv_nth nth_list_update)
qed

lemma orderly_perform:
  assumes w: "orderly w" and p: "perform ord ev w = Some w1"
  shows "orderly w1"
proof (cases ev)
  case (Call i out)
  with p obtain d c rq where i: "i < length (requests w)" and
    a: "advance ord out (list_ex writing (rivals i (requests w))) (list_ex removed (rivals i (requests w)))
          (tables w) (cached w) (requests w ! i) = Some (d, c, rq)" and
    w1: "w1 = \<lparr>tables = d, cached = c, requests = (requests w)[i := rq]\<rparr>"
    by (auto simp: perform_def split: if_splits)
  from w i have "fits (requests w ! i)" "prepared (tables w) (requests w ! i)" by (simp_all add: orderly_def)
  from orderly_call [OF w i lawful_advance [OF a this]] show ?thesis by (simp add: w1)
next
  case (Expire u)
  with w p show ?thesis by (auto simp: perform_def orderly_def)
next
  case (Add_Shard a)
  have keep: "shards_inv d \<and> (\<forall>rq. prepared (tables w) rq \<longrightarrow> prepared d rq)" if "SqlEnsureShard a (tables w) = Inr (u, d)" for u d
  proof -
    have "shards_inv d" using keeps_statements(4) w that unfolding keeps_def orderly_def by blast
    moreover from that have "mapping_table d = mapping_table (tables w)"
      "set (shard_table (tables w)) \<subseteq> set (shard_table d)"
      by (auto simp: SqlEnsureShard_def split: if_splits)
    ultimately show ?thesis by (auto simp: prepared_def unrowed_def)
  qed
  show ?thesis
  proof (cases "SqlEnsureShard a (tables w)")
    case (Inl e)
    with Add_Shard p w show ?thesis by (simp add: perform_def)
  next
    case (Inr r)
    obtain u d where r: "r = (u, d)" by (cases r)
    from Add_Shard p Inr r have w1: "w1 = w\<lparr>tables := d\<rparr>" by (simp add: perform_def)
    from keep [of u d] Inr r w show ?thesis by (auto simp: w1 orderly_def)
  qed
qed

lemma orderly_run: "orderly w \<Longrightarrow> run ord evs w = Some w1 \<Longrightarrow> orderly w1"
  by (induction ord evs w rule: run.induct) (auto dest: orderly_perform split: option.splits)

lemma fresh_orderly:
  assumes "shards_inv (tables w)" and "\<forall>rq \<in> set (requests w). fresh rq"
  shows "orderly w"
proof -
  have "\<not> writing rq \<and> fits rq" if "fresh rq" for rq
    using that by (cases rq) (auto simp: fresh_def ensuring_def moving_to_def writing_def fits_def)
  then show ?thesis using assms by (auto simp: orderly_def exclusive_def prepared_plain)
qed

section \<open>What concurrent requests of a user are told\<close>

text \<open>The shard that a request will answer, or has answered.\<close>

definition told :: "shard_request \<Rightarrow> string option" where
  "told rq =
     (case point rq of
        At_Set a \<Rightarrow> Some a
      | At_Release r \<Rightarrow> (case r of Inl e \<Rightarrow> None | Inr a \<Rightarrow> Some a)
      | Done r \<Rightarrow> (case r of Inl e \<Rightarrow> None | Inr a \<Rightarrow> Some a)
      | _ \<Rightarrow> None)"

text \<open>Nobody moves the user \<open>u\<close>, and what the cache and the requests know of \<open>u\<close> is committed.\<close>

definition trusted :: "string \<Rightarrow> shared \<Rightarrow> bool" where
  "trusted u w \<longleftrightarrow>
     (\<forall>a. cached w u = Some a \<longrightarrow> shard_of (tables w) u = Some a) \<and>
     (\<forall>rq \<in> set (requests w). user rq = u \<longrightarrow>
        \<not> moving (point rq) \<and> (\<forall>a. told rq = Some a \<longrightarrow> shard_of (tables w) u = Some a))"

lemma view_other: "user rq \<noteq> u \<Longrightarrow> shard_of (view rq d) u = shard_of d u"
  by (simp add: view_def unrowed_def shard_of_def map_of_filter_fst map_add_def split: option.split)

lemma view_own:
  assumes "added rq = Some a" and "\<not> removed rq" and "prepared d rq"
  shows "shard_of (view rq d) (user rq) = Some a" and "shard_of d (user rq) = None"
proof -
  from assms have "user rq \<notin> fst ` set (mapping_table d)" by (simp add: prepared_def unrowed_def)
  then have "map_of (mapping_table d) (user rq) = None" by (simp add: map_of_eq_None_iff)
  with assms show "shard_of (view rq d) (user rq) = Some a" "shard_of d (user rq) = None"
    by (simp_all add: view_def unrowed_def shard_of_def map_add_def)
qed

lemma finish_told [simp]: "told (finish (Inl e) rq) = None" "told (finish (Inr a) rq) = Some a"
  by (simp_all add: told_def)

text \<open>A call of \<open>EnsureShardForUser\<close> for the user itself.\<close>

definition reliable :: "shard_db \<Rightarrow> (string \<Rightarrow> string option) \<Rightarrow> shard_request \<Rightarrow> bool" where
  "reliable d c rq \<longleftrightarrow>
     (\<forall>a. c (user rq) = Some a \<longrightarrow> shard_of d (user rq) = Some a) \<and> \<not> moving (point rq) \<and>
     (\<forall>a. told rq = Some a \<longrightarrow> shard_of d (user rq) = Some a)"

lemma reliable_same:
  "reliable d c rq \<Longrightarrow> user rq' = user rq \<Longrightarrow> \<not> moving (point rq') \<Longrightarrow> told rq' = None \<Longrightarrow> reliable d c rq'"
  by (simp add: reliable_def)

lemma reliable_stay:
  assumes "reliable d c rq"
  shows "begin_step out rq At_Get = Some rq' \<Longrightarrow> reliable d c rq'"
    and "choose_step ord out d rq = Some rq' \<Longrightarrow> reliable d c rq'"
    and "insert_step busy out d rq a (At_Commit a) = Some rq' \<Longrightarrow> reliable d c rq'"
  by (rule reliable_same [OF assms];
      auto simp: begin_step_def choose_step_def insert_step_def Let_def told_def finish_def
        split: outcome.splits if_splits sum.splits)+

lemma reliable_commit:
  assumes r: "reliable d c rq" and "fits rq" and p: "prepared d rq" and pt: "point rq = At_Commit a"
    and s: "commit_step out d rq (Done (Inr a)) = Some (d', rq')"
  shows "reliable d' c rq' \<and> (\<forall>b. shard_of d (user rq) = Some b \<longrightarrow> shard_of d' (user rq) = Some b)"
proof -
  from assms have w: "added rq = Some a" "\<not> removed rq" by (simp_all add: fits_def)
  note v = view_own [OF w p]
  from s v r show ?thesis
    by (auto simp: commit_step_def reliable_def told_def finish_def split: outcome.splits)
qed

lemma reliable_advance:
  assumes s: "advance ord out busy removing d c rq = Some (d', c', rq')" and f: "fits rq" and p: "prepared d rq"
    and r: "reliable d c rq"
  shows "reliable d' c' rq' \<and> (\<forall>b. shard_of d (user rq) = Some b \<longrightarrow> shard_of d' (user rq) = Some b)"
proof -
  from s r have e: "ensure_step ord out busy d c rq = Some (d', c', rq')" by (simp add: advance_def reliable_def)
  have plain: "shard_of (view rq d) = shard_of d" if "\<not> writing rq" using that by simp
  show ?thesis
  proof (cases "point rq")
    case (At_Commit a)
    with e obtain d1 rq1 where "commit_step out d rq (Done (Inr a)) = Some (d1, rq1)" "d' = d1" "c' = c" "rq' = rq1"
      by (auto simp: ensure_step_def)
    with reliable_commit [OF r f p At_Commit] show ?thesis by blast
  next
    case At_Begin
    with e reliable_stay(1) [OF r] show ?thesis by (auto simp: ensure_step_def)
  next
    case At_Choose
    with e reliable_stay(2) [OF r] show ?thesis by (auto simp: ensure_step_def)
  next
    case (At_Insert a)
    with e reliable_stay(3) [OF r] show ?thesis by (auto simp: ensure_step_def)
  next
    case At_Get
    with e r show ?thesis
      by (auto simp: ensure_step_def reliable_def told_def split: outcome.splits option.splits)
  next
    case At_Select
    with f have "\<not> writing rq" by (simp add: fits_def writing_def)
    with At_Select e r show ?thesis
      by (auto simp: ensure_step_def reliable_def told_def split: outcome.splits option.splits)
  next
    case (At_Set a)
    with e r show ?thesis by (auto simp: ensure_step_def reliable_def told_def split: outcome.splits)
  next
    case (At_Release x)
    with e r show ?thesis by (auto simp: ensure_step_def reliable_def told_def finish_def split: sum.splits)
  qed (use e in \<open>simp_all add: ensure_step_def\<close>)
qed

text \<open>A call for another user.\<close>

lemma steps_user:
  "begin_step out rq after = Some rq' \<Longrightarrow> user rq' = user rq"
  "choose_step ord out d rq = Some rq' \<Longrightarrow> user rq' = user rq"
  "insert_step busy out d rq a after = Some rq' \<Longrightarrow> user rq' = user rq"
  "delete_step removing out d rq after = Some rq' \<Longrightarrow> user rq' = user rq"
  "commit_step out d rq after = Some (d', rq') \<Longrightarrow> user rq' = user rq"
  by (auto simp: step_defs commit_step_def Let_def finish_def split: outcome.splits if_splits sum.splits)

lemma commit_step_other:
  "commit_step out d rq after = Some (d', rq') \<Longrightarrow> user rq \<noteq> u \<Longrightarrow> shard_of d' u = shard_of d u"
  using view_other by (auto simp: commit_step_def split: outcome.splits)

lemma ensure_step_other:
  assumes "ensure_step ord out busy d c rq = Some (d', c', rq')" and "user rq \<noteq> u"
  shows "c' u = c u \<and> shard_of d' u = shard_of d u \<and> user rq' = user rq"
  using assms(1) assms(2)
  by (cases "point rq")
    (auto simp: ensure_step_def steps_user dest: commit_step_other split: outcome.splits)

lemma move_step_other:
  assumes "move_step out busy removing d c rq = Some (d', c', rq')" and "user rq \<noteq> u"
  shows "c' u = c u \<and> shard_of d' u = shard_of d u \<and> user rq' = user rq"
  using assms(1) assms(2)
  by (cases "point rq") (auto simp: move_step_def steps_user dest: commit_step_other)

lemma advance_other:
  assumes "advance ord out busy removing d c rq = Some (d', c', rq')" and "user rq \<noteq> u"
  shows "c' u = c u" and "shard_of d' u = shard_of d u" and "user rq' = user rq"
  using assms ensure_step_other [of ord out busy d c rq d' c' rq' u] move_step_other [of out busy removing d c rq d' c' rq' u]
  by (auto simp: advance_def split: if_splits)

lemma trusted_call:
  assumes t: "trusted u w" and o: "orderly w" and i: "i < length (requests w)"
    and a: "advance ord out busy removing (tables w) (cached w) (requests w ! i) = Some (d, c, rq)"
  shows "trusted u \<lparr>tables = d, cached = c, requests = (requests w)[i := rq]\<rparr> \<and>
    (\<forall>b. shard_of (tables w) u = Some b \<longrightarrow> shard_of d u = Some b)"
proof (cases "user (requests w ! i) = u")
  case True
  let ?rq = "requests w ! i"
  have f: "fits ?rq" "prepared (tables w) ?rq" using o i by (simp_all add: orderly_def)
  have "?rq \<in> set (requests w)" using i by simp
  then have "reliable (tables w) (cached w) ?rq" using t True by (simp add: trusted_def reliable_def)
  from reliable_advance [OF a f this] have r: "reliable d c rq"
    and keep: "\<forall>b. shard_of (tables w) u = Some b \<longrightarrow> shard_of d u = Some b"
    using True by auto
  have u: "user rq = u" using lawful_advance [OF a f] True by (simp add: lawful_def)
  have "\<not> moving (point x) \<and> (\<forall>b. told x = Some b \<longrightarrow> shard_of d u = Some b)"
    if "x \<in> set ((requests w)[i := rq])" "user x = u" for x
  proof (cases "x = rq")
    case False
    with that have "x \<in> set (requests w)" using set_update_subset_insert by fastforce
    with t that(2) keep show ?thesis by (auto simp: trusted_def)
  qed (use r u in \<open>simp add: reliable_def\<close>)
  with r u keep show ?thesis by (auto simp: trusted_def reliable_def)
next
  case False
  note o = advance_other [OF a False]
  have "x \<in> set (requests w)" if "x \<in> set ((requests w)[i := rq])" "user x = u" for x
    using that False o(3) set_update_subset_insert by fastforce
  with t o(1,2) show ?thesis by (auto simp: trusted_def)
qed

lemma trusted_perform:
  assumes t: "trusted u w" and o: "orderly w" and p: "perform ord ev w = Some w1"
  shows "trusted u w1 \<and> (\<forall>b. shard_of (tables w) u = Some b \<longrightarrow> shard_of (tables w1) u = Some b)"
proof (cases ev)
  case (Call i out)
  with p obtain d c rq where i: "i < length (requests w)" and
    a: "advance ord out (list_ex writing (rivals i (requests w))) (list_ex removed (rivals i (requests w)))
          (tables w) (cached w) (requests w ! i) = Some (d, c, rq)" and
    w1: "w1 = \<lparr>tables = d, cached = c, requests = (requests w)[i := rq]\<rparr>"
    by (auto simp: perform_def split: if_splits)
  from trusted_call [OF t o i a] show ?thesis by (simp add: w1)
next
  case (Expire v)
  with t p show ?thesis by (auto simp: perform_def trusted_def split: if_splits)
next
  case (Add_Shard a)
  have "tables w1 = tables w \<or> mapping_table (tables w1) = mapping_table (tables w)"
    "cached w1 = cached w" "requests w1 = requests w"
    using Add_Shard p by (auto simp: perform_def SqlEnsureShard_def split: sum.splits if_splits)
  then have "shard_of (tables w1) = shard_of (tables w)" "cached w1 = cached w" "requests w1 = requests w"
    by (auto simp: shard_of_def)
  with t show ?thesis by (simp add: trusted_def)
qed

lemma trusted_run:
  assumes "trusted u w" and "orderly w" and "run ord evs w = Some w1"
  shows "trusted u w1 \<and> (\<forall>b. shard_of (tables w) u = Some b \<longrightarrow> shard_of (tables w1) u = Some b)"
  using assms
proof (induction ord evs w rule: run.induct)
  case (2 ord ev evs w)
  then obtain w0 where p: "perform ord ev w = Some w0" "run ord evs w0 = Some w1" by (auto split: option.splits)
  from trusted_perform [OF 2(2,3) p(1)] 2(1) [OF p(1) _ _ p(2)] orderly_perform [OF 2(3) p(1)]
  show ?case by auto
qed simp

section \<open>Every run ends\<close>

fun calls_left :: "point \<Rightarrow> nat" where
  "calls_left At_Begin = 6"
| "calls_left At_Get = 5"
| "calls_left At_Select = 4"
| "calls_left (At_Set a) = 2"
| "calls_left (At_Release r) = 1"
| "calls_left At_Choose = 3"
| "calls_left (At_Insert a) = 2"
| "calls_left (At_Commit a) = 1"
| "calls_left (Move_Begin a) = 5"
| "calls_left (Move_Delete a) = 4"
| "calls_left (Move_Insert a) = 3"
| "calls_left (Move_Commit a) = 2"
| "calls_left (Move_Invalidate a) = 1"
| "calls_left (Done r) = 0"

fun is_call :: "event \<Rightarrow> bool" where
  "is_call (Call i out) = True"
| "is_call _ = False"

definition calls :: "event list \<Rightarrow> nat" where
  "calls evs = length (filter is_call evs)"

lemma steps_point:
  "begin_step out rq after = Some rq' \<Longrightarrow> calls_left (point rq') \<le> calls_left after"
  "choose_step ord out d rq = Some rq' \<Longrightarrow> calls_left (point rq') \<le> 2"
  "insert_step busy out d rq a after = Some rq' \<Longrightarrow> calls_left (point rq') \<le> calls_left after"
  "delete_step removing out d rq after = Some rq' \<Longrightarrow> calls_left (point rq') \<le> calls_left after"
  "commit_step out d rq after = Some (d', rq') \<Longrightarrow> calls_left (point rq') \<le> calls_left after"
  by (auto simp: step_defs commit_step_def Let_def split: outcome.splits if_splits sum.splits)

lemma advance_decreases:
  assumes "advance ord out busy removing d c rq = Some (d', c', rq')"
  shows "calls_left (point rq') < calls_left (point rq)"
  using assms
  by (cases "point rq")
    (auto simp: advance_def ensure_step_def move_step_def dest!: steps_point split: outcome.splits option.splits)

definition work_left :: "shared \<Rightarrow> nat" where
  "work_left w = sum_list (map (\<lambda>rq. calls_left (point rq)) (requests w))"

lemma perform_work:
  assumes "perform ord ev w = Some w1"
  shows "work_left w1 + (if is_call ev then 1 else 0) \<le> work_left w" and "length (requests w1) = length (requests w)"
proof -
  have "work_left w1 + (if is_call ev then 1 else 0) \<le> work_left w \<and> length (requests w1) = length (requests w)"
  proof (cases ev)
    case (Call i out)
    with assms obtain d c rq where i: "i < length (requests w)" and
      a: "advance ord out (list_ex writing (rivals i (requests w))) (list_ex removed (rivals i (requests w)))
            (tables w) (cached w) (requests w ! i) = Some (d, c, rq)" and
      w1: "w1 = \<lparr>tables = d, cached = c, requests = (requests w)[i := rq]\<rparr>"
      by (auto simp: perform_def split: if_splits)
    from i have "map (\<lambda>rq. calls_left (point rq)) (requests w) ! i \<le> work_left w"
      unfolding work_left_def by (intro elem_le_sum_list) simp
    with advance_decreases [OF a] i show ?thesis
      by (simp add: w1 work_left_def map_update sum_list_update Call)
  qed (use assms in \<open>auto simp: perform_def work_left_def split: sum.splits\<close>)
  then show "work_left w1 + (if is_call ev then 1 else 0) \<le> work_left w" "length (requests w1) = length (requests w)"
    by auto
qed

lemma run_work: "run ord evs w = Some w1 \<Longrightarrow> work_left w1 + calls evs \<le> work_left w"
proof (induction ord evs w rule: run.induct)
  case (2 ord ev evs w)
  then obtain w0 where p: "perform ord ev w = Some w0" "run ord evs w0 = Some w1" by (auto split: option.splits)
  from perform_work(1) [OF p(1)] 2(1) [OF p] show ?case by (auto simp: calls_def split: if_splits)
qed (simp add: calls_def)

text \<open>Nothing waits for ever: when no request can make its next call, all requests are done.\<close>

lemma advance_enabled:
  assumes "\<forall>r. point rq \<noteq> Done r" and "\<not> busy" and "\<not> removing"
  shows "advance ord Good busy removing d c rq \<noteq> None"
  using assms
  by (cases "point rq")
    (auto simp: advance_def ensure_step_def move_step_def step_defs commit_step_def Let_def
      split: sum.split)

lemma writer_enabled:
  assumes "writing rq" and "fits rq" and "\<not> busy"
  shows "advance ord Good busy removing d c rq \<noteq> None"
  using assms
  by (cases "point rq")
    (auto simp: advance_def ensure_step_def move_step_def insert_step_def commit_step_def fits_def
      writing_def split: sum.split)

lemma never_stuck:
  assumes o: "orderly w" and "rq \<in> set (requests w)" and nd: "\<forall>r. point rq \<noteq> Done r"
  shows "\<exists>i. perform ord (Call i Good) w \<noteq> None"
proof -
  let ?rqs = "requests w"
  have enabled: "perform ord (Call i Good) w \<noteq> None" if "i < length ?rqs"
    "\<And>busy removing. \<not> list_ex writing (rivals i ?rqs) \<Longrightarrow> busy = False \<Longrightarrow> removing = list_ex removed (rivals i ?rqs) \<Longrightarrow>
       advance ord Good busy removing (tables w) (cached w) (?rqs ! i) \<noteq> None"
    "\<not> list_ex writing (rivals i ?rqs)" for i
    using that by (auto simp: perform_def)
  show ?thesis
  proof (cases "\<exists>j < length ?rqs. writing (?rqs ! j)")
    case True
    then obtain j where j: "j < length ?rqs" "writing (?rqs ! j)" by blast
    have "exclusive ?rqs" "fits (?rqs ! j)" using o j(1) by (simp_all add: orderly_def)
    moreover from this j have "\<not> list_ex writing (rivals j ?rqs)"
      by (auto simp: list_ex_iff set_rivals exclusive_def)
    ultimately show ?thesis using enabled [of j] writer_enabled j by blast
  next
    case False
    obtain i where i: "i < length ?rqs" "rq = ?rqs ! i" using assms(2) by (auto simp: in_set_conv_nth)
    from False have "\<not> list_ex writing (rivals i ?rqs)" by (auto simp: list_ex_iff set_rivals)
    moreover from this have "\<not> list_ex removed (rivals i ?rqs)" by (auto simp: list_ex_iff writing_def)
    ultimately show ?thesis using enabled [of i] advance_enabled [OF nd] i by auto
  qed
qed

section \<open>A request on its own is the operation\<close>

definition alone ::
  "((string \<times> int) list \<Rightarrow> (string \<times> int) list) \<Rightarrow> shard_db \<Rightarrow> (string \<Rightarrow> string option) \<Rightarrow> shard_request \<Rightarrow>
   shard_db \<Rightarrow> (string \<Rightarrow> string option) \<Rightarrow> shard_request \<Rightarrow> bool" where
  "alone ord d c rq d' c' rq' \<longleftrightarrow>
     (\<exists>evs. run ord evs \<lparr>tables = d, cached = c, requests = [rq]\<rparr> =
        Some \<lparr>tables = d', cached = c', requests = [rq']\<rparr>)"

lemma alone_done: "alone ord d c rq d c rq"
  unfolding alone_def by (rule exI [of _ "[]"]) simp

lemma alone_step:
  assumes "advance ord out False False d c rq = Some (d1, c1, rq1)" and "alone ord d1 c1 rq1 d' c' rq'"
  shows "alone ord d c rq d' c' rq'"
proof -
  from assms(2) obtain evs where "run ord evs \<lparr>tables = d1, cached = c1, requests = [rq1]\<rparr> =
      Some \<lparr>tables = d', cached = c', requests = [rq']\<rparr>" by (auto simp: alone_def)
  then have "run ord (Call 0 out # evs) \<lparr>tables = d, cached = c, requests = [rq]\<rparr> =
      Some \<lparr>tables = d', cached = c', requests = [rq']\<rparr>"
    using assms(1) by (simp add: perform_def rivals_def)
  then show ?thesis unfolding alone_def by blast
qed

lemma alone_last:
  "advance ord out False False d c rq = Some (d1, c1, rq1) \<Longrightarrow> alone ord d c rq d1 c1 rq1"
  by (rule alone_step [OF _ alone_done])

definition at :: "string \<Rightarrow> point \<Rightarrow> shard_request" where
  "at u p = \<lparr>user = u, point = p, removed = False, added = None\<rparr>"

lemma at_simps [simp]:
  "user (at u p) = u" "point (at u p) = p" "removed (at u p) = False" "added (at u p) = None"
  "finish r (at u p) = at u (Done r)" "(at u p)\<lparr>point := q\<rparr> = at u q" "view (at u p) d = d"
  by (simp_all add: at_def finish_def view_def unrowed_def)

text \<open>The failures of the database: every error comes from the driver.\<close>

definition driver_faults :: "shard_db sql \<Rightarrow> bool" where
  "driver_faults s \<longleftrightarrow> (\<forall>f \<in> set (faults s). f = Fine \<or> (\<exists>m. f = Lost (DbError m) \<or> f = Unknown (DbError m)))"

lemma driver_fault:
  assumes "driver_faults s" and "next_fault s = (f, s1)"
  shows "f = Fine \<or> (\<exists>m. f = Lost (DbError m) \<or> f = Unknown (DbError m))" and "driver_faults s1"
    and "committed s1 = committed s" and "tx s1 = tx s"
proof -
  have "f \<in> insert Fine (set (faults s)) \<and> set (faults s1) \<subseteq> set (faults s)"
    using assms(2) by (cases "faults s") (auto simp: next_fault_def)
  with assms(1) show "f = Fine \<or> (\<exists>m. f = Lost (DbError m) \<or> f = Unknown (DbError m))" "driver_faults s1"
    unfolding driver_faults_def by blast+
  show "committed s1 = committed s" "tx s1 = tx s" using next_fault_frame [OF assms(2)] by simp_all
qed

lemma alone_commit:
  assumes s: "tx s = Some (d1, False)" "committed s = d" "driver_faults s"
    and d1: "SqlCreateUserShard u a d = Inr ((), d1)"
    and r: "andThen commit (\<lambda>_ s. (Inr a, s)) s = (r, s1)"
  shows "alone ord d c ((at u (At_Commit a))\<lparr>added := Some a\<rparr>) (committed s1) c (at u (Done r))"
proof -
  let ?rq = "(at u (At_Commit a))\<lparr>added := Some a\<rparr>"
  have v: "view ?rq d = d1" using d1 by (auto simp: SqlCreateUserShard_def view_def unrowed_def split: if_splits)
  obtain f s2 where f: "next_fault (s\<lparr>tx := None\<rparr>) = (f, s2)" by (cases "next_fault (s\<lparr>tx := None\<rparr>)")
  have "driver_faults (s\<lparr>tx := None\<rparr>)" using s(3) by (simp add: driver_faults_def)
  note df = driver_fault [OF this f]
  have fin: "finish (Inl e) ?rq = at u (Done (Inl e))"
    "?rq\<lparr>point := Done x, removed := False, added := None\<rparr> = at u (Done x)" for e x
    by (simp_all add: finish_def at_def)
  from df(1) show ?thesis
  proof (elim disjE exE)
    assume "f = Fine"
    with s f r have "r = Inr a" "committed s1 = d1" by (auto simp: andThen_def commit_def)
    then show ?thesis
      by (intro alone_last [where out = Good]) (simp add: advance_def ensure_step_def commit_step_def v fin)
  next
    fix m assume "f = Lost (DbError m)"
    with s f r df(3) have "r = Inl (DbError m)" "committed s1 = d" by (auto simp: andThen_def commit_def)
    then show ?thesis
      by (intro alone_last [where out = "Bad m"]) (simp add: advance_def ensure_step_def commit_step_def v fin)
  next
    fix m assume "f = Unknown (DbError m)"
    with s f r have "r = Inl (DbError m)" "committed s1 = d1" by (auto simp: andThen_def commit_def)
    then show ?thesis
      by (intro alone_last [where out = "Silent m"]) (simp add: advance_def ensure_step_def commit_step_def v fin)
  qed
qed

text \<open>A statement of the open transaction: it runs on its copy, or it fails and the copy is given up.\<close>

lemma exec_tx_outcome:
  assumes "exec Tx q s = (r, s1)" and "tx s = Some (d, False)" and "driver_faults s"
  shows "driver_faults s1 \<and> committed s1 = committed s \<and>
     ((\<exists>m. r = Inl (DbError m)) \<or>
      (case q d of Inl e \<Rightarrow> r = Inl e | Inr (x, d') \<Rightarrow> r = Inr x \<and> tx s1 = Some (d', False)))"
proof -
  obtain f s2 where f: "next_fault s = (f, s2)" by (cases "next_fault s")
  note df = driver_fault [OF assms(3) f]
  from df(1) show ?thesis
  proof (elim disjE exE)
    assume "f = Fine"
    with assms(1,2) f have e: "(case q d of Inl e \<Rightarrow> (Inl e, s2\<lparr>tx := Some (d, True)\<rparr>)
        | Inr (a, d') \<Rightarrow> (Inr a, s2\<lparr>tx := Some (d', False)\<rparr>)) = (r, s1)"
      by (simp add: exec_def exec_tx_def)
    show ?thesis
    proof (cases "q d")
      case (Inl e')
      with e df(2,3) show ?thesis by (auto simp: driver_faults_def)
    next
      case (Inr y)
      with e df(2,3) show ?thesis by (cases y) (auto simp: driver_faults_def)
    qed
  qed (use assms(1,2) f df(2,3) in \<open>auto simp: exec_def exec_tx_def driver_faults_def\<close>)
qed

lemma alone_insert:
  assumes s: "tx s = Some (d, False)" "committed s = d" "driver_faults s"
    and r: "andThen (orRollback (addShardForUser Tx u a)) (\<lambda>_. andThen commit (\<lambda>_ s. (Inr a, s))) s = (r, s1)"
  shows "alone ord d c (at u (At_Insert a)) (committed s1) c (at u (Done r))"
proof -
  obtain x s2 where x: "exec Tx (SqlCreateUserShard u a) s = (x, s2)" by (cases "exec Tx (SqlCreateUserShard u a) s")
  note o = exec_tx_outcome [OF x s(1,3)]
  show ?thesis
  proof (cases x)
    case (Inl e)
    with r x o s(2) have e: "r = Inl e" "committed s1 = d"
      by (auto simp: andThen_def orRollback_def addShardForUser_def)
    from o Inl consider m where "e = DbError m" | "SqlCreateUserShard u a d = Inl e" by (auto split: sum.splits)
    then show ?thesis
    proof cases
      case 1
      with e show ?thesis
        by (intro alone_last [where out = "Bad m"]) (simp add: advance_def ensure_step_def insert_step_def)
    next
      case 2
      with e show ?thesis
        by (intro alone_last [where out = Good]) (simp add: advance_def ensure_step_def insert_step_def)
    qed
  next
    case (Inr y)
    with o obtain d1 where d1: "SqlCreateUserShard u a d = Inr ((), d1)" and t: "tx s2 = Some (d1, False)"
      by (auto split: sum.splits)
    from r x Inr have "andThen commit (\<lambda>_ s. (Inr a, s)) s2 = (r, s1)"
      by (simp add: andThen_def orRollback_def addShardForUser_def)
    from alone_commit [OF t _ _ d1 this] o s(2)
    have "alone ord d c ((at u (At_Commit a))\<lparr>added := Some a\<rparr>) (committed s1) c (at u (Done r))" by simp
    then show ?thesis
      by (rule alone_step [where out = Good, rotated])
        (simp add: advance_def ensure_step_def insert_step_def d1)
  qed
qed

lemma fetch_outcome:
  "\<exists>rows s1. fetch all s = (Inr rows, s1) \<and> tx s1 = tx s \<and> committed s1 = committed s \<and> faults s1 = faults s \<and>
     (rows = all \<or> (\<exists>n. rows = take n all))"
  by (cases "cuts s") (auto simp: fetch_def split: option.split)

lemma alone_choose:
  assumes s: "tx s = Some (d, False)" "committed s = d" "driver_faults s"
    and r: "assign_shard_tx ord u s = (r, s1)"
  shows "alone ord d c (at u At_Choose) (committed s1) c (at u (Done r))"
proof -
  let ?rows = "map (\<lambda>a. (user_count d a, a)) (shard_table d)"
  obtain x s2 where x: "exec Tx SqlShardUserCount s = (x, s2)" by (cases "exec Tx SqlShardUserCount s")
  note o = exec_tx_outcome [OF x s(1,3)]
  show ?thesis
  proof (cases x)
    case (Inl e)
    with o obtain m where m: "e = DbError m" by (auto simp: SqlShardUserCount_def)
    from r x Inl o s(2) have "r = Inl e" "committed s1 = d"
      by (auto simp: assign_shard_tx_def andThen_def orRollback_def selectShard_def getShardUserCount_def)
    with m show ?thesis
      by (intro alone_last [where out = "Bad m"]) (simp add: advance_def ensure_step_def choose_step_def)
  next
    case (Inr y)
    with o have y: "y = ?rows" and t: "tx s2 = Some (d, False)" and c2: "committed s2 = d" "driver_faults s2"
      using s(2) by (auto simp: SqlShardUserCount_def)
    from fetch_outcome [of ?rows s2] t c2
    obtain rows s3 where f: "fetch ?rows s2 = (Inr rows, s3)" and s3: "tx s3 = Some (d, False)"
      "committed s3 = d" "driver_faults s3" and rows: "rows = ?rows \<or> (\<exists>n. rows = take n ?rows)"
      unfolding driver_faults_def by (elim exE conjE) simp
    let ?a = "choose_from ord rows"
    let ?next = "if ?a = '''' then at u (Done (Inl (ErrMsg ''no shard found''))) else at u (At_Insert ?a)"
    have step: "\<exists>out. advance ord out False False d c (at u At_Choose) = Some (d, c, ?next)"
      using rows
    proof (elim disjE exE)
      assume "rows = ?rows"
      then show ?thesis by (intro exI [of _ Good]) (simp add: advance_def ensure_step_def choose_step_def Let_def)
    next
      fix n assume "rows = take n ?rows"
      then show ?thesis by (intro exI [of _ "Cut n"]) (simp add: advance_def ensure_step_def choose_step_def Let_def)
    qed
    have sel: "selectShard ord Tx s = (if ?a = '''' then Inl (ErrMsg ''no shard found'') else Inr ?a, s3)"
      using x Inr y f by (simp add: selectShard_def getShardUserCount_def andThen_def choose_from_def Let_def)
    show ?thesis
    proof (cases "?a = ''''")
      case True
      with r sel s3 have "r = Inl (ErrMsg ''no shard found'')" "committed s1 = d"
        by (auto simp: assign_shard_tx_def andThen_def orRollback_def)
      with True step show ?thesis by (auto intro: alone_last)
    next
      case False
      with r sel have "andThen (orRollback (addShardForUser Tx u ?a)) (\<lambda>_. andThen commit (\<lambda>_ s. (Inr ?a, s))) s3 = (r, s1)"
        by (simp add: assign_shard_tx_def andThen_def [of "orRollback (selectShard ord Tx)"] orRollback_def [of "selectShard ord Tx"])
      from alone_insert [OF s3 this] False step show ?thesis by (auto intro: alone_step)
    qed
  qed
qed

text \<open>A store that keeps what it is given, as the first layer.\<close>

definition keeping :: "(string \<Rightarrow> string option) store_ops" where
  "keeping =
     \<lparr>st_get = \<lambda>k s. (case s k of None \<Rightarrow> Inl ErrFreecacheNotFound | Some v \<Rightarrow> Inr v, s),
      st_set = \<lambda>k v n s. (Inr (), s(k \<mapsto> v)),
      st_del = \<lambda>k s. (Inr (), s(k := None))\<rparr>"

abbreviation cached_users :: "(string \<Rightarrow> string option, 'b) LayeredCache \<Rightarrow> string \<Rightarrow> string option" where
  "cached_users c u \<equiv> l1 c (CachePrefix @ u)"

lemma keeping_use:
  assumes "l2 c = None"
  shows "lc_use keeping o2 Inr Inr key getter (c, s) =
     (case l1 c key of
        Some v \<Rightarrow> (Inr v, c, s)
      | None \<Rightarrow> (case getter s of
            (Inl e, s1) \<Rightarrow> (Inl e, c, s1)
          | (Inr v, s1) \<Rightarrow> (Inr v, c\<lparr>l1 := (l1 c)(key \<mapsto> v)\<rparr>, s1)))"
  using assms
  by (simp add: lc_use_def lc_get_def lc_set_def keeping_def json_unmarshal_def json_marshal_def
      split: option.split prod.split sum.split)

lemma commit_unchanged:
  "tx s = Some (d, b) \<Longrightarrow> committed s = d \<Longrightarrow> committed (snd (commit s)) = d"
  using commit_cases(1) [of s "fst (commit s)" "snd (commit s)"] by (auto simp: working_def split: bool.splits)

lemma alone_release:
  "alone ord d c (at u (At_Release r)) d c (at u (Done r))"
  by (rule alone_last [where out = Good]) (simp add: advance_def ensure_step_def)

lemma cached_users_set: "(\<lambda>v. ((l1 c)(CachePrefix @ u \<mapsto> a)) (CachePrefix @ v)) = (cached_users c)(u \<mapsto> a)"
  by (auto simp: fun_eq_iff)

text \<open>The part of the operation after \<open>BeginTx\<close>.\<close>

definition after_begin ::
  "(string \<Rightarrow> (shard_db sql \<Rightarrow> string res \<times> shard_db sql) \<Rightarrow> ('a, 'b) LayeredCache \<times> shard_db sql \<Rightarrow>
      string res \<times> ('a, 'b) LayeredCache \<times> shard_db sql) \<Rightarrow>
   ((string \<times> int) list \<Rightarrow> (string \<times> int) list) \<Rightarrow> string \<Rightarrow> ('a, 'b) LayeredCache \<Rightarrow> shard_db sql \<Rightarrow>
   string res \<times> ('a, 'b) LayeredCache \<times> shard_db sql" where
  "after_begin use ord u c s =
     (case use (CachePrefix @ u) (getShardForUser Tx u) (c, s) of
        (r, c2, s2) \<Rightarrow>
          if r \<noteq> Inl ErrShardNotFound then (r, c2, snd (commit s2))
          else case assign_shard_tx ord u s2 of (r', s3) \<Rightarrow> (r', c2, s3))"

lemma alone_select:
  assumes s: "tx s = Some (d, False)" "committed s = d" "driver_faults s" and l: "l2 c = None"
    and miss: "cached_users c u = None"
    and e: "after_begin (lc_use keeping o2 Inr Inr) ord u c s = (r, c1, s1)"
  shows "alone ord d (cached_users c) (at u At_Select) (committed s1) (cached_users c1) (at u (Done r))"
proof -
  let ?c = "cached_users c"
  obtain x s4 where x: "exec Tx (SqlSelectShardByUser u) s = (x, s4)" by (cases "exec Tx (SqlSelectShardByUser u) s")
  note o = exec_tx_outcome [OF x s(1,3)]
  note unfolds = after_begin_def keeping_use [OF l] getShardForUser_def andThen_def
  show ?thesis
  proof (cases x)
    case (Inl err)
    with o obtain m where m: "err = DbError m" by (auto simp: SqlSelectShardByUser_def)
    with e miss x Inl have "r = Inl err" "c1 = c" "s1 = snd (commit s4)" by (simp_all add: unfolds)
    moreover have "committed (snd (commit s4)) = d"
      using x s o Inl commit_cases(1) [of s4 "fst (commit s4)" "snd (commit s4)"]
        exec_tx_cases(3) [of "SqlSelectShardByUser u" s x s4 err]
      by (simp add: exec_def)
    moreover have "advance ord (Bad m) False False d ?c (at u At_Select) =
        Some (d, ?c, at u (At_Release (Inl (DbError m))))"
      by (simp add: advance_def ensure_step_def)
    ultimately show ?thesis using m alone_step alone_release by metis
  next
    case (Inr row)
    with o s have row: "row = shard_of d u" and s4: "tx s4 = Some (d, False)" "committed s4 = d" "driver_faults s4"
      by (auto simp: SqlSelectShardByUser_def shard_of_def)
    show ?thesis
    proof (cases row)
      case (Some a)
      with e miss x Inr have e': "r = Inr a" "c1 = c\<lparr>l1 := (l1 c)(CachePrefix @ u \<mapsto> a)\<rparr>" "s1 = snd (commit s4)"
        by (simp_all add: unfolds)
      have "committed s1 = d" using commit_unchanged [OF s4(1,2)] e'(3) by simp
      moreover have "cached_users c1 = ?c(u \<mapsto> a)" using e'(2) cached_users_set by simp
      moreover have "advance ord Good False False d ?c (at u At_Select) = Some (d, ?c, at u (At_Set a))"
        "advance ord Good False False d ?c (at u (At_Set a)) = Some (d, ?c(u \<mapsto> a), at u (At_Release (Inr a)))"
        using Some row by (simp_all add: advance_def ensure_step_def)
      ultimately show ?thesis using e'(1) alone_step alone_release by metis
    next
      case None
      with e miss x Inr have "assign_shard_tx ord u s4 = (r, s1)" "c1 = c"
        by (auto simp: unfolds split: prod.splits)
      with alone_choose [OF s4(1,2,3)]
      have "alone ord d ?c (at u At_Choose) (committed s1) (cached_users c1) (at u (Done r))" by blast
      then show ?thesis
        by (rule alone_step [where out = Good, rotated]) (use None row in \<open>simp add: advance_def ensure_step_def\<close>)
    qed
  qed
qed

lemma alone_get:
  assumes s: "tx s = Some (d, False)" "committed s = d" "driver_faults s" and l: "l2 c = None"
    and e: "after_begin (lc_use keeping o2 Inr Inr) ord u c s = (r, c1, s1)"
  shows "alone ord d (cached_users c) (at u At_Get) (committed s1) (cached_users c1) (at u (Done r))"
proof (cases "cached_users c u")
  case (Some a)
  with e have "r = Inr a" "c1 = c" "committed s1 = d"
    using commit_unchanged [OF s(1,2)] by (auto simp: after_begin_def keeping_use [OF l])
  moreover have "advance ord Good False False d (cached_users c) (at u At_Get) =
      Some (d, cached_users c, at u (At_Release (Inr a)))"
    using Some by (simp add: advance_def ensure_step_def)
  ultimately show ?thesis using alone_step alone_release by metis
next
  case None
  from alone_select [OF s l None e] show ?thesis
    by (rule alone_step [where out = Good, rotated]) (use None in \<open>simp add: advance_def ensure_step_def\<close>)
qed

text \<open>
  C16: The steps refine the code: whatever calls fail, what \<open>EnsureShardForUser\<close> answers and leaves in
  the database and the cache is what a request that runs on its own, call by call, answers and leaves.
\<close>
theorem alone_is_EnsureShardForUser:
  assumes "driver_faults s" and "l2 c = None"
    and "EnsureShardForUser (lc_use keeping o2 Inr Inr) ord u (c, s) = (r, c1, s1)"
  shows "\<exists>evs. run ord evs \<lparr>tables = committed s, cached = cached_users c, requests = [ensuring u]\<rparr> =
     Some \<lparr>tables = committed s1, cached = cached_users c1, requests = [finish r (ensuring u)]\<rparr>"
proof -
  let ?d = "committed s" and ?c = "cached_users c"
  have start: "ensuring u = at u At_Begin" by (simp add: ensuring_def at_def)
  obtain f s2 where f: "next_fault s = (f, s2)" by (cases "next_fault s")
  note df = driver_fault [OF assms(1) f]
  have "alone ord ?d ?c (at u At_Begin) (committed s1) (cached_users c1) (at u (Done r))"
  proof (cases "f = Fine")
    case False
    with df(1) obtain m where "f = Lost (DbError m) \<or> f = Unknown (DbError m)" by blast
    with f assms(3) df(3) have "r = Inl (DbError m)" "c1 = c" "committed s1 = ?d"
      by (auto simp: EnsureShardForUser_def begin_tx_def)
    then show ?thesis
      by (intro alone_last [where out = "Bad m"]) (simp add: advance_def ensure_step_def begin_step_def)
  next
    case True
    let ?s3 = "s2\<lparr>tx := Some (?d, False)\<rparr>"
    have "after_begin (lc_use keeping o2 Inr Inr) ord u c ?s3 = (r, c1, s1)"
      using True f df(3) assms(3) by (simp add: EnsureShardForUser_def after_begin_def begin_tx_def)
    moreover have "tx ?s3 = Some (?d, False)" "committed ?s3 = ?d" "driver_faults ?s3"
      using df(2,3) by (simp_all add: driver_faults_def)
    ultimately have "alone ord ?d ?c (at u At_Get) (committed s1) (cached_users c1) (at u (Done r))"
      using alone_get assms(2) by blast
    then show ?thesis
      by (rule alone_step [where out = Good, rotated]) (simp add: advance_def ensure_step_def begin_step_def)
  qed
  then show ?thesis by (simp add: alone_def start)
qed

theorem alone_is_EnsureShardForUser_witness:
  "\<exists>r c1 s1 evs. EnsureShardForUser (lc_use keeping keeping Inr Inr) id ''bob''
       (\<lparr>l1 = \<lambda>_. None, l2 = None, config = cache_config None\<rparr>, demo_sql demo_db [Fine, Fine, Unknown (DbError ''lost'')]) =
       (r, c1, s1) \<and> r = Inl (DbError ''lost'') \<and>
     run id evs \<lparr>tables = demo_db, cached = \<lambda>_. None, requests = [ensuring ''bob'']\<rparr> =
       Some \<lparr>tables = committed s1, cached = cached_users c1, requests = [finish r (ensuring ''bob'')]\<rparr>"
proof -
  let ?c = "\<lparr>l1 = \<lambda>_. None, l2 = None, config = cache_config None\<rparr> ::
    (string \<Rightarrow> string option, string \<Rightarrow> string option) LayeredCache"
  let ?s = "demo_sql demo_db [Fine, Fine, Unknown (DbError ''lost'')]"
  obtain r c1 s1 where e: "EnsureShardForUser (lc_use keeping keeping Inr Inr) id ''bob'' (?c, ?s) = (r, c1, s1)"
    by (metis prod_cases3)
  have "fst (EnsureShardForUser (lc_use keeping keeping Inr Inr) id ''bob'' (?c, ?s)) = Inl (DbError ''lost'')"
    by code_simp
  with e have r: "r = Inl (DbError ''lost'')" by simp
  have "driver_faults ?s" "l2 ?c = None" by (simp_all add: driver_faults_def demo_sql_def)
  from alone_is_EnsureShardForUser [OF this e] e r show ?thesis by (auto simp: demo_sql_def)
qed

section \<open>The properties\<close>

text \<open>
  C11: However requests for shards run beside each other, with any failures: while nobody moves the
  user \<open>u\<close>, all requests of \<open>u\<close> that succeed answer the same shard, which is a shard of the table and
  the committed one of \<open>u\<close>; a shard that \<open>u\<close> already had is kept, and no user ever has two rows.
\<close>
theorem concurrent_requests_agree:
  assumes "shards_inv (tables w)" and "\<forall>rq \<in> set (requests w). fresh rq \<and> (user rq = u \<longrightarrow> rq = ensuring u)"
    and "\<forall>a. cached w u = Some a \<longrightarrow> shard_of (tables w) u = Some a"
    and "run ord evs w = Some w1"
  shows "(\<forall>rq \<in> set (requests w1). user rq = u \<longrightarrow> (\<forall>a. point rq = Done (Inr a) \<longrightarrow>
            shard_of (tables w1) u = Some a \<and> a \<in> set (shard_table (tables w1)))) \<and>
     (\<forall>a. shard_of (tables w) u = Some a \<longrightarrow> shard_of (tables w1) u = Some a) \<and>
     distinct (map fst (mapping_table (tables w1)))"
proof -
  have o: "orderly w" using assms(1,2) by (auto intro: fresh_orderly)
  have "\<not> moving (point rq) \<and> told rq = None" if "rq \<in> set (requests w)" "user rq = u" for rq
  proof -
    from assms(2) that have "rq = ensuring u" by simp
    then show ?thesis by (simp add: ensuring_def told_def)
  qed
  with assms(3) have "trusted u w" by (simp add: trusted_def)
  from trusted_run [OF this o assms(4)] have t: "trusted u w1"
    and keep: "\<forall>a. shard_of (tables w) u = Some a \<longrightarrow> shard_of (tables w1) u = Some a" by auto
  from orderly_run [OF o assms(4)] have i: "shards_inv (tables w1)" by (simp add: orderly_def)
  then have "a \<in> set (shard_table (tables w1))" if "shard_of (tables w1) u = Some a" for a
    using that by (auto simp: shards_inv_def shard_of_def dest!: map_of_SomeD)
  with t i keep show ?thesis by (auto simp: trusted_def told_def shards_inv_def)
qed

text \<open>Two shards, and requests of new users that run beside each other.\<close>

definition two_shards :: "shard_request list \<Rightarrow> shared" where
  "two_shards rqs =
     \<lparr>tables = \<lparr>shard_table = [''s1'', ''s2''], mapping_table = []\<rparr>, cached = \<lambda>_. None, requests = rqs\<rparr>"

definition take_turns :: "event list" where
  "take_turns = concat (map (\<lambda>i. [Call 0 Good, Call 1 Good]) [0..<4])"

lemma two_shards_inv: "shards_inv (tables (two_shards rqs))"
  by (simp add: two_shards_def shards_inv_def) code_simp

theorem concurrent_requests_agree_witness:
  "\<exists>w1. run id (take_turns @ [Call 0 Good, Call 0 Good, Call 1 Good]) (two_shards [ensuring ''ann'', ensuring ''ann'']) = Some w1 \<and>
     point (requests w1 ! 0) = Done (Inr ''s2'') \<and> shard_of (tables w1) ''ann'' = Some ''s2'' \<and>
     point (requests w1 ! 1) \<noteq> Done (Inr ''s1'')"
proof -
  let ?w = "two_shards [ensuring ''ann'', ensuring ''ann'']"
  let ?evs = "take_turns @ [Call 0 Good, Call 0 Good, Call 1 Good]"
  have "(case run id ?evs ?w of None \<Rightarrow> False | Some w1 \<Rightarrow> length (requests w1) = 2 \<and>
      user (requests w1 ! 0) = ''ann'' \<and> user (requests w1 ! 1) = ''ann'' \<and>
      point (requests w1 ! 0) = Done (Inr ''s2''))" by code_simp
  then obtain w1 where w1: "run id ?evs ?w = Some w1" "length (requests w1) = 2"
    "user (requests w1 ! 0) = ''ann''" "user (requests w1 ! 1) = ''ann''"
    "point (requests w1 ! 0) = Done (Inr ''s2'')" by (auto split: option.splits)
  have in_set: "requests w1 ! 0 \<in> set (requests w1)" "requests w1 ! 1 \<in> set (requests w1)" by (simp_all add: w1(2))
  note agree = concurrent_requests_agree [OF two_shards_inv _ _ w1(1), of "''ann''"]
  have "\<forall>rq \<in> set (requests w1). user rq = ''ann'' \<longrightarrow> (\<forall>a. point rq = Done (Inr a) \<longrightarrow> shard_of (tables w1) ''ann'' = Some a)"
    using agree by (simp add: two_shards_def fresh_def ensuring_def)
  then have at: "point rq = Done (Inr a) \<Longrightarrow> shard_of (tables w1) ''ann'' = Some a"
    if "rq \<in> set (requests w1)" "user rq = ''ann''" for rq a using that by blast
  have first: "shard_of (tables w1) ''ann'' = Some ''s2''" using at [OF in_set(1) w1(3) w1(5)] .
  moreover have "point (requests w1 ! 1) \<noteq> Done (Inr ''s1'')" using at [OF in_set(2) w1(4), of "''s1''"] first by auto
  ultimately show ?thesis using w1(1,5) by blast
qed

text \<open>
  C15: No run of requests can go on for ever or get stuck: a run has at most six calls per request, and
  when no request can make its next call (waiting for a row that another transaction has written), all
  requests are done. In particular transactions never wait for each other in a circle.
\<close>
theorem concurrent_requests_end:
  assumes "shards_inv (tables w)" and "\<forall>rq \<in> set (requests w). fresh rq" and "run ord evs w = Some w1"
  shows "calls evs \<le> 6 * length (requests w) \<and>
     ((\<forall>i. perform ord (Call i Good) w1 = None) \<longrightarrow> (\<forall>rq \<in> set (requests w1). \<exists>r. point rq = Done r))"
proof
  have o: "orderly w" using assms(1,2) by (rule fresh_orderly)
  have "calls_left (point rq) \<le> 6" for rq by (cases "point rq") simp_all
  then have "work_left w \<le> sum_list (map (\<lambda>_. 6) (requests w))" unfolding work_left_def by (intro sum_list_mono)
  with run_work [OF assms(3)] show "calls evs \<le> 6 * length (requests w)" by (simp add: sum_list_triv)
  show "(\<forall>i. perform ord (Call i Good) w1 = None) \<longrightarrow> (\<forall>rq \<in> set (requests w1). \<exists>r. point rq = Done r)"
    using never_stuck [OF orderly_run [OF o assms(3)]] by metis
qed

theorem concurrent_requests_end_witness:
  "calls (take_turns @ [Call 0 Good, Call 0 Good, Call 1 Good]) \<le> 12"
proof -
  let ?w = "two_shards [ensuring ''ann'', ensuring ''ann'']"
  let ?evs = "take_turns @ [Call 0 Good, Call 0 Good, Call 1 Good]"
  have "run id ?evs ?w \<noteq> None" by code_simp
  then obtain w1 where "run id ?evs ?w = Some w1" by blast
  from concurrent_requests_end [OF two_shards_inv _ this] show ?thesis
    by (simp add: two_shards_def fresh_def ensuring_def)
qed

section \<open>What interleaving breaks\<close>

text \<open>
  Two users that come at the same time can be put on the same shard while the other has nobody; the
  sequential operation keeps the shards balanced.
\<close>
lemma concurrent_users_unbalanced:
  "\<exists>w1. run id (take_turns @ [Call 0 Good, Call 1 Good, Call 0 Good, Call 1 Good])
       (two_shards [ensuring ''ann'', ensuring ''bob'']) = Some w1 \<and>
     mapping_table (tables w1) = [(''ann'', ''s2''), (''bob'', ''s2'')]"
proof -
  have "(case run id (take_turns @ [Call 0 Good, Call 1 Good, Call 0 Good, Call 1 Good])
       (two_shards [ensuring ''ann'', ensuring ''bob'']) of None \<Rightarrow> False
     | Some w1 \<Rightarrow> mapping_table (tables w1) = [(''ann'', ''s2''), (''bob'', ''s2'')])" by code_simp
  then show ?thesis by (auto split: option.splits)
qed

text \<open>
  A user that is moved while a request has read the old shard: the request puts it into the cache
  after the move has removed it from there, and the server answers it until the entry expires.
\<close>

definition ann_at_s1 :: shared where
  "ann_at_s1 =
     \<lparr>tables = \<lparr>shard_table = [''s1'', ''s2''], mapping_table = [(''ann'', ''s1'')]\<rparr>, cached = \<lambda>_. None,
      requests = [ensuring ''ann'', moving_to ''ann'' ''s2'', ensuring ''ann'']\<rparr>"

lemma stale_shard_after_move:
  "\<exists>w1. run id (replicate 3 (Call 0 Good) @ replicate 5 (Call 1 Good) @ replicate 2 (Call 0 Good) @
       replicate 3 (Call 2 Good)) ann_at_s1 = Some w1 \<and>
     point (requests w1 ! 1) = Done (Inr ''s2'') \<and> point (requests w1 ! 2) = Done (Inr ''s1'') \<and>
     shard_of (tables w1) ''ann'' = Some ''s2''"
proof -
  have "(case run id (replicate 3 (Call 0 Good) @ replicate 5 (Call 1 Good) @ replicate 2 (Call 0 Good) @
       replicate 3 (Call 2 Good)) ann_at_s1 of None \<Rightarrow> False
     | Some w1 \<Rightarrow> point (requests w1 ! 1) = Done (Inr ''s2'') \<and> point (requests w1 ! 2) = Done (Inr ''s1'') \<and>
         shard_of (tables w1) ''ann'' = Some ''s2'')" by code_simp
  then show ?thesis by (auto split: option.splits)
qed

end
