(* ===== verification/ClientProps.thy ===== *)
theory ClientProps
  imports Cleanup ServeProps
begin

text \<open>
  The client library against the server: its requests reach the endpoints they are meant for, with
  the values that the caller gave; what happens to a path that is not clean; and its providers of
  tokens against the wrapper's own.
\<close>

section \<open>Redirects\<close>

text \<open>
  \<open>http.DefaultClient\<close> follows a redirect with status 301 by a \<open>GET\<close> (\<open>HEAD\<close> stays), ten times at most.
\<close>

definition redirected_method :: "string \<Rightarrow> string" where
  "redirected_method meth = (if meth = ''HEAD'' then ''HEAD'' else ''GET'')"

fun follow :: "nat \<Rightarrow> string \<Rightarrow> string \<Rightarrow> (string \<times> routed) option" where
  "follow n meth target =
     (case dispatch meth target of
        Redirected p \<Rightarrow> (case n of 0 \<Rightarrow> None | Suc m \<Rightarrow> follow m (redirected_method meth) p)
      | d \<Rightarrow> Some (meth, d))"

declare follow.simps [simp del]

lemma follow_served: "\<forall>p. dispatch m t \<noteq> Redirected p \<Longrightarrow> follow n m t = Some (m, dispatch m t)"
  by (subst follow.simps) (simp split: routed.split)

lemma follow_redirect: "dispatch m t = Redirected p \<Longrightarrow> follow (Suc n) m t = follow n (redirected_method m) p"
  by (subst follow.simps) simp

lemma clean_steps_plain:
  "list_all plain_segment acc \<Longrightarrow> list_all (\<lambda>s. CHR ''/'' \<notin> set s) ss \<Longrightarrow>
     list_all plain_segment (foldl clean_step acc ss)"
proof (induction ss arbitrary: acc)
  case (Cons s ss)
  have "list_all plain_segment (butlast acc)" using Cons.prems(1) by (auto simp: list_all_iff dest: in_set_butlastD)
  moreover have "clean_step acc s = acc \<or> clean_step acc s = butlast acc \<or>
      clean_step acc s = acc @ [s] \<and> plain_segment s"
    using Cons.prems(2) by (simp add: clean_step_def plain_segment_def)
  ultimately have "list_all plain_segment (clean_step acc s)" using Cons.prems(1) by auto
  with Cons show ?case by simp
qed simp

lemma cleanPath_trailing:
  assumes "ss \<noteq> []" and "list_all plain_segment ss"
  shows "cleanPath (path_of ss @ ''/'') = path_of ss @ ''/''"
proof -
  have "split_char CHR ''/'' (str_join ss ''/'' @ ''/'') = ss @ [[]]"
    using assms
  proof (induction ss)
    case (Cons s ss)
    then have "CHR ''/'' \<notin> set s" by (simp add: plain_segment_def)
    with Cons show ?case
      by (cases "ss = []") (simp_all add: str_join_Cons split_char_append)
  qed simp
  then have "foldl clean_step [] (split_char CHR ''/'' (path_of ss @ ''/'')) = ss"
    using split_char_append [of "CHR ''/''" "[]"] clean_plain [OF assms(2), of "[]"]
    by (simp add: path_of_def clean_step_def)
  moreover have "str_join ss ''/'' \<noteq> []" using last_str_join [OF assms] by simp
  ultimately show ?thesis by (simp add: cleanPath_def Let_def path_of_def)
qed

lemma cleanPath_idempotent: "cleanPath (cleanPath p) = cleanPath p"
proof -
  define q where "q = (if p = [] \<or> hd p \<noteq> CHR ''/'' then CHR ''/'' # p else p)"
  define ss where "ss = foldl clean_step [] (split_char CHR ''/'' q)"
  have "list_all plain_segment ss" unfolding ss_def
    by (rule clean_steps_plain) (auto simp: list_all_iff dest: split_char_no_sep)
  moreover have c: "cleanPath p = (if last q = CHR ''/'' \<and> path_of ss \<noteq> ''/'' then path_of ss @ ''/'' else path_of ss)"
    by (simp add: cleanPath_def Let_def q_def ss_def path_of_def)
  moreover have "cleanPath ''/'' = ''/''" by code_simp
  moreover have "path_of [] = ''/''" by (simp add: path_of_def)
  ultimately show ?thesis
    using cleanPath_path_of [of ss] cleanPath_trailing [of ss] by (cases "ss = []") auto
qed

text \<open>Escaping a path leaves its segments where they are, and \<open>.\<close> and \<open>..\<close> what they are.\<close>

lemma escape_path_append: "escape_path (p @ q) = escape_path p @ escape_path q"
  by (simp add: escape_path_def)

lemma escape_path_unreserved: "list_all unreserved s \<Longrightarrow> escape_path s = s"
  by (induction s) (simp_all add: escape_path_def path_char_def)

lemma hex_digit_no_slash: "n < 16 \<Longrightarrow> hex_digit n \<noteq> CHR ''/''"
proof -
  have "list_all (\<lambda>n. hex_digit n \<noteq> CHR ''/'') [0..<16]" by code_simp
  then show "n < 16 \<Longrightarrow> hex_digit n \<noteq> CHR ''/''" by (auto simp: list_all_iff)
qed

lemma path_char_cases:
  obtains "path_char c = [c]" | x y where "path_char c = [CHR ''%'', x, y]" "c \<noteq> CHR ''/''" "c \<noteq> CHR ''.''"
    "x \<noteq> CHR ''/''" "y \<noteq> CHR ''/''"
proof (cases "unreserved c \<or> c \<in> set ''$&+,/:;=@''")
  case False
  then have "c \<noteq> CHR ''/'' \<and> c \<noteq> CHR ''.''" by (auto simp: unreserved_def)
  moreover have "(of_char c :: nat) div 16 < 16"
    by (rule less_mult_imp_div_less) (use nat_of_char_less_256 [of c] in linarith)
  ultimately show ?thesis using that(2) False hex_digit_no_slash by (simp add: path_char_def percent_def)
qed (use that(1) in \<open>simp add: path_char_def\<close>)

lemma split_escape: "split_char CHR ''/'' (escape_path p) = map escape_path (split_char CHR ''/'' p)"
proof (induction p)
  case (Cons c p)
  obtain y ys where s: "split_char CHR ''/'' p = y # ys" by (meson split_char_not_Nil neq_Nil_conv)
  show ?case
    by (cases rule: path_char_cases [of c]) (use Cons s in \<open>auto simp: escape_path_def\<close>)
qed (simp add: escape_path_def)

lemma escape_path_dots:
  "escape_path s = [] \<longleftrightarrow> s = []" "escape_path s = ''.'' \<longleftrightarrow> s = ''.''" "escape_path s = ''..'' \<longleftrightarrow> s = ''..''"
proof -
  have nil: "escape_path r = [] \<longleftrightarrow> r = []" for r
    by (cases r) (auto simp: escape_path_def path_char_def percent_def)
  have dot: "escape_path r = CHR ''.'' # t \<longleftrightarrow> (\<exists>u. r = CHR ''.'' # u \<and> escape_path u = t)" for r t
  proof (cases r)
    case (Cons c u)
    then show ?thesis
      by (cases rule: path_char_cases [of c]) (auto simp: escape_path_def)
  qed (simp add: escape_path_def)
  show "escape_path s = [] \<longleftrightarrow> s = []" "escape_path s = ''.'' \<longleftrightarrow> s = ''.''" "escape_path s = ''..'' \<longleftrightarrow> s = ''..''"
    by (auto simp: nil dot)
qed

lemma clean_steps_escape:
  "foldl clean_step (map escape_path acc) (map escape_path ss) = map escape_path (foldl clean_step acc ss)"
proof (induction ss arbitrary: acc)
  case (Cons s ss)
  have "clean_step (map escape_path acc) (escape_path s) = map escape_path (clean_step acc s)"
    by (simp add: clean_step_def escape_path_dots map_butlast)
  with Cons show ?case by simp
qed simp

lemma join_escape: "str_join (map escape_path ss) ''/'' = escape_path (str_join ss ''/'')"
proof (induction ss)
  case (Cons s ss)
  have "escape_path ''/'' = ''/''" by code_simp
  moreover have "escape_path (CHR ''/'' # r) = CHR ''/'' # escape_path r" for r
    by (simp add: escape_path_def path_char_def)
  ultimately show ?case using Cons by (cases "ss = []") (simp_all add: str_join_Cons escape_path_append)
qed (simp add: escape_path_def)

lemma escape_ends:
  assumes "q \<noteq> []"
  shows "last (escape_path q) = CHR ''/'' \<longleftrightarrow> last q = CHR ''/''" "hd (escape_path q) = CHR ''/'' \<longleftrightarrow> hd q = CHR ''/''"
proof -
  obtain r c where "q = r @ [c]" using assms by (metis rev_exhaust)
  then show "last (escape_path q) = CHR ''/'' \<longleftrightarrow> last q = CHR ''/''"
    by (cases rule: path_char_cases [of c]) (auto simp: escape_path_def)
  obtain d u where "q = d # u" using assms by (cases q) auto
  then show "hd (escape_path q) = CHR ''/'' \<longleftrightarrow> hd q = CHR ''/''"
    by (cases rule: path_char_cases [of d]) (auto simp: escape_path_def)
qed

lemma cleanPath_escape: "cleanPath (escape_path p) = escape_path (cleanPath p)"
proof -
  define q where "q = (if p = [] \<or> hd p \<noteq> CHR ''/'' then CHR ''/'' # p else p)"
  define ss where "ss = foldl clean_step [] (split_char CHR ''/'' q)"
  have slash: "escape_path (CHR ''/'' # r) = CHR ''/'' # escape_path r" for r
    by (simp add: escape_path_def path_char_def)
  have ne: "q \<noteq> []" by (simp add: q_def)
  have q: "(if escape_path p = [] \<or> hd (escape_path p) \<noteq> CHR ''/'' then CHR ''/'' # escape_path p else escape_path p) =
      escape_path q"
    using escape_ends(2) [of p] by (auto simp: q_def slash escape_path_dots(1))
  have "foldl clean_step [] (split_char CHR ''/'' (escape_path q)) = map escape_path ss"
    unfolding ss_def split_escape using clean_steps_escape [of "[]"] by simp
  moreover have "escape_path ''/'' = ''/''" by code_simp
  moreover have "str_join (map escape_path ss) ''/'' = [] \<longleftrightarrow> str_join ss ''/'' = []"
    by (simp add: join_escape escape_path_dots(1))
  ultimately show ?thesis
    using escape_ends(1) [OF ne] q unfolding cleanPath_def Let_def q_def [symmetric] ss_def [symmetric]
    by (simp add: join_escape slash escape_path_append escape_path_dots(1) escape_path_def [of "[]"])
qed

text \<open>
  A client that follows redirects gets an answer from the server after at most one redirect,
  for every method and every path: the path that it is sent to is clean. It is escaped once more
  than the one that was asked for.
\<close>
definition redirect_target :: "string \<Rightarrow> string" where
  "redirect_target target = (if cleanPath target = target then target else escape_path (cleanPath target))"

theorem redirects_end:
  "\<exists>m d. follow (Suc n) meth target = Some (m, d) \<and> (\<forall>p. d \<noteq> Redirected p) \<and>
     d = dispatch m (redirect_target target)"
proof -
  have clean: "cleanPath t = t \<Longrightarrow> dispatch m t \<noteq> Redirected p" for t m p
    by (simp add: dispatch_def Let_def split: option.split)
  show ?thesis
  proof (cases "cleanPath target = target")
    case True
    with clean [of target meth] follow_served [of meth target] show ?thesis by (auto simp: redirect_target_def)
  next
    case False
    let ?t = "escape_path (cleanPath target)" and ?m = "redirected_method meth"
    from False have "dispatch meth target = Redirected ?t" by (simp add: dispatch_def Let_def)
    from follow_redirect [OF this] False show ?thesis
      using clean [of ?t ?m] follow_served [of ?m ?t]
      by (auto simp: redirect_target_def cleanPath_escape cleanPath_idempotent)
  qed
qed

section \<open>Deleting without a user\<close>

text \<open>A text that needs no escaping, and that a segment can be.\<close>

definition plain_id :: "string \<Rightarrow> bool" where
  "plain_id s \<longleftrightarrow> list_all unreserved s \<and> segment_value s"

lemma PathEscape_unreserved: "list_all unreserved s \<Longrightarrow> PathEscape s = s"
  by (induction s) (simp_all add: PathEscape_def)

lemma plain_id_segment: "plain_id s \<Longrightarrow> plain_segment s \<and> unescape_segment s = s"
proof -
  assume p: "plain_id s"
  then have "PathEscape s = s" by (simp add: plain_id_def PathEscape_unreserved)
  with PathEscape_no_slash [of s] unescape_PathEscape [of s] p show ?thesis
    by (simp add: plain_segment_def plain_id_def segment_value_def)
qed

definition removal_path :: string where
  "removal_path = ''process-deployments''"

lemma no_get_for_removal:
  "list_all (\<lambda>r. case fst r of
      Rest # ss \<Rightarrow> fst (snd r) = [] \<and> (case snd (snd r) of Ep1_HealthCheck \<Rightarrow> True | _ \<Rightarrow> False)
    | Lit l # ss \<Rightarrow> l \<noteq> removal_path
    | _ \<Rightarrow> False) (routes_for ''GET'')"
  by code_simp

lemma health_check_for_removal: "match_method ''GET'' (path_of [removal_path, s]) = Some (([], Ep1_HealthCheck), [])"
  if s: "plain_segment s"
proof -
  have p: "list_all plain_segment [removal_path, s]" using s by (simp add: removal_path_def plain_segment_def)
  have u: "unescape_segment removal_path = removal_path" by code_simp
  have segs: "path_segments (path_of [removal_path, s]) = [removal_path, unescape_segment s]"
    using path_segments_path_of [OF _ p] u by simp
  let ?m = "matchPath (routes_for ''GET'') [removal_path, unescape_segment s]"
  have "?m \<noteq> None" by (rule matchPath_complete [OF health_check_route]) simp
  then obtain names ep vs where m: "?m = Some ((names, ep), vs)" by (metis not_None_eq prod.collapse)
  from matchPath_sound [OF m] obtain ss where ss: "(ss, names, ep) \<in> set (routes_for ''GET'')"
    "covers ss [removal_path, unescape_segment s]" "vs = wild_values ss [removal_path, unescape_segment s]" by blast
  have "case ss of Rest # ss \<Rightarrow> names = [] \<and> (case ep of Ep1_HealthCheck \<Rightarrow> True | _ \<Rightarrow> False)
    | Lit l # ss \<Rightarrow> l \<noteq> removal_path | _ \<Rightarrow> False"
    using bspec [OF no_get_for_removal [unfolded list_all_iff] ss(1)] unfolding fst_conv snd_conv .
  moreover from this obtain s xs where "ss = s # xs" by (cases ss) auto
  ultimately have "names = [] \<and> ep = Ep1_HealthCheck \<and> vs = []"
    using ss(2,3) by (cases s) (auto split: endpoint.splits)
  with m segs show ?thesis by (simp add: match_method_def or_else_def)
qed

text \<open>
  \<open>DeleteDeployment\<close> of the client without a user: the path \<open>/process-deployments//id\<close> is redirected to
  \<open>/process-deployments/id\<close>, the client follows with \<open>GET\<close>, and that is answered with status 200 by the
  health check, which leaves the state alone.
\<close>

lemma delete_without_user_is_health_check:
  assumes "plain_id deplId"
  shows "follow 10 ''DELETE'' (delete_url '''' '''' deplId) = Some (''GET'', Served Ep1_HealthCheck []) \<and>
    serve sys Ep1_HealthCheck rq w = (Some 200, w)"
proof -
  let ?t = "delete_url '''' '''' deplId"
  have s: "plain_segment deplId" using plain_id_segment [OF assms] by blast
  then have d: "split_char CHR ''/'' deplId = [deplId]" "last ?t \<noteq> CHR ''/''" "deplId \<noteq> []"
    by (auto simp: plain_segment_def split_char_single delete_url_def) (metis last_in_set)
  have "split_char CHR ''/'' ?t = [[], removal_path, [], deplId]"
    using d(1) by (simp add: delete_url_def removal_path_def)
  moreover have "foldl clean_step [] [[], removal_path, [], deplId] = [removal_path, deplId]"
    using s by (simp add: clean_step_def removal_path_def plain_segment_def)
  ultimately have c: "cleanPath ?t = path_of [removal_path, deplId]"
    using d(2) by (simp add: cleanPath_def Let_def path_of_def delete_url_def)
  have slash: "escape_path (CHR ''/'' # r) = CHR ''/'' # escape_path r" for r
    by (simp add: escape_path_def path_char_def)
  have p: "list_all plain_segment [removal_path, deplId]" using s by (simp add: removal_path_def plain_segment_def)
  have "list_all unreserved deplId" using assms by (simp add: plain_id_def)
  moreover have "list_all unreserved removal_path" by code_simp
  ultimately have e: "escape_path (path_of [removal_path, deplId]) = path_of [removal_path, deplId]"
    using slash [of "removal_path @ CHR ''/'' # deplId"] slash [of deplId]
    by (simp add: path_of_def escape_path_append escape_path_unreserved)
  have "?t \<noteq> path_of [removal_path, deplId]"
    by (simp add: delete_url_def path_of_def removal_path_def)
  with c e have "dispatch ''DELETE'' ?t = Redirected (path_of [removal_path, deplId])"
    by (simp add: dispatch_def Let_def)
  moreover have "dispatch ''GET'' (path_of [removal_path, deplId]) = Served Ep1_HealthCheck []"
    using health_check_for_removal [OF s] cleanPath_path_of [OF _ p] by (simp add: dispatch_def Let_def)
  ultimately have "follow (Suc 9) ''DELETE'' ?t = Some (''GET'', Served Ep1_HealthCheck [])"
    using follow_redirect [of "''DELETE''" ?t "path_of [removal_path, deplId]" 9]
      follow_served [of "''GET''" "path_of [removal_path, deplId]" 9] by (simp add: redirected_method_def)
  then show ?thesis by (simp add: serve_def answer_def V1_HealthCheck_def respond_def status_of_def)
qed

text \<open>
  The server as the network of a client: a URL of the server is its base and a target; redirects are
  followed, a closed connection is an error. \<open>say\<close> gives the status line, the body and its decoding.
\<close>

definition client_body :: "req_body \<Rightarrow> json res" where
  "client_body b = (case b of JsonBody j \<Rightarrow> Inr j | _ \<Rightarrow> Inl (JsonError ''EOF''))"

definition served_by ::
  "('e, 'c) system \<Rightarrow> string \<Rightarrow> (int \<Rightarrow> string \<times> string \<times> (goerror + json)) \<Rightarrow> request \<Rightarrow> ('e, 'c) world \<Rightarrow>
   reply \<times> ('e, 'c) world" where
  "served_by sys base say rq w =
     (case follow 10 (rq_method rq) (drop (length base) (rq_url rq)) of
        None \<Rightarrow> (HttpFail (HttpError ''stopped after 10 redirects''), w)
      | Some (meth, d) \<Rightarrow>
          (case (case d of
                   Served ep vals \<Rightarrow> serve sys ep \<lparr>path_value = path_value_of vals, query = [],
                     authorization = rq_auth rq, body = client_body (rq_body rq)\<rparr> w
                 | MethodNotAllowed \<Rightarrow> (Some 405, w)
                 | _ \<Rightarrow> (Some 404, w)) of
             (None, w1) \<Rightarrow> (HttpFail (HttpError ''EOF''), w1)
           | (Some code, w1) \<Rightarrow> (case say code of (status, bd, js) \<Rightarrow> (Reply code status bd js, w1))))"

definition wrapper_transport ::
  "('e, 'c) system \<Rightarrow> string \<Rightarrow> (int \<Rightarrow> string \<times> string \<times> (goerror + json)) \<Rightarrow> ('e, 'c) world transport" where
  "wrapper_transport sys port say =
     \<lparr>tr_do = served_by sys (''http://localhost:'' @ port) say, tr_new_request = (\<lambda>_ _. None)\<rparr>"

lemma delete_without_user_keeps:
  assumes "plain_id i"
  shows "\<exists>code. Client_DeleteDeployment (wrapper_transport sys port say) (''http://localhost:'' @ port) token '''' i w =
    ((Inr (), code), w)"
proof -
  have "drop (length (''http://localhost:'' @ port)) (delete_url (''http://localhost:'' @ port) '''' i) =
      delete_url '''' '''' i"
    by (simp add: delete_url_def)
  then have "\<exists>status bd js. tr_do (wrapper_transport sys port say)
      (client_request token ''DELETE'' (delete_url (''http://localhost:'' @ port) '''' i) NoBody) w =
      (Reply 200 status bd js, w)"
    using delete_without_user_is_health_check [OF assms, of sys]
    by (simp add: wrapper_transport_def served_by_def client_request_def split: prod.split)
  then show ?thesis
    by (auto simp: Client_DeleteDeployment_def with_request_def doVoid_def wrapper_transport_def)
qed

text \<open>
  C29: \<open>remove-vid\<close> removes nothing: whatever ids of unreserved characters are given (as the virtual ids
  of the platform are) and whatever the confirmation is, no id is removed and the state of the wrapper
  stays as it was; a confirmed removal reports success.
\<close>
theorem remove_vids_removes_nothing:
  assumes "list_all plain_id ids"
  shows "snd (removeVids (wrapper_transport sys port say) token port ids noConfirmation line w) = w \<and>
    RemoveVid (wrapper_transport sys port say) token port ids w = (Inr (), w)"
proof -
  have "RemoveVid (wrapper_transport sys port say) token port ids w = (Inr (), w)"
    using assms
  proof (induction ids)
    case (Cons i ids)
    then obtain code where "Client_DeleteDeployment (wrapper_transport sys port say)
        (''http://localhost:'' @ port) token '''' i w = ((Inr (), code), w)"
      using delete_without_user_keeps [of i sys port say token w] by auto
    with Cons show ?case by simp
  qed simp
  then show ?thesis by (simp add: removeVids_def split: sum.split bool.split)
qed

text \<open>The demonstration's relation has the virtual id \<open>v1\<close> before and after its removal.\<close>

theorem remove_vids_removes_nothing_witness:
  "RemoveVid (wrapper_transport demo_system ''8080'' (\<lambda>_. ('''', '''', Inr JNull))) ''root'' ''8080'' [''v1''] demo_world =
     (Inr (), demo_world) \<and> (''d1'', ''v1'') \<in> set (committed (vids demo_world))"
proof -
  have "list_all plain_id [''v1'']" by code_simp
  note r = conjunct2 [OF remove_vids_removes_nothing [OF this]]
  show ?thesis
    by (rule conjI [OF r]) (simp add: demo_world_def demo_vid_def)
qed

section \<open>Queries arrive as they were made\<close>

text \<open>\<open>URL.Query()\<close> of the server, for a query whose pieces parse: the pairs in their order.\<close>

definition parse_values :: "string \<Rightarrow> url_values" where
  "parse_values q = values_add_all (read_query q) []"

lemma values_get_add: "values_get (values_add k v vs) k' = (if k' = k then values_get vs k @ [v] else values_get vs k')"
  by (auto simp: values_add_def values_get_def update_conv')

lemma values_get_add_all:
  "values_get (values_add_all kvs vs) k = values_get vs k @ map snd (filter (\<lambda>kv. fst kv = k) kvs)"
  by (induction kvs arbitrary: vs) (auto simp: values_add_all_def values_get_add)

lemma distinct_add_all: "distinct (map fst vs) \<Longrightarrow> distinct (map fst (values_add_all kvs vs))"
  by (induction kvs arbitrary: vs) (auto simp: values_add_all_def values_add_def distinct_update)

lemma pairs_of_key:
  assumes "distinct (map fst vs)"
  shows "map snd (filter (\<lambda>kv. fst kv = k) (concat (map (\<lambda>(k, xs). map (\<lambda>v. (k, v)) xs) vs))) = values_get vs k"
  using assms
proof (induction vs)
  case (Cons e vs)
  obtain k' xs where e: "e = (k', xs)" by (cases e)
  have "filter (\<lambda>kv. fst kv = k) (map (\<lambda>v. (k', v)) xs) = (if k' = k then map (\<lambda>v. (k', v)) xs else [])"
    by (simp add: filter_map comp_def)
  moreover have "values_get vs k = []" if "k' = k"
  proof -
    have "map_of vs k = None" using Cons.prems e that by (simp add: map_of_eq_None_iff)
    then show ?thesis by (simp add: values_get_def)
  qed
  ultimately show ?case using Cons e by (auto simp: values_get_def comp_def)
qed (simp add: values_get_def)

lemma values_round_trip:
  assumes "distinct (map fst vs)"
  shows "values_get (parse_values (values_encode vs)) k = values_get vs k"
proof -
  have d: "distinct (map fst (sort_key fst vs))"
  proof -
    have "mset (map fst (sort_key fst vs)) = mset (map fst vs)" by simp
    with assms show ?thesis by (metis mset_eq_imp_distinct_iff)
  qed
  have g: "values_get (sort_key fst vs) k = values_get vs k"
  proof -
    have "map_of (sort_key fst vs) k = Some xs \<longleftrightarrow> map_of vs k = Some xs" for xs
      using assms d by simp
    then have "map_of (sort_key fst vs) k = map_of vs k" by (metis not_None_eq)
    then show ?thesis by (simp add: values_get_def)
  qed
  show ?thesis
    using pairs_of_key [OF d, of k] g
    by (simp add: parse_values_def values_get_add_all read_query_values values_pairs_def) (simp add: values_get_def)
qed

lemma query_get_values: "query_get vs k = (case values_get vs k of [] \<Rightarrow> '''' | v # _ \<Rightarrow> v)"
  by (simp add: query_get_def values_get_def split: option.split list.split)

lemma start_query_distinct: "distinct (map fst (start_query options))"
  by (simp add: start_query_def distinct_add_all values_add_def)

lemma start_query_get:
  assumes "distinct (map fst (so_Inputs options))" and "''business_key'' \<notin> fst ` set (so_Inputs options)"
  shows "query_get (start_query options) ''business_key'' = so_BusinessKey options"
    and "(key, Inr str) \<in> set (so_Inputs options) \<Longrightarrow> values_get (start_query options) key = [str]"
proof -
  let ?ins = "map (\<lambda>(key, r). (key, case r of Inl err \<Rightarrow> '''' | Inr str \<Rightarrow> str)) (so_Inputs options)"
  let ?bk = "if so_BusinessKey options \<noteq> '''' then values_add ''business_key'' (so_BusinessKey options) [] else []"
  have g: "values_get (start_query options) k = values_get ?bk k @ map snd (filter (\<lambda>kv. fst kv = k) ?ins)" for k
    by (simp add: start_query_def values_get_add_all)
  have "filter (\<lambda>kv. fst kv = ''business_key'') ?ins = []"
    using assms(2) by (force simp: filter_empty_conv)
  then show "query_get (start_query options) ''business_key'' = so_BusinessKey options"
    by (simp only: query_get_values g) (simp add: values_get_add, simp add: values_get_def)
  show "values_get (start_query options) key = [str]" if i: "(key, Inr str) \<in> set (so_Inputs options)"
  proof -
    have "key \<noteq> ''business_key''" using assms(2) i by force
    then have "values_get ?bk key = []" by (simp add: values_get_add) (simp add: values_get_def)
    moreover have "map snd (filter (\<lambda>kv. fst kv = key) ?ins) = [str]" using assms(1) i
    proof (induction "so_Inputs options" arbitrary: options)
      case (Cons x xs)
      obtain k r where x: "x = (k, r)" by (cases x)
      have none: "filter (\<lambda>kv. fst kv = k) (map (\<lambda>(key, r). (key, case r of Inl err \<Rightarrow> '''' | Inr str \<Rightarrow> str)) xs) = []"
        using Cons.prems(1) Cons.hyps(2) [symmetric] x by (force simp: filter_empty_conv)
      show ?case
        using Cons.hyps(1) [of "\<lparr>so_BusinessKey = '''', so_Inputs = xs\<rparr>"] Cons.prems Cons.hyps(2) [symmetric] x none
        by (cases "k = key") (auto dest: image_eqI [of _ fst])
    qed simp
    ultimately show ?thesis by (simp only: g) simp
  qed
qed

section \<open>The client reaches the endpoints\<close>

text \<open>
  C24: \<open>StartDeployment\<close> of the client: whatever bytes the id, the business key and the inputs have, the
  path of its URL reaches the endpoint that starts a deployment, with exactly this id, and from its
  query the server reads exactly this business key and the text of each input. (The keys of the
  inputs are those of a map; \<open>business_key\<close> is not one of them.)
\<close>
theorem client_starts_the_deployment:
  assumes "segment_value deplId" and "distinct (map fst (so_Inputs options))"
    and "''business_key'' \<notin> fst ` set (so_Inputs options)"
  shows "\<exists>path q. start_url serverUrl deplId options = serverUrl @ path @ ''?'' @ q \<and>
    CHR ''?'' \<notin> set path \<and>
    dispatch ''GET'' path = Served Ep2_StartDeployment [(''id'', deplId)] \<and>
    query_get (parse_values q) ''business_key'' = so_BusinessKey options \<and>
    (\<forall>key str. (key, Inr str) \<in> set (so_Inputs options) \<longrightarrow> query_get (parse_values q) key = str)"
proof (intro exI conjI allI impI)
  let ?pattern = "''GET /v2/deployments/{id}/start''" and ?q = "values_encode (start_query options)"
  let ?path = "path_of [''v2'', ''deployments'', PathEscape deplId, ''start'']"
  have shape: "pattern_method ?pattern = ''GET''" "wildcard_names (pattern_segments ?pattern) = [''id'']"
    "map parse_segment (pattern_segments ?pattern) = [Lit ''v2'', Lit ''deployments'', Wild, Lit ''start'']"
    "(?pattern \<noteq> ''GET /'')" by code_simp+
  have "(?pattern, Ep2_StartDeployment) \<in> set v2_routes" unfolding v2_routes_def by simp
  then have "(?pattern, Ep2_StartDeployment) \<in> set routes" by (simp add: routes_def)
  from routes_reached [OF this shape(4), of "[deplId]"] assms(1)
  show "dispatch ''GET'' ?path = Served Ep2_StartDeployment [(''id'', deplId)]"
    by (simp add: shape path_for_def)
  show "start_url serverUrl deplId options = serverUrl @ ?path @ ''?'' @ ?q"
    by (simp add: start_url_def path_of_def)
  show "CHR ''?'' \<notin> set ?path" using PathEscape_plain [of "CHR ''?''"]
    by (auto simp: path_of_def unreserved_def)
  have get: "query_get (parse_values ?q) k = query_get (start_query options) k" for k
    by (simp add: query_get_values values_round_trip [OF start_query_distinct])
  show "query_get (parse_values ?q) ''business_key'' = so_BusinessKey options"
    using get start_query_get(1) [OF assms(2,3)] by simp
  show "query_get (parse_values ?q) key = str" if "(key, Inr str) \<in> set (so_Inputs options)" for key str
    using get start_query_get(2) [OF assms(2,3) that] by (simp add: query_get_values)
qed

theorem client_starts_the_deployment_witness:
  "\<exists>path q. start_url ''http://wrapper'' ''a/b c'' \<lparr>so_BusinessKey = ''x&y'', so_Inputs = [(''n'', Inr ''1'')]\<rparr> =
      ''http://wrapper'' @ path @ ''?'' @ q \<and>
    dispatch ''GET'' path = Served Ep2_StartDeployment [(''id'', ''a/b c'')] \<and>
    query_get (parse_values q) ''business_key'' = ''x&y''"
proof -
  have "segment_value ''a/b c''" by code_simp
  from client_starts_the_deployment [OF this, of "\<lparr>so_BusinessKey = ''x&y'', so_Inputs = [(''n'', Inr ''1'')]\<rparr>"
      "''http://wrapper''"]
  show ?thesis by auto
qed

text \<open>
  The message that the client sends to deploy arrives as it was: the server decodes from its JSON
  the same message (with or without incident handling, for every text in its fields).
\<close>
theorem deployment_message_round_trip:
  "decode_DeploymentMessage (encode_DeploymentMessage raw depl) = Inr depl"
proof -
  obtain i n dg ih u so where depl: "depl = \<lparr>dm_Id = i, dm_Name = n, dm_Diagram = dg, dm_IncidentHandling = ih,
      dm_UserId = u, dm_Source = so\<rparr>" by (cases depl)
  obtain xd sv where dg: "dg = \<lparr>dg_XmlDeployed = xd, dg_Svg = sv\<rparr>" by (cases dg)
  show ?thesis
  proof (cases ih)
    case None
    then show ?thesis unfolding depl dg
      by (simp add: decode_DeploymentMessage_def encode_DeploymentMessage_def decode_struct_def find_field_def
          decode_Diagram_def string_field_def)
  next
    case (Some h)
    obtain re no where h: "h = \<lparr>ih_Restart = re, ih_Notify = no\<rparr>" by (cases h)
    show ?thesis unfolding depl dg Some h
      by (simp add: decode_DeploymentMessage_def encode_DeploymentMessage_def decode_struct_def find_field_def
          decode_Diagram_def decode_IncidentHandling_def string_field_def bool_field_def)
  qed
qed

section \<open>Providers of tokens\<close>

text \<open>
  The provider of tokens in the client library is the wrapper's own \<open>EnsureAccess\<close>: for every
  network, clock, configuration and kept token, it makes the same requests, returns the same
  result and keeps the same token.
\<close>
theorem token_provider_is_EnsureAccess:
  "NewTokenProvider net now cfg (openid, e) = EnsureAccess net now cfg (openid, e)"
proof -
  have g: "getOpenidToken net now cfg e = GetOpenidToken net now cfg e" for e
    by (auto simp: getOpenidToken_def GetOpenidToken_def token_reply_def split: prod.split reply.split sum.split)
  have r: "refreshOpenidToken net now cfg tok e = RefreshOpenidToken net now cfg (RefreshToken tok) e" for tok e
    by (auto simp: refreshOpenidToken_def RefreshOpenidToken_def token_reply_def
        split: prod.split reply.split sum.split)
  show ?thesis by (simp add: NewTokenProvider_def provide_def EnsureAccess_def Let_def g r)
qed

end
