(* ===== verification/CleanupProps.thy ===== *)
theory CleanupProps
  imports Cleanup ClientProps
begin

text \<open>
  What the tools find is what is not linked, when the databases answer completely; what they find
  otherwise; and that removing virtual ids by the command removes nothing.
\<close>

section \<open>The searches\<close>

text \<open>Reference: the deployments that the engines list, one engine after the other.\<close>

fun answers :: "'e tools \<Rightarrow> string list \<Rightarrow> 'e \<Rightarrow> (string \<times> RawDeployment list \<times> 'e) list" where
  "answers tls [] e = []"
| "answers tls (shard # rest) e =
     (case getDeploymentListAllRaw tls shard e of
        (Inl err, e1) \<Rightarrow> []
      | (Inr ds, e1) \<Rightarrow> (shard, ds, e1) # answers tls rest e1)"

text \<open>A deployment that is older than the given age, at the time of the answer.\<close>

definition older :: "'e tools \<Rightarrow> rat \<Rightarrow> 'e \<Rightarrow> RawDeployment \<Rightarrow> bool" where
  "older tls age e d \<longleftrightarrow>
     (case tl_parse_time tls (rd_DeploymentTime d) of Inl err \<Rightarrow> False | Inr t \<Rightarrow> tl_now tls e - t > age)"

lemma collect_pids_result:
  "collect_pids tls buf by shard ds e acc = Inr m \<Longrightarrow>
     values_get m k = values_get acc k @
       (if k = shard then map rd_Id (filter (\<lambda>d. by (rd_Id d) = None \<and> older tls buf e d) ds) else [])"
proof (induction ds arbitrary: acc)
  case (Cons d ds)
  then obtain t where t: "tl_parse_time tls (rd_DeploymentTime d) = Inr t" by (cases "tl_parse_time tls (rd_DeploymentTime d)") auto
  with Cons show ?case by (auto simp: values_get_add older_def split: if_splits)
qed simp

lemma over_shards_pids:
  assumes "over_shards tls (collect_pids tls buf by) urls acc e = (Inr m, e')" and "distinct urls"
  shows "map fst (answers tls urls e) = urls \<and>
    (\<forall>(shard, ds, e1) \<in> set (answers tls urls e). values_get m shard =
       values_get acc shard @ map rd_Id (filter (\<lambda>d. by (rd_Id d) = None \<and> older tls buf e1 d) ds)) \<and>
    (\<forall>shard. shard \<notin> set urls \<longrightarrow> values_get m shard = values_get acc shard)"
  using assms
proof (induction urls arbitrary: acc e)
  case (Cons shard rest)
  from Cons.prems(1) obtain ds e1 acc1 where s: "getDeploymentListAllRaw tls shard e = (Inr ds, e1)"
    "collect_pids tls buf by shard ds e1 acc = Inr acc1"
    "over_shards tls (collect_pids tls buf by) rest acc1 e1 = (Inr m, e')"
    by (auto split: prod.splits sum.splits)
  let ?found = "\<lambda>acc. \<lambda>(shard, ds, e1). values_get m shard =
    values_get acc shard @ map rd_Id (filter (\<lambda>d. by (rd_Id d) = None \<and> older tls buf e1 d) ds)"
  from Cons.prems(2) have d: "distinct rest" "shard \<notin> set rest" by simp_all
  note ih = Cons.IH [OF s(3) d(1)]
  have a: "answers tls (shard # rest) e = (shard, ds, e1) # answers tls rest e1" using s(1) by simp
  have acc: "values_get acc1 k = values_get acc k" if "k \<noteq> shard" for k
    using collect_pids_result [OF s(2), of k] that by simp
  have "fst ` set (answers tls rest e1) = set rest" using ih by (metis list.set_map)
  then have "x \<in> set (answers tls rest e1) \<Longrightarrow> fst x \<noteq> shard" for x using d(2) by blast
  then have "\<forall>x \<in> set (answers tls rest e1). ?found acc x" using ih acc by fastforce
  moreover have "?found acc (shard, ds, e1)" using ih d(2) collect_pids_result [OF s(2), of shard] by simp
  moreover have "\<forall>k. k \<notin> set (shard # rest) \<longrightarrow> values_get m k = values_get acc k" using ih acc by simp
  ultimately show ?case unfolding a using ih by simp
qed simp

lemma healthy_GetShards:
  assumes "healthy s" and "codec_ok enc dec"
  shows "GetShards (none_use enc dec) ((), s) = (Inr (shard_table (committed s)), (), s)"
proof -
  have "exec_db SQLListShards s = (Inr (shard_table (committed s)), s)"
    using assms(1) by (simp add: exec_db_def next_fault_def healthy_def SQLListShards_def)
  then have "getShards Db s = (Inr (shard_table (committed s)), s)"
    using assms(1) by (simp add: getShards_def andThen_def exec_def healthy_fetch)
  moreover have "trip enc dec (shard_table (committed s)) = Inr (shard_table (committed s))"
    using assms(2) by (simp add: codec_ok_def)
  ultimately show ?thesis
    by (auto simp: GetShards_def none_use_def trip_def split: sum.splits)
qed

definition complete :: "'e tools \<Rightarrow> 'e tool_state \<Rightarrow> bool" where
  "complete tls st \<longleftrightarrow> healthy (ts_shards st) \<and> healthy (ts_vids st) \<and>
     codec_ok (tl_marshal tls) (tl_unmarshal tls) \<and> one_to_one (committed (ts_vids st)) \<and>
     distinct (shard_table (committed (ts_shards st)))"

lemma with_relations_complete:
  assumes "complete tls st" and "with_relations tls k st = (Some (Inr x), st1)"
  shows "\<exists>e1. k (shard_table (committed (ts_shards st))) (map_of (committed (ts_vids st))) (ts_env st) = (Inr x, e1)"
  using assms
  by (auto simp: with_relations_def complete_def healthy_GetShards healthy_GetRelations split: if_splits prod.splits)

lemma map_of_relation: "map_of d i = None \<longleftrightarrow> i \<notin> fst ` set d"
  by (simp add: map_of_eq_None_iff)

text \<open>
  C26: \<open>FindUnlinkedPid\<close> finds exactly what is not linked: when the databases answer completely, every
  engine of the table of shards was asked, and the ids that are returned for it are those of its
  deployments, in its order, that have no virtual id in the relation and are older than the age
  given.
\<close>
theorem unlinked_pids_found:
  assumes "complete tls st" and "FindUnlinkedPid tls buf st = (Some (Inr m), st1)"
  shows "map fst (answers tls (shard_table (committed (ts_shards st))) (ts_env st)) =
      shard_table (committed (ts_shards st)) \<and>
    (\<forall>(shard, ds, e1) \<in> set (answers tls (shard_table (committed (ts_shards st))) (ts_env st)).
      values_get m shard =
        map rd_Id (filter (\<lambda>d. rd_Id d \<notin> fst ` set (committed (ts_vids st)) \<and> older tls buf e1 d) ds))"
proof -
  obtain e1 where e1: "over_shards tls (collect_pids tls buf (map_of (committed (ts_vids st))))
      (shard_table (committed (ts_shards st))) [] (ts_env st) = (Inr m, e1)"
    using with_relations_complete [OF assms(1) assms(2) [unfolded FindUnlinkedPid_def]] by auto
  have "values_get [] k = []" for k by (simp add: values_get_def)
  with over_shards_pids [OF e1] assms(1) show ?thesis unfolding map_of_relation by (simp add: complete_def)
qed

lemma over_shards_index:
  "over_shards tls (\<lambda>shard ds e1 acc. Inr (acc @ map rd_Id ds)) urls acc e = (Inr ix, e') \<Longrightarrow>
     map fst (answers tls urls e) = urls \<and>
     set ix = set acc \<union> (\<Union>(shard, ds, e1) \<in> set (answers tls urls e). rd_Id ` set ds)"
  by (induction urls arbitrary: acc e) (fastforce split: prod.splits sum.splits)+

text \<open>\<open>range\<close> visits the entries of a map and nothing else.\<close>

definition visits :: "'e tools \<Rightarrow> (string \<rightharpoonup> string) \<Rightarrow> bool" where
  "visits tls m \<longleftrightarrow> set (tl_range tls m) = {(k, v). m k = Some v}"

text \<open>
  \<open>FindUnlinkedVid\<close> finds exactly the virtual ids without a deployment: when the databases answer
  completely, it returns those ids of the relation whose deployment none of the engines lists.
\<close>
theorem unlinked_vids_found:
  assumes "complete tls st" and "visits tls (map_of (committed (ts_vids st)))"
    and "FindUnlinkedVid tls st = (Some (Inr vs), st1)"
  shows "set vs = {v. \<exists>i. (i, v) \<in> set (committed (ts_vids st)) \<and>
    (\<forall>(shard, ds, e1) \<in> set (answers tls (shard_table (committed (ts_shards st))) (ts_env st)).
       i \<notin> rd_Id ` set ds)}"
proof -
  let ?rel = "committed (ts_vids st)"
  obtain ix e1 where o: "over_shards tls (\<lambda>shard ds e1 deplIndex. Inr (deplIndex @ map rd_Id ds))
      (shard_table (committed (ts_shards st))) [] (ts_env st) = (Inr ix, e1)"
    and vs: "vs = map snd (filter (\<lambda>(did, vid). did \<notin> set ix) (tl_range tls (map_of ?rel)))"
    using with_relations_complete [OF assms(1) assms(3) [unfolded FindUnlinkedVid_def]]
    by (auto split: prod.splits sum.splits)
  have "distinct (map fst ?rel)" using assms(1) by (simp add: complete_def one_to_one_def)
  then have "set (tl_range tls (map_of ?rel)) = set ?rel"
    using assms(2) by (auto simp: visits_def map_of_eq_Some_iff)
  with over_shards_index [OF o] show ?thesis unfolding vs by (force simp: image_iff)
qed

section \<open>A demonstration of the tools\<close>

text \<open>
  A codec for lists, and an engine that lists two deployments, of which one has a virtual id.
\<close>

definition mark_list :: "string list \<Rightarrow> string" where
  "mark_list xs = concat (map (\<lambda>s. concat (map (\<lambda>c. [CHR ''c'', c]) s) @ ''.'') xs)"

fun unmark_list :: "string \<Rightarrow> string \<Rightarrow> string list" where
  "unmark_list cur [] = []"
| "unmark_list cur (m # s) =
     (if m = CHR ''.'' then cur # unmark_list [] s
      else (case s of [] \<Rightarrow> [] | c # r \<Rightarrow> unmark_list (cur @ [c]) r))"

lemma unmark_mark: "unmark_list [] (mark_list xs) = xs"
proof (induction xs)
  case (Cons x xs)
  have "unmark_list cur (concat (map (\<lambda>c. [CHR ''c'', c]) x) @ ''.'' @ r) = (cur @ x) # unmark_list [] r" for cur r
    by (induction x arbitrary: cur) simp_all
  from this [of "[]" "mark_list xs"] Cons show ?case by (simp add: mark_list_def)
qed (simp add: mark_list_def)

definition demo_tools :: "unit tools" where
  "demo_tools = \<lparr>tl_net = (\<lambda>rq e.
       (if rq_method rq = ''DELETE'' then Reply 204 ''204 No Content'' '''' (Inl (JsonError ''EOF''))
        else if rq_url rq = ''s1/engine-rest/deployment''
        then Reply 200 ''200 OK'' '''' (Inr (JArr [JObj [(''id'', JStr ''d1'')], JObj [(''id'', JStr ''d2'')]]))
        else Reply 200 ''200 OK'' '''' (Inr (JArr [])), e)),
     tl_now = (\<lambda>_. 1000000), tl_parse_time = (\<lambda>_. Inr 0), tl_anonymous = Some,
     tl_marshal = (\<lambda>xs. Inr (mark_list xs)), tl_unmarshal = (\<lambda>s. Inr (unmark_list [] s)),
     tl_range = (\<lambda>m. concat (map (\<lambda>k. case m k of None \<Rightarrow> [] | Some v \<Rightarrow> [(k, v)]) [''d1'', ''d9'']))\<rparr>"

definition demo_tool_state :: "nat option list \<Rightarrow> unit tool_state" where
  "demo_tool_state cs = \<lparr>ts_shards = demo_sql demo_db [],
     ts_vids = demo_vid [] cs [(''d1'', ''v1''), (''d9'', ''v9'')], ts_env = ()\<rparr>"

lemma demo_complete: "complete demo_tools (demo_tool_state [])"
proof -
  have "codec_ok (tl_marshal demo_tools) (tl_unmarshal demo_tools)"
    by (simp add: codec_ok_def trip_def json_marshal_def json_unmarshal_def demo_tools_def unmark_mark)
  then show ?thesis
    by (simp add: complete_def healthy_def demo_tool_state_def demo_sql_def demo_vid_def demo_db_def one_to_one_def)
qed

lemma demo_answers:
  "getDeploymentListAllRaw demo_tools ''s1'' e = (Inr [\<lparr>rd_Id = ''d1'', rd_Name = '''', rd_Source = '''',
     rd_DeploymentTime = '''', rd_TenantId = ''''\<rparr>, \<lparr>rd_Id = ''d2'', rd_Name = '''', rd_Source = '''',
     rd_DeploymentTime = '''', rd_TenantId = ''''\<rparr>], e)"
  "getDeploymentListAllRaw demo_tools ''s2'' e = (Inr [], e)"
  by (simp_all add: getDeploymentListAllRaw_def Cleanup_Get_def demo_tools_def get_request_def decode_list_def
      decode_RawDeployment_def decode_struct_def find_field_def string_field_def)

lemma demo_shards: "GetShards (none_use (tl_marshal demo_tools) (tl_unmarshal demo_tools))
    ((), demo_sql demo_db []) = (Inr [''s1'', ''s2''], (), demo_sql demo_db [])"
  using healthy_GetShards [of "demo_sql demo_db []" "tl_marshal demo_tools" "tl_unmarshal demo_tools"]
    demo_complete
  by (simp add: complete_def demo_tool_state_def) (simp add: demo_sql_def demo_db_def)

lemma demo_times: "tl_parse_time demo_tools t = Inr 0" "tl_now demo_tools e = 1000000"
  by (simp_all add: demo_tools_def)

lemma demo_find:
  "FindUnlinkedPid demo_tools 0 (demo_tool_state []) =
     (Some (Inr [(''s1'', [''d2''])]), demo_tool_state [])"
  by (simp add: FindUnlinkedPid_def with_relations_def demo_tool_state_def demo_shards demo_answers
      GetRelations_def exec_def exec_db_def next_fault_def fetch_def demo_vid_def sql_relations_def demo_times values_add_def values_get_def)

theorem unlinked_pids_found_witness:
  "map (\<lambda>(shard, ds, e1). values_get [(''s1'', [''d2''])] shard) (answers demo_tools [''s1'', ''s2''] ()) =
   map (\<lambda>(shard, ds, e1). map rd_Id (filter (\<lambda>d. rd_Id d \<notin> {''d1'', ''d9''} \<and> older demo_tools 0 e1 d) ds))
     (answers demo_tools [''s1'', ''s2''] ())"
  by (rule map_cong [OF refl], insert unlinked_pids_found [OF demo_complete demo_find])
    (auto simp: demo_tool_state_def demo_sql_def demo_db_def demo_vid_def)

theorem unlinked_vids_found_witness:
  "\<exists>vs. fst (FindUnlinkedVid demo_tools (demo_tool_state [])) = Some (Inr vs) \<and> set vs = {''v9''}"
proof -
  have r: "visits demo_tools (map_of (committed (ts_vids (demo_tool_state []))))"
    unfolding visits_def by (auto simp: demo_tools_def demo_tool_state_def demo_vid_def split: if_splits)
  have "\<exists>vs. FindUnlinkedVid demo_tools (demo_tool_state []) = (Some (Inr vs), demo_tool_state [])"
    by (simp add: FindUnlinkedVid_def with_relations_def demo_tool_state_def demo_shards demo_answers
        GetRelations_def exec_def exec_db_def next_fault_def fetch_def demo_vid_def sql_relations_def)
  then obtain vs where vs: "FindUnlinkedVid demo_tools (demo_tool_state []) = (Some (Inr vs), demo_tool_state [])"
    by blast
  from unlinked_vids_found [OF demo_complete r vs] have "set vs = {''v9''}"
    by (auto simp: demo_tool_state_def demo_sql_def demo_db_def demo_vid_def demo_answers)
  with vs show ?thesis by simp
qed

text \<open>
  When the transfer of the relation's rows breaks off, \<open>FindUnlinkedPid\<close> reports deployments as
  unlinked that have a virtual id, and no error: the printed arguments lead \<open>remove-pid\<close> to
  remove a deployment in use from its engine.
\<close>
theorem linked_pid_reported:
  "(''d1'', ''v1'') \<in> set (committed (ts_vids (demo_tool_state [Some 0]))) \<and>
   fst (printUnlinkedPid demo_tools (demo_tool_state [Some 0])) = Some (Inr [''s1'', ''d1'', ''s1'', ''d2'']) \<and>
   fst (removePids demo_tools [''s1'', ''d1'', ''s1'', ''d2''] True (Inr '''') ()) = Some (Inr ())"
proof -
  have "FindUnlinkedPid demo_tools (24 * 3600) (demo_tool_state [Some 0]) =
     (Some (Inr [(''s1'', [''d1'', ''d2''])]), demo_tool_state [])"
    by (simp add: FindUnlinkedPid_def with_relations_def demo_tool_state_def demo_shards demo_answers
        GetRelations_def exec_def exec_db_def next_fault_def fetch_def demo_vid_def sql_relations_def demo_times values_add_def values_get_def)
  then have "fst (printUnlinkedPid demo_tools (demo_tool_state [Some 0])) = Some (Inr [''s1'', ''d1'', ''s1'', ''d2''])"
    by (simp add: printUnlinkedPid_def printed_pids_def pairs_of_map_def)
  moreover have "(''d1'', ''v1'') \<in> set (committed (ts_vids (demo_tool_state [Some 0])))"
    by (simp add: demo_tool_state_def demo_vid_def)
  moreover have "fst (removePids demo_tools [''s1'', ''d1'', ''s1'', ''d2''] True (Inr '''') ()) = Some (Inr ())"
    by (simp add: removePids_def confirmed_def RemovePid_def pairs_of_map_def values_add_def values_get_def
        removeProcess_def demo_tools_def delete_request_def)
  ultimately show ?thesis by blast
qed

section \<open>Printed and read again\<close>

lemma pair_args_add: "pair_args (concat (map (\<lambda>pid. [shard, pid]) pids) @ rest) m =
    pair_args rest (fold (values_add shard) pids m)"
  by (induction pids arbitrary: m) simp_all

lemma values_add_absent:
  assumes "shard \<notin> fst ` set m" and "pids \<noteq> []"
  shows "fold (values_add shard) pids m = m @ [(shard, pids)]"
proof -
  have upd: "AList.update shard x (m @ [(shard, y)]) = m @ [(shard, x)]" for x and y :: "string list"
    using assms(1) by (induction m) auto
  have get: "values_get (m @ [(shard, y)]) shard = y" for y
    using assms(1) by (simp add: values_get_def map_add_def map_of_eq_None_iff [symmetric] split: option.split)
  have step: "fold (values_add shard) xs (m @ [(shard, y)]) = m @ [(shard, y @ xs)]" for xs y
    by (induction xs arbitrary: y) (simp_all add: values_add_def upd get)
  obtain p ps where pids: "pids = p # ps" using assms(2) by (cases pids) auto
  have "values_get m shard = []" using assms(1) by (simp add: values_get_def map_of_eq_None_iff [symmetric] split: option.split)
  moreover have "AList.update shard [p] m = m @ [(shard, [p])]" using assms(1) by (induction m) auto
  ultimately have "values_add shard p m = m @ [(shard, [p])]" by (simp add: values_add_def)
  with step [of ps "[p]"] pids show ?thesis by simp
qed

text \<open>
  What \<open>list-unlinked-pid\<close> prints can be given to \<open>remove-pid\<close>: its words, taken in pairs, make the
  map of shards to ids that was printed (its keys are those of a map, and no list of it is empty).
\<close>
theorem printed_pids_read_back:
  assumes "distinct (map fst m)" and "list_all (\<lambda>e. snd e \<noteq> []) m"
  shows "pair_args (printed_pids m) [] = m"
proof -
  have "pair_args (printed_pids m) acc = acc @ m" if "distinct (map fst (acc @ m))" for acc
    using that assms(2)
  proof (induction m arbitrary: acc)
    case (Cons e m)
    obtain shard pids where e: "e = (shard, pids)" by (cases e)
    have "printed_pids (e # m) = concat (map (\<lambda>pid. [shard, pid]) pids) @ printed_pids m"
      by (simp add: printed_pids_def pairs_of_map_def e comp_def)
    moreover have "fold (values_add shard) pids acc = acc @ [(shard, pids)]"
      using Cons.prems e by (intro values_add_absent) auto
    ultimately show ?case using Cons.IH [of "acc @ [(shard, pids)]"] Cons.prems e by (simp add: pair_args_add)
  qed (simp add: printed_pids_def pairs_of_map_def)
  from this [of "[]"] assms(1) show ?thesis by simp
qed

theorem printed_pids_read_back_witness:
  "pair_args [''s1'', ''d1'', ''s1'', ''d2'', ''s2'', ''d3''] [] = [(''s1'', [''d1'', ''d2'']), (''s2'', [''d3''])]"
  using printed_pids_read_back [of "[(''s1'', [''d1'', ''d2'']), (''s2'', [''d3''])]"]
  by (simp add: printed_pids_def pairs_of_map_def)

end
