(* ===== verification/EtreeStream.thy ===== *)
theory EtreeStream
  imports EtreeIO "HOL-Library.Word"
begin

text \<open>
  Documents on streams (\<open>etree/etree.go\<close>, \<open>etree/helpers.go\<close>): the calls that the methods \<open>writeTo\<close>
  make on a \<open>bufio.Writer\<close>, the counting writer below it, and an \<open>io.Writer\<close> below that, which may
  fail or take only a part of what it is given. The interface \<open>io.Writer\<close> is a locale; what
  reaches the writer is proved in it once. The text of \<open>EtreeIO.writeTo\<close> is what the calls spell.
\<close>

section \<open>Writers\<close>

text \<open>\<open>Write(p)\<close> of an \<open>io.Writer\<close> in state \<open>w\<close>: how many bytes were taken, an error, the new state.\<close>

type_synonym 'w writefn = "string \<Rightarrow> 'w \<Rightarrow> (nat \<times> goerror option) \<times> 'w"

text \<open>
  The documented contract: \<open>Write\<close> takes a front part of what it is given. \<open>received\<close> is all that the
  writer has taken so far.
\<close>

locale writer =
  fixes wr :: "'w writefn"
    and received :: "'w \<Rightarrow> string"
  assumes takes_front:
    "wr p w = ((n, err), w') \<Longrightarrow> n \<le> length p \<and> received w' = received w @ take n p"

section \<open>The counting writer\<close>

record 'w countWriter =
  cw_w :: 'w
  cw_bytes :: "64 word"

definition newCountWriter :: "'w \<Rightarrow> 'w countWriter" where
  "newCountWriter w = \<lparr>cw_w = w, cw_bytes = 0\<rparr>"

definition countWriter_Write :: "'w writefn \<Rightarrow> 'w countWriter writefn" where
  "countWriter_Write wr p cw =
     (case wr p (cw_w cw) of
        ((b, err), w') \<Rightarrow> ((b, err), cw\<lparr>cw_w := w', cw_bytes := cw_bytes cw + of_nat b\<rparr>))"

text \<open>The counting reader: \<open>read k r\<close> delivers at most \<open>k\<close> bytes.\<close>

record 'r countReader =
  cr_r :: 'r
  cr_bytes :: "64 word"

definition newCountReader :: "'r \<Rightarrow> 'r countReader" where
  "newCountReader r = \<lparr>cr_r = r, cr_bytes = 0\<rparr>"

definition countReader_Read ::
  "(nat \<Rightarrow> 'r \<Rightarrow> (string \<times> goerror option) \<times> 'r) \<Rightarrow> nat \<Rightarrow> 'r countReader \<Rightarrow>
   (string \<times> goerror option) \<times> 'r countReader" where
  "countReader_Read read k cr =
     (case read k (cr_r cr) of
        ((b, err), r') \<Rightarrow> ((b, err), cr\<lparr>cr_r := r', cr_bytes := cr_bytes cr + of_nat (length b)\<rparr>))"

text \<open>Whatever reads follow each other: the counter has grown by the number of the bytes delivered.\<close>

fun reads ::
  "(nat \<Rightarrow> 'r \<Rightarrow> (string \<times> goerror option) \<times> 'r) \<Rightarrow> nat list \<Rightarrow> 'r \<Rightarrow> string \<times> 'r" where
  "reads read [] r = ('''', r)"
| "reads read (k # ks) r =
     (case read k r of ((b, err), r1) \<Rightarrow> (case reads read ks r1 of (bs, r2) \<Rightarrow> (b @ bs, r2)))"

lemma countReader_counts:
  "reads (countReader_Read read) ks cr = (bs, cr') \<Longrightarrow>
     reads read ks (cr_r cr) = (bs, cr_r cr') \<and> cr_bytes cr' = cr_bytes cr + of_nat (length bs)"
proof (induction ks arbitrary: cr bs)
  case (Cons k ks)
  obtain b err r1 where b: "read k (cr_r cr) = ((b, err), r1)" by (metis prod.collapse)
  let ?cr = "cr\<lparr>cr_r := r1, cr_bytes := cr_bytes cr + of_nat (length b)\<rparr>"
  from Cons.prems b obtain bs1 where "reads (countReader_Read read) ks ?cr = (bs1, cr')" "bs = b @ bs1"
    by (auto simp: countReader_Read_def [of read k] split: prod.splits)
  with Cons.IH [of ?cr bs1] b show ?case by (simp add: algebra_simps)
qed simp

section \<open>The buffered writer\<close>

text \<open>
  \<open>bufio.Writer\<close> of the standard library, with its default size: bytes wait in the buffer; the first
  error stays and stops everything after it.
\<close>

definition bufsize :: nat where
  "bufsize = 4096"

definition ErrShortWrite :: goerror where
  "ErrShortWrite = ErrMsg ''short write''"

record 'w bufwriter =
  bw_wr :: 'w
  bw_buf :: string
  bw_err :: "goerror option"

definition NewWriter :: "'w \<Rightarrow> 'w bufwriter" where
  "NewWriter w = \<lparr>bw_wr = w, bw_buf = '''', bw_err = None\<rparr>"

definition available :: "'w bufwriter \<Rightarrow> nat" where
  "available b = bufsize - length (bw_buf b)"

definition flush :: "'w writefn \<Rightarrow> 'w bufwriter \<Rightarrow> 'w bufwriter" where
  "flush wr b =
     (if bw_err b \<noteq> None \<or> bw_buf b = '''' then b
      else case wr (bw_buf b) (bw_wr b) of
        ((n, e), w') \<Rightarrow>
          (let err = (if n < length (bw_buf b) \<and> e = None then Some ErrShortWrite else e)
           in if err \<noteq> None then b\<lparr>bw_wr := w', bw_buf := drop n (bw_buf b), bw_err := err\<rparr>
              else b\<lparr>bw_wr := w', bw_buf := ''''\<rparr>))"

definition append_buf :: "string \<Rightarrow> 'w bufwriter \<Rightarrow> 'w bufwriter" where
  "append_buf s b = b\<lparr>bw_buf := bw_buf b @ s\<rparr>"

text \<open>
  \<open>WriteString\<close>: while the text is longer than the room, the buffer is filled up and flushed (the
  counting writer has no \<open>WriteString\<close> of its own).
\<close>

function WriteString :: "'w writefn \<Rightarrow> string \<Rightarrow> 'w bufwriter \<Rightarrow> 'w bufwriter" where
  "WriteString wr s b =
     (if bw_err b \<noteq> None then b
      else if length s > available b then
        (let b1 = flush wr (append_buf (take (available b) s) b)
         in if bw_err b1 \<noteq> None then b1 else WriteString wr (drop (available b) s) b1)
      else append_buf s b)"
  by pat_completeness auto

lemma flush_empties: "bw_err (flush wr b) = None \<Longrightarrow> bw_buf (flush wr b) = []"
  by (simp add: flush_def Let_def split: prod.splits if_splits)

termination WriteString
proof (relation "measure (\<lambda>(wr, s, b). length s + length (bw_buf b))")
  fix wr :: "'a writefn" and s :: string and b b1 :: "'a bufwriter"
  assume "\<not> bw_err b \<noteq> None" and long: "available b < length s"
    and b1: "b1 = flush wr (append_buf (take (available b) s) b)" and "\<not> bw_err b1 \<noteq> None"
  then have "bw_buf b1 = ''''" using flush_empties by auto
  moreover have "0 < available b \<or> 0 < length (bw_buf b)"
    by (cases "bw_buf b = ''''") (simp_all add: available_def bufsize_def)
  ultimately show "((wr, drop (available b) s, b1), wr, s, b) \<in> measure (\<lambda>(wr, s, b). length s + length (bw_buf b))"
    using long by (cases "0 < available b") auto
qed simp

declare WriteString.simps [simp del]

text \<open>\<open>WriteByte\<close> flushes a full buffer first.\<close>

definition WriteByte :: "'w writefn \<Rightarrow> char \<Rightarrow> 'w bufwriter \<Rightarrow> 'w bufwriter" where
  "WriteByte wr c b =
     (if bw_err b \<noteq> None then b
      else if available b = 0 then
        (let b1 = flush wr b in if bw_err b1 \<noteq> None then b1 else append_buf [c] b1)
      else append_buf [c] b)"

text \<open>
  \<open>Write\<close> differs from \<open>WriteString\<close> only for slices that are longer than the whole buffer; those of the
  methods \<open>writeTo\<close> have at most three bytes.
\<close>

definition Write :: "'w writefn \<Rightarrow> string \<Rightarrow> 'w bufwriter \<Rightarrow> 'w bufwriter" where
  "Write wr p b = WriteString wr p b"

section \<open>The calls of writeTo\<close>

datatype put = Byte char | Text string | Slice string

fun put_text :: "put \<Rightarrow> string" where
  "put_text (Byte c) = [c]"
| "put_text (Text s) = s"
| "put_text (Slice p) = p"

fun perform_put :: "'w writefn \<Rightarrow> put \<Rightarrow> 'w bufwriter \<Rightarrow> 'w bufwriter" where
  "perform_put wr (Byte c) b = WriteByte wr c b"
| "perform_put wr (Text s) b = WriteString wr s b"
| "perform_put wr (Slice p) b = Write wr p b"

definition name_puts :: "string \<Rightarrow> string \<Rightarrow> put list" where
  "name_puts space key = (if space \<noteq> '''' then [Text space, Byte CHR '':''] else []) @ [Text key]"

definition attr_puts :: "WriteSettings \<Rightarrow> attr \<Rightarrow> put list" where
  "attr_puts s a =
     name_puts (a_space a) (a_key a) @
     [Text ''=\"'',
      Text ((if CanonicalAttrVal s then xmlReplacerCanonicalAttrVal else xmlReplacerNormal) (a_value a)),
      Byte CHR 0x22]"

fun token_puts :: "WriteSettings \<Rightarrow> token \<Rightarrow> put list" where
  "token_puts s (Element n sp tag as ch) =
     Byte CHR ''<'' # name_puts sp tag @ concat (map (\<lambda>a. Byte CHR '' '' # attr_puts s a) as) @
     (if length ch > 0
      then Text ''>'' # concat (map (token_puts s) ch) @ Slice ''</'' # name_puts sp tag @ [Byte CHR ''>'']
      else if CanonicalEndTags s then Slice ''></'' # name_puts sp tag @ [Byte CHR ''>'']
      else [Slice ''/>''])"
| "token_puts s (CharData n d w) =
     [Text ((if CanonicalText s then xmlReplacerCanonicalText else xmlReplacerNormal) d)]"
| "token_puts s (Comment n d) = [Text ''<!--'', Text d, Text ''-->'']"
| "token_puts s (Directive n d) = [Text ''<!'', Text d, Text ''>'']"
| "token_puts s (ProcInst n target inst) =
     [Text ''<?'', Text target] @ (if inst \<noteq> '''' then [Byte CHR '' '', Text inst] else []) @ [Text ''?>'']"
| "token_puts s (CData n v) = [Text (''<![CDATA['' @ v @ '']]>'')]"

definition spell :: "put list \<Rightarrow> string" where
  "spell ps = concat (map put_text ps)"

lemma spell_simps [simp]:
  "spell [] = ''''" "spell (p # ps) = put_text p @ spell ps" "spell (ps @ qs) = spell ps @ spell qs"
  "spell (concat pss) = concat (map spell pss)"
  by (simp_all add: spell_def) (induction pss, simp_all add: spell_def)

lemma spell_name: "spell (name_puts space key) = name_text space key"
  by (simp add: name_puts_def name_text_def)

lemma spell_token: "spell (token_puts s t) = writeTo s t"
proof (induction t)
  case (Element n sp tag as ch)
  then have "map (\<lambda>c. spell (token_puts s c)) ch = map (writeTo s) ch" by simp
  then show ?case by (simp add: spell_name attr_puts_def attr_writeTo_def comp_def del: map_eq_conv)
qed simp_all

section \<open>Documents\<close>

definition document_puts :: "document \<Rightarrow> put list" where
  "document_puts d = concat (map (token_puts (d_settings d)) (children (d_element d)))"

definition WriteTo :: "'w writefn \<Rightarrow> document \<Rightarrow> 'w \<Rightarrow> (64 word \<times> goerror option) \<times> 'w" where
  "WriteTo wr d w =
     (let cw = newCountWriter w;
          b = flush (countWriter_Write wr) (fold (perform_put (countWriter_Write wr)) (document_puts d) (NewWriter cw))
      in ((cw_bytes (bw_wr b), bw_err b), cw_w (bw_wr b)))"

text \<open>\<open>bytes.Buffer\<close> takes everything.\<close>

definition buffer_Write :: "string writefn" where
  "buffer_Write p w = ((length p, None), w @ p)"

definition WriteToBytes :: "document \<Rightarrow> string res" where
  "WriteToBytes d =
     (case WriteTo buffer_Write d '''' of
        ((n, Some err), buf) \<Rightarrow> Inl err
      | ((n, None), buf) \<Rightarrow> Inr buf)"

text \<open>\<open>WriteToString\<close> as the code has it, over the stream.\<close>

definition WriteToString_stream :: "document \<Rightarrow> string res" where
  "WriteToString_stream d = (case WriteToBytes d of Inl err \<Rightarrow> Inl err | Inr b \<Rightarrow> Inr b)"

text \<open>Files: \<open>create\<close> and \<open>open\<close> are those of the operating system.\<close>

definition WriteToFile ::
  "(string \<Rightarrow> 'o \<Rightarrow> 'w res \<times> 'o) \<Rightarrow> 'w writefn \<Rightarrow> document \<Rightarrow> string \<Rightarrow> 'o \<Rightarrow> (goerror option \<times> 'w option) \<times> 'o" where
  "WriteToFile create wr d filename os =
     (case create filename os of
        (Inl err, os1) \<Rightarrow> ((Some err, None), os1)
      | (Inr f, os1) \<Rightarrow> (case WriteTo wr d f of ((n, err), f1) \<Rightarrow> ((err, Some f1), os1)))"

definition ReadFromFile ::
  "(string \<Rightarrow> string res) \<Rightarrow> (string \<Rightarrow> decoded) \<Rightarrow> string \<Rightarrow> document \<Rightarrow> nat \<Rightarrow>
   goerror option \<times> document \<times> nat" where
  "ReadFromFile open_file dec filename d n =
     (case open_file filename of
        Inl err \<Rightarrow> (Some err, d, n)
      | Inr content \<Rightarrow> ReadFromString dec content d n)"

section \<open>What reaches the writer\<close>

text \<open>
  Between buffer and writer: the writer has a front part of the text that was handed over, the counter
  its length, and without an error the rest waits in the buffer.
\<close>

definition transports ::
  "('w \<Rightarrow> string) \<Rightarrow> string \<Rightarrow> string \<Rightarrow> 'w countWriter bufwriter \<Rightarrow> bool" where
  "transports received before sofar b \<longleftrightarrow>
     length (bw_buf b) \<le> bufsize \<and>
     (\<exists>k \<le> length sofar. received (cw_w (bw_wr b)) = before @ take k sofar \<and> cw_bytes (bw_wr b) = of_nat k \<and>
        (bw_err b = None \<longrightarrow> bw_buf b = drop k sofar))"

lemma transports_start: "transports received (received w) '''' (NewWriter (newCountWriter w))"
  by (simp add: transports_def NewWriter_def newCountWriter_def)

lemma transports_stopped:
  "transports received before sofar b \<Longrightarrow> bw_err b \<noteq> None \<Longrightarrow> transports received before (sofar @ s) b"
proof -
  assume t: "transports received before sofar b" and e: "bw_err b \<noteq> None"
  from t obtain k where "length (bw_buf b) \<le> bufsize" "k \<le> length sofar"
    "received (cw_w (bw_wr b)) = before @ take k sofar" "cw_bytes (bw_wr b) = of_nat k"
    by (auto simp: transports_def)
  with e show ?thesis unfolding transports_def by (intro conjI exI [of _ k]) auto
qed

lemma transports_append:
  assumes "transports received before sofar b" and "bw_err b = None" and "length s \<le> available b"
  shows "transports received before (sofar @ s) (append_buf s b)"
proof -
  from assms(1,2) obtain k where k: "k \<le> length sofar" "received (cw_w (bw_wr b)) = before @ take k sofar"
    "cw_bytes (bw_wr b) = of_nat k" "bw_buf b = drop k sofar" and l: "length (bw_buf b) \<le> bufsize"
    by (auto simp: transports_def)
  have "length (bw_buf (append_buf s b)) \<le> bufsize" using assms(3) l by (simp add: append_buf_def available_def)
  moreover have "bw_buf (append_buf s b) = drop k (sofar @ s)" using k(1,4) by (simp add: append_buf_def)
  ultimately show ?thesis unfolding transports_def using k(1-3)
    by (intro conjI exI [of _ k]) (simp_all add: append_buf_def)
qed

context writer
begin

lemma flush_transports:
  assumes t: "transports received before sofar b"
  shows "transports received before sofar (flush (countWriter_Write wr) b)"
proof (cases "bw_err b \<noteq> None \<or> bw_buf b = []")
  case False
  with t obtain k where k: "k \<le> length sofar" "received (cw_w (bw_wr b)) = before @ take k sofar"
    "cw_bytes (bw_wr b) = of_nat k" "bw_buf b = drop k sofar" and l: "length (bw_buf b) \<le> bufsize"
    by (auto simp: transports_def)
  obtain n e w' where w: "wr (bw_buf b) (cw_w (bw_wr b)) = ((n, e), w')" by (metis prod.collapse)
  from takes_front [OF w] k have n: "n \<le> length sofar - k" and r: "received w' = before @ take (k + n) sofar"
    by (simp_all add: take_add)
  let ?b = "flush (countWriter_Write wr) b"
  have f: "cw_w (bw_wr ?b) = w'" "cw_bytes (bw_wr ?b) = of_nat (k + n)" "length (bw_buf ?b) \<le> bufsize"
    "bw_err ?b = None \<Longrightarrow> bw_buf ?b = [] \<and> n = length (bw_buf b)"
    using False w l k(3) takes_front [OF w]
    by (auto simp: flush_def countWriter_Write_def Let_def split: if_splits)
  moreover have "bw_buf ?b = drop (k + n) sofar" if "bw_err ?b = None" using f(4) [OF that] k(1,4) by simp
  ultimately show ?thesis unfolding transports_def using r n k(1)
    by (intro conjI exI [of _ "k + n"]) simp_all
qed (use t in \<open>simp add: flush_def\<close>)

lemma WriteString_transports:
  "transports received before sofar b \<Longrightarrow> transports received before (sofar @ s) (WriteString (countWriter_Write wr) s b)"
proof (induction "countWriter_Write wr" s b arbitrary: sofar rule: WriteString.induct)
  case (1 s b)
  let ?w = "countWriter_Write wr"
  show ?case
  proof (cases "bw_err b \<noteq> None \<or> length s \<le> available b")
    case True
    then show ?thesis
      using transports_stopped [OF 1(2)] transports_append [OF 1(2)] by (auto simp: WriteString.simps)
  next
    case False
    let ?t = "take (available b) s" and ?r = "drop (available b) s"
    let ?b1 = "flush ?w (append_buf ?t b)"
    have "transports received before (sofar @ ?t) (append_buf ?t b)"
      using False by (intro transports_append [OF 1(2)]) auto
    from flush_transports [OF this] have t1: "transports received before (sofar @ ?t) ?b1" .
    show ?thesis
    proof (cases "bw_err ?b1 = None")
      case True
      with False 1(1) [OF _ _ refl _ t1] show ?thesis by (subst WriteString.simps) (simp add: Let_def)
    next
      case stop: False
      with False transports_stopped [OF t1 stop, of ?r] show ?thesis
        by (subst WriteString.simps) (simp add: Let_def)
    qed
  qed
qed

lemma WriteByte_transports:
  assumes t: "transports received before sofar b"
  shows "transports received before (sofar @ [c]) (WriteByte (countWriter_Write wr) c b)"
proof -
  let ?b1 = "flush (countWriter_Write wr) b"
  note t1 = flush_transports [OF t]
  have room: "bw_err ?b1 = None \<Longrightarrow> length [c] \<le> available ?b1"
    using flush_empties [of "countWriter_Write wr" b] by (simp add: available_def bufsize_def)
  show ?thesis
    using transports_stopped [OF t] transports_stopped [OF t1] transports_append [OF t, of "[c]"]
      transports_append [OF t1 _ room]
    by (auto simp: WriteByte_def Let_def)
qed

lemma puts_transport:
  "transports received before sofar b \<Longrightarrow>
     transports received before (sofar @ spell ps) (fold (perform_put (countWriter_Write wr)) ps b)"
proof (induction ps arbitrary: sofar b)
  case (Cons p ps)
  have "transports received before (sofar @ put_text p) (perform_put (countWriter_Write wr) p b)"
    using Cons.prems WriteString_transports WriteByte_transports by (cases p) (simp_all add: Write_def)
  from Cons.IH [OF this] show ?case by simp
qed simp

lemma WriteTo_front:
  assumes "WriteTo wr d w = ((n, err), w')"
  shows "\<exists>k \<le> length (WriteToString d). received w' = received w @ take k (WriteToString d) \<and> n = of_nat k \<and>
    (err = None \<longrightarrow> k = length (WriteToString d))"
proof -
  let ?w = "countWriter_Write wr"
  let ?c = "fold (perform_put ?w) (document_puts d) (NewWriter (newCountWriter w))"
  let ?b = "flush ?w ?c"
  have spelled: "spell (document_puts d) = WriteToString d"
    by (simp add: document_puts_def WriteToString_def comp_def spell_token)
  from puts_transport [OF transports_start, of w "document_puts d"] spelled
  have "transports received (received w) (WriteToString d) ?c" by simp
  from flush_transports [OF this] have t: "transports received (received w) (WriteToString d) ?b" .
  from assms have r: "n = cw_bytes (bw_wr ?b)" "err = bw_err ?b" "w' = cw_w (bw_wr ?b)"
    by (simp_all add: WriteTo_def Let_def)
  from t obtain k where k: "k \<le> length (WriteToString d)" "received w' = received w @ take k (WriteToString d)"
    "n = of_nat k" "err = None \<longrightarrow> bw_buf ?b = drop k (WriteToString d)"
    unfolding transports_def r by (elim conjE exE)
  moreover have "k = length (WriteToString d)" if "err = None"
    using flush_empties [of ?w ?c] that k(1,4) r(2) by simp
  ultimately show ?thesis by (intro exI [of _ k]) simp
qed

end

text \<open>A writer that takes all it is given.\<close>

locale sure_writer = writer +
  assumes takes_all: "wr p w = ((n, err), w') \<Longrightarrow> n = length p \<and> err = None"
begin

lemma flush_sure: "bw_err b = None \<Longrightarrow> bw_err (flush (countWriter_Write wr) b) = None"
  by (auto simp: flush_def countWriter_Write_def Let_def dest: takes_all split: prod.splits)

lemma WriteString_sure: "bw_err b = None \<Longrightarrow> bw_err (WriteString (countWriter_Write wr) s b) = None"
proof (induction "countWriter_Write wr" s b rule: WriteString.induct)
  case (1 s b)
  have "bw_err (flush (countWriter_Write wr) (append_buf t b)) = None" for t
    using 1(2) by (intro flush_sure) (simp add: append_buf_def)
  with 1 show ?case by (subst WriteString.simps) (simp add: Let_def append_buf_def)
qed

lemma puts_sure: "bw_err b = None \<Longrightarrow> bw_err (fold (perform_put (countWriter_Write wr)) ps b) = None"
proof (induction ps arbitrary: b)
  case (Cons p ps)
  have "bw_err (perform_put (countWriter_Write wr) p b) = None"
    using Cons.prems WriteString_sure flush_sure [of b]
    by (cases p) (simp_all add: Write_def WriteByte_def Let_def append_buf_def)
  from Cons.IH [OF this] show ?case by simp
qed simp

lemma WriteTo_sure: "WriteTo wr d w = ((n, err), w') \<Longrightarrow> err = None \<and> received w' = received w @ WriteToString d"
  using WriteTo_front [of d w n err w'] flush_sure [OF puts_sure, of "NewWriter (newCountWriter w)" "document_puts d"]
  by (auto simp: WriteTo_def Let_def NewWriter_def)

end

interpretation buffer: sure_writer buffer_Write "\<lambda>w. w"
  by unfold_locales (auto simp: buffer_Write_def)

section \<open>The properties\<close>

text \<open>
  C34: Writing a document to any writer that keeps the contract of \<open>io.Writer\<close>, which may stop or take
  only a part at any call: the writer has a front part of exactly the text of the document, the number
  that is returned is the length of that part (modulo \<open>2 ^ 64\<close>), and when no error is returned the text
  is complete.
\<close>
theorem WriteTo_delivers:
  assumes "writer wr received" and "WriteTo wr d w = ((n, err), w')"
  shows "\<exists>k \<le> length (WriteToString d). received w' = received w @ take k (WriteToString d) \<and> n = of_nat k \<and>
    (err = None \<longrightarrow> k = length (WriteToString d))"
  using writer.WriteTo_front [OF assms] .

text \<open>A disk with room for three more bytes.\<close>

definition full_disk :: "string writefn" where
  "full_disk p w = ((min 3 (length p), if length p > 3 then Some (ErrMsg ''no space left on device'') else None), w @ take 3 p)"

definition small_document :: document where
  "small_document = \<lparr>d_element = Element 0 '''' '''' [] [Element 1 '''' ''a'' [] []], d_settings = newWriteSettings\<rparr>"

theorem WriteTo_delivers_witness:
  "writer full_disk (\<lambda>w. w) \<and>
   (\<exists>n w'. WriteTo full_disk small_document '''' = ((n, Some (ErrMsg ''no space left on device'')), w') \<and>
      (\<exists>k \<le> 4. w' = take k ''<a/>'' \<and> n = of_nat k))"
proof
  have front: "take 3 p = take (min 3 (length p)) p" for p :: string by (cases "length p \<le> 3") (simp_all add: min_def)
  show wr: "writer full_disk (\<lambda>w. w)" by unfold_locales (auto simp: full_disk_def front [symmetric])
  obtain n err w' where r: "WriteTo full_disk small_document '''' = ((n, err), w')" by (metis prod.collapse)
  have t: "WriteToString small_document = ''<a/>''" by code_simp
  have "snd (fst (WriteTo full_disk small_document '''')) = Some (ErrMsg ''no space left on device'')" by code_simp
  with r have "err = Some (ErrMsg ''no space left on device'')" by simp
  with r WriteTo_delivers [OF wr r] show "\<exists>n w'. WriteTo full_disk small_document '''' =
      ((n, Some (ErrMsg ''no space left on device'')), w') \<and> (\<exists>k \<le> 4. w' = take k ''<a/>'' \<and> n = of_nat k)"
    by (auto simp: t numeral_eq_Suc)
qed

text \<open>
  C35: Writing into memory, through the token methods, the buffered and the counting writer, never fails
  and gives exactly the text that the recursive definition of \<open>writeTo\<close> describes.
\<close>
theorem WriteToString_is_stream: "WriteToString_stream d = Inr (WriteToString d)"
  using buffer.WriteTo_sure [of d "''''"]
  by (auto simp: WriteToString_stream_def WriteToBytes_def split: prod.split sum.split option.split)

end
