(* ===== verification/EtreeProps.thy ===== *)
theory EtreeProps
  imports EtreeFind
begin

text \<open>What package \<open>etree\<close> promises, stated over the definitions of the theories before.\<close>

text \<open>
  C36: the round trip of a document: from the raw tokens of a tree the reader rebuilds the tree,
  up to the addresses of its tokens, in a document that was empty.
\<close>

theorem reading_rebuilds_tree:
  assumes "list_all readable ts" and "n0 < n"
  shows "\<exists>ts' n'. readFrom (concat (map events ts), None) (Element n0 sp tag as []) n =
      (None, Element n0 sp tag as ts', n') \<and> map erase ts' = map erase ts"
  using assms by (rule read_events)

theorem reading_rebuilds_tree_witness:
  "\<exists>ts' n'. readFrom ([RawStart ''b'' ''x'' [('''', ''k'', ''v'')], RawCharData '' '', RawEnd ''b'' ''x''], None)
      (Element 0 '''' '''' [] []) 1 = (None, Element 0 '''' '''' [] ts', n') \<and>
    map erase ts' = [Element 0 ''b'' ''x'' [\<lparr>a_space = '''', a_key = ''k'', a_value = ''v''\<rparr>]
      [CharData 0 '' '' True]]"
  using reading_rebuilds_tree [of "[Element 7 ''b'' ''x'' [\<lparr>a_space = '''', a_key = ''k'', a_value = ''v''\<rparr>]
      [CharData 8 '' '' True]]" 0 1 "''''" "''''" "[]"]
  by (simp add: attr_triple_def)

text \<open>
  C33: a query \<open>//name\<close> from an element of a tree with different addresses finds every element
  below it with that name, at any depth, each exactly once, and nothing else; the traversal
  ends without a panic.
\<close>

theorem find_descendants_exact:
  assumes "distinct (addrs e)" and "is_element e" and "spaceDecompose name = (sp, tag)"
    and "set [CHR ''/'', CHR ''['', CHR ''|''] \<inter> set name = {}"
    and "name \<noteq> ''.''" "name \<noteq> ''..''" "name \<noteq> ''*''" "name \<noteq> ''''"
  shows "\<exists>els. FindElements root e (''//'' @ name) = Some els \<and> distinct (map addr els) \<and>
    mset els = mset (filter (tag_match sp tag) (below e))"
  using assms by (rule find_descendants_by_tag)

theorem find_descendants_exact_witness:
  "let e = Element 0 '''' '''' [] [Element 1 ''a'' ''x'' [] [Element 2 ''b'' ''x'' [] []]]
   in \<exists>els. FindElements e e ''//b:x'' = Some els \<and> els = [Element 2 ''b'' ''x'' [] []]"
proof -
  let ?e = "Element 0 '''' '''' [] [Element 1 ''a'' ''x'' [] [Element 2 ''b'' ''x'' [] []]]"
  have "spaceDecompose ''b:x'' = (''b'', ''x'')" by code_simp
  from find_descendants_exact [OF _ _ this, of ?e ?e] obtain els where
    "FindElements ?e ?e ''//b:x'' = Some els" "mset els = mset (filter (tag_match ''b'' ''x'') (below ?e))"
    by (auto simp: tree_simps)
  moreover have "filter (tag_match ''b'' ''x'') (below ?e) = [Element 2 ''b'' ''x'' [] []]" by code_simp
  ultimately have f: "FindElements ?e ?e ''//b:x'' = Some els"
    and "mset els = mset [Element 2 ''b'' ''x'' [] []]" by (simp, metis)
  then have "els = [Element 2 ''b'' ''x'' [] []]" by simp
  with f show ?thesis by (simp add: Let_def)
qed

text \<open>
  C38: escaping is undone by the five entities of XML, for each of the three replacers, and what
  they put out cannot open a tag or close an attribute value.
\<close>

theorem escaping_round_trip:
  "unescape (xmlReplacerNormal s) = s \<and> unescape (xmlReplacerCanonicalText s) = s \<and>
   unescape (xmlReplacerCanonicalAttrVal s) = s \<and>
   \<not> list_ex (\<lambda>c. c = CHR ''<'' \<or> c = CHR 0x22) (xmlReplacerNormal s) \<and>
   \<not> list_ex (\<lambda>c. c = CHR ''<'') (xmlReplacerCanonicalText s) \<and>
   \<not> list_ex (\<lambda>c. c = CHR ''<'' \<or> c = CHR 0x22) (xmlReplacerCanonicalAttrVal s)"
  using replacer_safe [of s]
  by (auto simp: list_ex_iff unescape_normal unescape_canonical_text unescape_canonical_attr)

text \<open>
  C39: the ring buffer of \<open>helpers.go\<close> refines a list: \<open>add\<close> never panics and appends, also when it
  has to grow a buffer that wraps around; \<open>remove\<close> takes the first; \<open>len\<close> is the length; and
  the buffer stays consistent.
\<close>

theorem fifo_refines_list:
  assumes "fifo_inv f"
  shows "(\<exists>f'. fifo_add v f = Some f' \<and> fifo_inv f' \<and> fifo_list f' = fifo_list f @ [v]) \<and>
    (\<forall>x xs. fifo_list f = x # xs \<longrightarrow>
      (\<exists>f'. fifo_remove f = Some (Some x, f') \<and> fifo_inv f' \<and> fifo_list f' = xs)) \<and>
    fifo_len f = length (fifo_list f)"
  using fifo.add_law [OF assms] fifo.remove_law [OF assms] fifo.size_law [OF assms] by blast

theorem fifo_refines_list_witness:
  "\<exists>f'. fifo_add (5::nat) \<lparr>fdata = [Some 3, None, Some 1, Some 2], fhead = 2, ftail = 1\<rparr> = Some f' \<and>
     fifo_list f' = [1, 2, 3, 5]"
proof -
  let ?f = "\<lparr>fdata = [Some (3::nat), None, Some 1, Some 2], fhead = 2, ftail = 1\<rparr>"
  have "fifo_inv ?f" by (simp add: fifo_inv_def fifo_window_def)
  from fifo_refines_list [OF this, of 5] have "\<exists>f'. fifo_add 5 ?f = Some f' \<and> fifo_list f' = fifo_list ?f @ [5]"
    by blast
  moreover have "fifo_list ?f = [1, 2, 3]" by code_simp
  ultimately show ?thesis by simp
qed

text \<open>
  C40: indentation changes only whitespace: what remains of the document when the tokens flagged
  as whitespace are taken out is the same before and after, for any number of spaces and for tabs.
\<close>

theorem indentation_keeps_content:
  "strip_all (d_element (fst (Indent spaces d n))) = strip_all (d_element d) \<and>
   strip_all (d_element (fst (IndentTabs d n))) = strip_all (d_element d)"
  using indent_keeps [of _ 0 "d_element d" n]
  by (auto simp: Indent_def IndentTabs_def split: prod.splits) (metis fst_conv)+

text \<open>
  a copy of a document has the same content, and shares no token with anything that was
  there before: its addresses are all new and all different. But the parent that its children
  name is none of its elements: it is the element that \<open>dup\<close> made, which nothing else names.
\<close>

theorem copies_are_fresh:
  assumes "d_element d = Element a s t as ch" and "Copy d n = (d1, parent, n1)"
  shows "erase (d_element d1) = erase (d_element d) \<and> d_settings d1 = d_settings d \<and>
    distinct (addrs (d_element d1)) \<and> set (addrs (d_element d1)) = {n..<n1} - {parent} \<and>
    parent \<in> {n..<n1}"
proof -
  obtain cs m where cs: "dups ch (Suc n) = (cs, m)" by (cases "dups ch (Suc n)")
  have "Suc n \<le> m" "set (concat (map addrs cs)) = {Suc n..<m}" "distinct (concat (map addrs cs))"
    using dups_fresh [of "Suc n" ch] cs by auto
  moreover have "map erase cs = map erase ch" using dups_erase [of ch "Suc n"] cs by simp
  moreover have "d1 = \<lparr>d_element = Element m s t as cs, d_settings = d_settings d\<rparr>" "parent = n" "n1 = Suc m"
    using assms cs by (simp_all add: Copy_def)
  ultimately show ?thesis using assms(1) by (auto simp: tree_simps simp del: set_concat)
qed

text \<open>
  \<open>InsertChild\<close> in front of an existing child loses the last child: the children up to the
  position stay, the token comes next, the others move up by one, and the last is overwritten.
\<close>

theorem InsertChild_loses_last:
  assumes "child_index a ch = Some i"
  shows "InsertChild (Some a) c (Element n s t as ch) =
    Element n s t as (take i ch @ c # butlast (drop i ch))"
proof -
  have i: "i < length ch" using assms
    by (induction a ch arbitrary: i rule: child_index.induct) (auto split: if_splits)
  have l: "(take (i + 1) ch @ take (length ch - (i + 1)) (drop i ch))[i := c] =
      take i ch @ c # take (length ch - (i + 1)) (drop i ch)"
    using i by (simp add: take_Suc_conv_app_nth list_update_append)
  have r: "take (length ch - (i + 1)) (drop i ch) = butlast (drop i ch)"
    by (simp add: butlast_conv_take)
  have "(take (i + 1) ch @ take (length ch - (i + 1)) (drop i ch))[i := c] =
      take i ch @ c # butlast (drop i ch)"
    by (rule trans [OF l]) (simp only: r)
  with assms show ?thesis by (simp only: InsertChild.simps Option.bind.simps option.case Let_def)
qed

theorem InsertChild_loses_last_witness:
  "InsertChild (Some 1) (Element 9 '''' ''new'' [] [])
     (Element 0 '''' ''r'' [] [Element 1 '''' ''a'' [] [], Element 2 '''' ''b'' [] []]) =
   Element 0 '''' ''r'' [] [Element 9 '''' ''new'' [] [], Element 1 '''' ''a'' [] []]"
  using InsertChild_loses_last [of 1 "[Element 1 '''' ''a'' [] [], Element 2 '''' ''b'' [] []]" 0
      "Element 9 '''' ''new'' [] []" 0 "''''" "''r''" "[]"] by simp

text \<open>
  a path with an empty piece after an opening bracket makes the compiler panic instead of
  returning an error, whatever element follows; a path with an empty filter is an error.
\<close>

theorem path_compiler_on_brackets:
  "CompilePath ''a['' = None \<and> CompilePath ''a[]'' = Some (Inl (ErrPath ''path contains an empty filter expression.'')) \<and>
   CompilePath ''a[[b]]'' = None \<and> CompilePath ''/a'' = Some (Inl (ErrPath ''paths cannot be absolute.''))"
  by code_simp

text \<open>
  The filter for a child keeps a candidate once per matching child, so a position filter
  after it counts children, not candidates: the second of the elements with a child \<open>b\<close> comes out
  as the first again.
\<close>

theorem child_filter_repeats_candidate:
  "let a1 = Element 1 '''' ''a'' [] [Element 2 '''' ''b'' [] [], Element 3 '''' ''b'' [] []];
       a2 = Element 4 '''' ''a'' [] [Element 5 '''' ''b'' [] []];
       r = Element 0 '''' ''r'' [] [a1, a2];
       seg = \<lparr>sel = SelectChildrenByTag '''' ''a'', filters = [FilterChild '''' ''b'', FilterPos 1]\<rparr>
   in CompilePath ''a[b][2]'' = Some (Inr [[seg]]) \<and>
      segment_apply r seg r = Some [a1]"
  by code_simp

text \<open>
  text set in place of whitespace keeps the whitespace flag, and indenting then drops it.
\<close>

theorem indent_drops_set_text:
  "let e = Element 1 '''' ''a'' [] [CharData 2 '' '' True];
       e' = fst (SetText ''text'' e 3);
       d = \<lparr>d_element = Element 0 '''' '''' [] [e'], d_settings = newWriteSettings\<rparr>
   in Text e' = ''text'' \<and> WriteToString d = ''<a>text</a>'' \<and>
      WriteToString (fst (Indent 2 d 3)) = ''<a/>'' @ [CHR 0x0A]"
  by code_simp

end
