(* ===== verification/EtreeBuild.thy ===== *)
theory EtreeBuild
  imports EtreeRead
begin

text \<open>
  Building documents (\<open>etree/etree.go\<close>): the constructors of tokens, which bind a new token to a
  parent or leave it free, and moving tokens from one parent to another. The tokens that a program
  holds are a forest: documents and other free tokens, each with what is below it. The parent of a
  token is its position, so a method that would make a token its own descendant, which leaves Go with
  a cyclic structure, has no forest as its result (\<open>None\<close>). A token that a method overwrites
  (\<open>InsertChild\<close> the last child, \<open>WriteCData\<close> all children) leaves the forest: its parent pointer
  would still name the element, but the element does not have it. \<open>Document.Copy\<close> is not an operation
  on forests: the children of the copied document name a parent that is not in the forest (see
  \<open>Copy\<close>), so moving one of them, with \<open>AddChild\<close>, leaves it in the copy as well.
\<close>

section \<open>Forests\<close>

record forest =
  trees :: "token list"
  next_addr :: nat

definition forest_tokens :: "forest \<Rightarrow> token list" where
  "forest_tokens h = concat (map subtokens (trees h))"

text \<open>
  \<open>Parent()\<close>: the element that has the token among its children, which is the one the pointer names for
  every token of a forest.
\<close>

definition Parent :: "nat \<Rightarrow> forest \<Rightarrow> nat option" where
  "Parent t h = map_option addr (find (\<lambda>e. t \<in> addr ` set (children e)) (forest_tokens h))"

section \<open>Constructors\<close>

text \<open>What the constructors share: \<open>if parent != nil { parent.addChild(c) }\<close>.\<close>

definition new_token :: "(nat \<Rightarrow> token) \<Rightarrow> nat option \<Rightarrow> forest \<Rightarrow> nat \<times> forest" where
  "new_token mk parent h =
     (let n = next_addr h
      in (n, \<lparr>trees = (case parent of
                None \<Rightarrow> trees h @ [mk n]
              | Some p \<Rightarrow> map (upd p (addChild (mk n))) (trees h)), next_addr = Suc n\<rparr>))"

definition newElement :: "string \<Rightarrow> string \<Rightarrow> nat option \<Rightarrow> forest \<Rightarrow> nat \<times> forest" where
  "newElement space tag parent = new_token (\<lambda>n. Element n space tag [] []) parent"

definition NewElement :: "string \<Rightarrow> forest \<Rightarrow> nat \<times> forest" where
  "NewElement tag = (let (space, stag) = spaceDecompose tag in newElement space stag None)"

definition CreateElement :: "string \<Rightarrow> nat \<Rightarrow> forest \<Rightarrow> nat \<times> forest" where
  "CreateElement tag e = (let (space, stag) = spaceDecompose tag in newElement space stag (Some e))"

definition newCharData :: "string \<Rightarrow> bool \<Rightarrow> nat option \<Rightarrow> forest \<Rightarrow> nat \<times> forest" where
  "newCharData data whitespace parent = new_token (\<lambda>n. CharData n data whitespace) parent"

definition NewCharData :: "string \<Rightarrow> forest \<Rightarrow> nat \<times> forest" where
  "NewCharData data = newCharData data False None"

definition CreateCharData :: "string \<Rightarrow> nat \<Rightarrow> forest \<Rightarrow> nat \<times> forest" where
  "CreateCharData data e = newCharData data False (Some e)"

definition newComment :: "string \<Rightarrow> nat option \<Rightarrow> forest \<Rightarrow> nat \<times> forest" where
  "newComment comment parent = new_token (\<lambda>n. Comment n comment) parent"

definition NewComment :: "string \<Rightarrow> forest \<Rightarrow> nat \<times> forest" where
  "NewComment comment = newComment comment None"

definition CreateComment :: "string \<Rightarrow> nat \<Rightarrow> forest \<Rightarrow> nat \<times> forest" where
  "CreateComment comment e = newComment comment (Some e)"

definition newDirective :: "string \<Rightarrow> nat option \<Rightarrow> forest \<Rightarrow> nat \<times> forest" where
  "newDirective data parent = new_token (\<lambda>n. Directive n data) parent"

definition NewDirective :: "string \<Rightarrow> forest \<Rightarrow> nat \<times> forest" where
  "NewDirective data = newDirective data None"

definition CreateDirective :: "string \<Rightarrow> nat \<Rightarrow> forest \<Rightarrow> nat \<times> forest" where
  "CreateDirective data e = newDirective data (Some e)"

definition newProcInst :: "string \<Rightarrow> string \<Rightarrow> nat option \<Rightarrow> forest \<Rightarrow> nat \<times> forest" where
  "newProcInst target inst parent = new_token (\<lambda>n. ProcInst n target inst) parent"

definition NewProcInst :: "string \<Rightarrow> string \<Rightarrow> forest \<Rightarrow> nat \<times> forest" where
  "NewProcInst target inst = newProcInst target inst None"

definition CreateProcInst :: "string \<Rightarrow> string \<Rightarrow> nat \<Rightarrow> forest \<Rightarrow> nat \<times> forest" where
  "CreateProcInst target inst e = newProcInst target inst (Some e)"

section \<open>Moving tokens\<close>

text \<open>
  \<open>e.RemoveChild(t)\<close>: a child of \<open>e\<close> is taken out and is free afterwards. The token is found by its
  address in the element that the pointer \<open>e\<close> names.
\<close>

definition element_at :: "nat \<Rightarrow> forest \<Rightarrow> token option" where
  "element_at e h = find (\<lambda>x. is_element x \<and> addr x = e) (forest_tokens h)"

definition remove_child :: "nat \<Rightarrow> nat \<Rightarrow> forest \<Rightarrow> token option \<times> forest" where
  "remove_child e t h =
     (case Option.bind (element_at e h) (\<lambda>x. snd (RemoveChild t x)) of
        None \<Rightarrow> (None, h)
      | Some c \<Rightarrow> (Some c, h\<lparr>trees := map (upd e (\<lambda>x. fst (RemoveChild t x))) (trees h) @ [c]\<rparr>))"

text \<open>\<open>if t.Parent() != nil { t.Parent().RemoveChild(t) }\<close>, then binding the free token.\<close>

definition set_free :: "nat \<Rightarrow> forest \<Rightarrow> forest" where
  "set_free t h = (case Parent t h of None \<Rightarrow> h | Some p \<Rightarrow> snd (remove_child p t h))"

definition bind_with :: "(token \<Rightarrow> token \<Rightarrow> token) \<Rightarrow> nat \<Rightarrow> nat \<Rightarrow> forest \<Rightarrow> forest option" where
  "bind_with put e t h =
     (let h1 = set_free t h
      in case find (\<lambda>x. addr x = t) (trees h1) of
           None \<Rightarrow> None
         | Some c \<Rightarrow>
             if e \<in> set (addrs c) then None
             else Some (h1\<lparr>trees := map (upd e (put c)) (filter (\<lambda>x. addr x \<noteq> t) (trees h1))\<rparr>))"

definition AddChild :: "nat \<Rightarrow> nat \<Rightarrow> forest \<Rightarrow> forest option" where
  "AddChild e t h = bind_with addChild e t h"

definition InsertChildAt :: "nat \<Rightarrow> nat option \<Rightarrow> nat \<Rightarrow> forest \<Rightarrow> forest option" where
  "InsertChildAt e ex t h = bind_with (InsertChild ex) e t h"

text \<open>
  \<open>SetRoot\<close> of the document \<open>d\<close>: the element is taken from its parent; the first element among the
  children of \<open>d\<close> is set free and the new root stored at its place, or appended if there is none.
\<close>

definition put_child :: "nat \<Rightarrow> token \<Rightarrow> token \<Rightarrow> token" where
  "put_child i c x = with_children (take i (children x) @ c # drop i (children x)) x"

definition set_root :: "nat \<Rightarrow> nat \<Rightarrow> forest \<Rightarrow> forest option" where
  "set_root d e h =
     (let h1 = set_free e h
      in case element_at d h1 of
           None \<Rightarrow> None
         | Some x \<Rightarrow>
             (case find is_element (children x) of
                None \<Rightarrow> bind_with addChild d e h1
              | Some r \<Rightarrow> bind_with (put_child (length (takeWhile (Not \<circ> is_element) (children x)))) d e
                  (snd (remove_child d (addr r) h1))))"

text \<open>On the document alone, this is \<open>SetRoot\<close>.\<close>

lemma set_root_document:
  assumes "distinct (map addr ch)"
  shows "with_children (replace_first_element e ch) (Element n s t as ch) =
    (case find is_element ch of
       None \<Rightarrow> addChild e (Element n s t as ch)
     | Some r \<Rightarrow> put_child (length (takeWhile (Not \<circ> is_element) ch)) e
         (fst (RemoveChild (addr r) (Element n s t as ch))))"
proof -
  have none: "find is_element ch = None \<Longrightarrow> replace_first_element e ch = ch @ [e]"
    by (induction ch) (auto split: if_splits)
  have "distinct (map addr ch) \<Longrightarrow> find is_element ch = Some r \<Longrightarrow>
      (let i = length (takeWhile (Not \<circ> is_element) ch); cs = fst (remove_token (addr r) ch)
       in replace_first_element e ch = take i cs @ e # drop i cs)" for r
  proof (induction ch)
    case (Cons c ch)
    show ?case
    proof (cases "is_element c")
      case False
      with Cons.prems have "find is_element ch = Some r" by simp
      then have "addr c \<noteq> addr r" using Cons.prems(1) by (auto simp: find_Some_iff)
      with False Cons show ?thesis by (auto simp: Let_def split: prod.split)
    qed (use Cons.prems in simp)
  qed simp
  with none assms show ?thesis
    by (auto simp: put_child_def Let_def split: option.split prod.split)
qed

text \<open>\<open>SetText\<close> and \<open>WriteCData\<close> of the element that a pointer names.\<close>

definition set_text :: "nat \<Rightarrow> string \<Rightarrow> forest \<Rightarrow> forest" where
  "set_text e text h = \<lparr>trees = map (upd e (\<lambda>x. fst (SetText text x (next_addr h)))) (trees h),
     next_addr = Suc (next_addr h)\<rparr>"

definition write_cdata :: "nat \<Rightarrow> string \<Rightarrow> forest \<Rightarrow> forest" where
  "write_cdata e text h = \<lparr>trees = map (upd e (\<lambda>x. fst (WriteCData text x (next_addr h)))) (trees h),
     next_addr = Suc (next_addr h)\<rparr>"

text \<open>\<open>Element.Copy\<close>: a free copy of the element and everything below it.\<close>

definition Element_Copy :: "nat \<Rightarrow> forest \<Rightarrow> forest option" where
  "Element_Copy e h =
     (case element_at e h of
        None \<Rightarrow> None
      | Some x \<Rightarrow> (case dup x (next_addr h) of (c, n) \<Rightarrow> Some \<lparr>trees = trees h @ [c], next_addr = n\<rparr>))"

section \<open>How often an address occurs\<close>

definition held :: "forest \<Rightarrow> nat multiset" where
  "held h = mset (concat (map addrs (trees h)))"

lemma count_held: "count (held h) x = sum_list (map (\<lambda>t. count (mset (addrs t)) x) (trees h))"
  by (simp add: held_def count_concat comp_def)

text \<open>Every token occurs once, and the next address is a new one.\<close>

definition forest_ok :: "forest \<Rightarrow> bool" where
  "forest_ok h \<longleftrightarrow> (\<forall>x. count (held h) x \<le> 1) \<and> (\<forall>x \<in># held h. x < next_addr h)"

lemma forest_okI:
  assumes "forest_ok h" and "\<And>x. count (held h') x \<le> count (held h) x" and "next_addr h \<le> next_addr h'"
  shows "forest_ok h'"
proof -
  have "count (held h') x \<le> 1" for x using assms(1,2) order_trans unfolding forest_ok_def by blast
  moreover have "x < next_addr h'" if "x \<in># held h'" for x
  proof -
    have "0 < count (held h) x" using that assms(2) [of x] by (metis count_greater_zero_iff order_less_le_trans)
    with assms(1,3) show ?thesis unfolding forest_ok_def by (meson count_greater_zero_iff order_less_le_trans)
  qed
  ultimately show ?thesis by (simp add: forest_ok_def)
qed

text \<open>A change of the element at \<open>a\<close> that adds at most \<open>d\<close> occurrences.\<close>

lemma count_upd_bound:
  assumes "\<And>e. count (mset (addrs (f e))) x \<le> count (mset (addrs e)) x + d"
  shows "count (mset (addrs (upd a f t))) x \<le> count (mset (addrs t)) x + el_count a t * d"
proof (induction t)
  case (Element b s t as ch)
  have sum: "sum_list (map (\<lambda>e. count (mset (addrs (upd a f e))) x) ch) \<le>
      sum_list (map (\<lambda>e. count (mset (addrs e)) x) ch) + sum_list (map (el_count a) ch) * d"
    using Element by (induction ch) (fastforce simp: algebra_simps)+
  let ?e = "Element b s t as (map (upd a f) ch)"
  have e: "count (mset (addrs ?e)) x =
      (if b = x then 1 else 0) + sum_list (map (\<lambda>e. count (mset (addrs (upd a f e))) x) ch)"
    by (simp add: count_addrs_Element comp_def)
  have "count (mset (addrs (upd a f (Element b s t as ch)))) x \<le>
      count (mset (addrs ?e)) x + (if b = a then d else 0)"
    using assms [of ?e] by (cases "b = a") (simp_all add: upd_simps)
  also have "\<dots> \<le> count (mset (addrs (Element b s t as ch))) x + el_count a (Element b s t as ch) * d"
    unfolding e using sum by (auto simp: count_addrs_Element el_count_simps algebra_simps)
  finally show ?case .
qed (simp_all add: tree_simps)

lemma sum_el_count: "sum_list (map (el_count a) ts) \<le> sum_list (map (\<lambda>t. count (mset (addrs t)) a) ts)"
  by (intro sum_list_mono el_count_le)

lemma count_trees_upd:
  assumes "\<And>e. count (mset (addrs (f e))) x \<le> count (mset (addrs e)) x + d"
    and "sum_list (map (\<lambda>t. count (mset (addrs t)) a) ts) \<le> 1"
  shows "sum_list (map (\<lambda>t. count (mset (addrs (upd a f t))) x) ts) \<le>
    sum_list (map (\<lambda>t. count (mset (addrs t)) x) ts) + d"
proof -
  have "sum_list (map (\<lambda>t. count (mset (addrs (upd a f t))) x) ts) \<le>
      sum_list (map (\<lambda>t. count (mset (addrs t)) x) ts) + sum_list (map (el_count a) ts) * d"
  proof (induction ts)
    case (Cons t ts)
    from add_mono [OF count_upd_bound [of f x d a t, OF assms(1)] Cons.IH]
    show ?case by (simp add: algebra_simps)
  qed simp
  also have "sum_list (map (el_count a) ts) * d \<le> 1 * d"
    using sum_el_count [of a ts] assms(2) by (intro mult_le_mono1) linarith
  finally show ?thesis by simp
qed

section \<open>Taking a child out\<close>

lemma remove_token_count:
  "remove_token t cs = (cs', Some c) \<Longrightarrow>
     sum_list (map (\<lambda>e. count (mset (addrs e)) x) cs') + count (mset (addrs c)) x =
       sum_list (map (\<lambda>e. count (mset (addrs e)) x) cs) \<and> addr c = t"
  by (induction cs arbitrary: cs') (fastforce split: if_splits prod.splits)+

lemma RemoveChild_count:
  assumes "RemoveChild t e = (e', Some c)"
  shows "count (mset (addrs e')) x + count (mset (addrs c)) x = count (mset (addrs e)) x \<and> addr c = t"
  using assms remove_token_count [of t _ _ c x]
  by (cases e) (fastforce simp: count_addrs_Element split: prod.splits)+

lemma split_fresh:
  assumes "c \<in> set ts" and "0 < count (mset (addrs c)) a"
    and "sum_list (map (\<lambda>t. count (mset (addrs t)) a) ts) \<le> 1"
  obtains xs ys where "ts = xs @ c # ys" "\<forall>t \<in> set xs \<union> set ys. a \<notin> set (addrs t)"
proof -
  obtain xs ys where s: "ts = xs @ c # ys" using split_list [OF assms(1)] by blast
  with assms(3) have "sum_list (map (\<lambda>t. count (mset (addrs t)) a) xs) + (count (mset (addrs c)) a +
      sum_list (map (\<lambda>t. count (mset (addrs t)) a) ys)) \<le> 1" by simp
  with assms(2) have "sum_list (map (\<lambda>t. count (mset (addrs t)) a) xs) = 0"
    "sum_list (map (\<lambda>t. count (mset (addrs t)) a) ys) = 0" by linarith+
  then have "\<forall>t \<in> set xs \<union> set ys. a \<notin> set (addrs t)" by auto
  with s show ?thesis by (rule that)
qed

lemma count_upd_split:
  assumes "\<forall>t \<in> set xs \<union> set ys. a \<notin> set (addrs t)"
  shows "map (upd a f) (xs @ c # ys) = xs @ upd a f c # ys"
  using assms by (auto simp: upd_fresh map_idI)

lemma upd_remove_count:
  assumes "e \<in> set (subtokens t0)" and "is_element e" and "addr e = a"
    and "count (mset (addrs t0)) a \<le> 1" and "RemoveChild t e = (e', Some c)"
  shows "count (mset (addrs (upd a (\<lambda>x. fst (RemoveChild t x)) t0))) x + count (mset (addrs c)) x =
    count (mset (addrs t0)) x"
  using assms(1,4)
proof (induction t0)
  case (Element n s tg as ch)
  let ?f = "\<lambda>x. fst (RemoveChild t x)"
  have le: "(if n = a then 1 else 0) + sum_list (map (\<lambda>c. count (mset (addrs c)) a) ch) \<le> 1"
    using Element.prems(2) by (simp add: count_addrs_Element)
  show ?case
  proof (cases "n = a")
    case True
    with le have "sum_list (map (\<lambda>c. count (mset (addrs c)) a) ch) = 0" by simp
    then have f: "\<forall>d \<in> set ch. a \<notin> set (addrs d)" by auto
    then have "e = Element n s tg as ch" using Element.prems(1) assms(3) by (auto simp: set_addrs)
    moreover have "map (upd a ?f) ch = ch" using f by (simp add: upd_fresh map_idI)
    ultimately show ?thesis
      using True RemoveChild_count [OF assms(5), of x] assms(5) by (simp add: upd_simps)
  next
    case False
    then obtain d where d: "d \<in> set ch" "e \<in> set (subtokens d)"
      using Element.prems(1) assms(3) by auto
    then have "0 < count (mset (addrs d)) a" using assms(3) by (auto simp: set_addrs)
    then obtain xs ys where s: "ch = xs @ d # ys" "\<forall>t \<in> set xs \<union> set ys. a \<notin> set (addrs t)"
      using split_fresh [OF d(1)] le False by auto
    have "count (mset (addrs d)) a \<le> 1" using le s(1) False by simp
    note IH = Element.IH [OF d this]
    have "map (upd a ?f) ch = xs @ upd a ?f d # ys"
      unfolding s(1) by (rule count_upd_split [OF s(2)])
    moreover have "sum_list (map (\<lambda>c. count (mset (addrs c)) x) ch) =
        sum_list (map (\<lambda>c. count (mset (addrs c)) x) (xs @ d # ys))" unfolding s(1) ..
    ultimately show ?thesis using IH False by (simp add: upd_simps count_addrs_Element)
  qed
qed (use assms(2) in auto)

lemma remove_child_held:
  assumes "forest_ok h"
  shows "held (snd (remove_child a t h)) = held h"
proof (cases "Option.bind (element_at a h) (\<lambda>x. snd (RemoveChild t x))")
  case (Some c)
  then obtain e where e: "element_at a h = Some e" "snd (RemoveChild t e) = Some c"
    by (cases "element_at a h") auto
  then obtain e' where r: "RemoveChild t e = (e', Some c)" by (cases "RemoveChild t e") auto
  from e(1) have el: "e \<in> set (forest_tokens h)" "is_element e" "addr e = a"
    by (auto simp: element_at_def find_Some_iff)
  then obtain t0 where t0: "t0 \<in> set (trees h)" "e \<in> set (subtokens t0)" by (auto simp: forest_tokens_def)
  have le: "sum_list (map (\<lambda>t. count (mset (addrs t)) a) (trees h)) \<le> 1"
    using assms by (simp add: forest_ok_def count_held [symmetric])
  have "0 < count (mset (addrs t0)) a" using t0 el(3) by (auto simp: set_addrs)
  from split_fresh [OF t0(1) this le] obtain xs ys where s: "trees h = xs @ t0 # ys"
    "\<forall>t \<in> set xs \<union> set ys. a \<notin> set (addrs t)" by blast
  have "count (mset (addrs t0)) a \<le> 1" using le s(1) by simp
  note u = upd_remove_count [OF t0(2) el(2,3) this r]
  have "count (held (snd (remove_child a t h))) x = count (held h) x" for x
    using u [of x] Some count_upd_split [OF s(2), of "\<lambda>x. fst (RemoveChild t x)" t0]
    by (simp add: remove_child_def count_held s(1) del: map_append) simp
  then show ?thesis by (rule multiset_eqI)
qed (simp add: remove_child_def)

lemma remove_child_next [simp]: "next_addr (snd (remove_child a t h)) = next_addr h"
  by (simp add: remove_child_def split: option.split)

lemma set_free_held: "forest_ok h \<Longrightarrow> held (set_free t h) = held h \<and> next_addr (set_free t h) = next_addr h"
  by (simp add: set_free_def remove_child_held split: option.split)

section \<open>Every operation keeps forests\<close>

lemma forest_ok_held: "held h' = held h \<Longrightarrow> next_addr h' = next_addr h \<Longrightarrow> forest_ok h \<Longrightarrow> forest_ok h'"
  by (simp add: forest_ok_def)

text \<open>A forest that has at most the next address more.\<close>

lemma grown_ok:
  assumes "forest_ok h" and le: "\<And>x. count (held h') x \<le> count (held h) x + (if x = next_addr h then 1 else 0)"
    and nxt: "next_addr h' = Suc (next_addr h)"
  shows "forest_ok h'"
proof -
  have fresh: "count (held h) (next_addr h) = 0" using assms(1) by (auto simp: forest_ok_def count_eq_zero_iff)
  have "count (held h') x \<le> 1" for x
    using le [of x] fresh assms(1) by (auto simp: forest_ok_def split: if_splits intro: order_trans)
  moreover have "x < next_addr h'" if "x \<in># held h'" for x
  proof -
    have "x = next_addr h \<or> 0 < count (held h) x"
      using that le [of x] by (auto split: if_splits) (metis count_greater_zero_iff gr0I le_zero_eq not_in_iff)
    with assms(1) nxt show ?thesis by (auto simp: forest_ok_def less_Suc_eq)
  qed
  ultimately show ?thesis by (simp add: forest_ok_def)
qed

lemma new_token_ok:
  assumes "forest_ok h" and "\<And>n. addrs (mk n) = [n]"
  shows "forest_ok (snd (new_token mk parent h))"
proof (rule grown_ok [OF assms(1)])
  let ?n = "next_addr h" and ?h = "snd (new_token mk parent h)"
  show "next_addr ?h = Suc ?n" by (simp add: new_token_def Let_def)
  show "count (held ?h) x \<le> count (held h) x + (if x = ?n then 1 else 0)" for x
  proof (cases parent)
    case None
    then show ?thesis using assms(2) by (simp add: new_token_def count_held Let_def)
  next
    case (Some p)
    have "count (mset (addrs (addChild (mk ?n) e))) x \<le> count (mset (addrs e)) x + (if x = ?n then 1 else 0)" for e
      using assms(2) [of ?n] by (cases e) (auto simp: count_addrs_Element)
    from count_trees_upd [OF this] assms(1) Some show ?thesis
      by (simp add: new_token_def count_held forest_ok_def Let_def comp_def)
  qed
qed

lemma texts_ok:
  assumes "forest_ok h"
  shows "forest_ok (set_text e text h)" "forest_ok (write_cdata e text h)"
proof -
  let ?n = "next_addr h"
  have bound: "forest_ok \<lparr>trees = map (upd e f) (trees h), next_addr = Suc ?n\<rparr>"
    if "\<And>y x. count (mset (addrs (f y))) x \<le> count (mset (addrs y)) x + (if x = ?n then 1 else 0)" for f
  proof (rule grown_ok [OF assms])
    fix x
    from count_trees_upd [OF that] assms
    show "count (held \<lparr>trees = map (upd e f) (trees h), next_addr = Suc ?n\<rparr>) x \<le>
        count (held h) x + (if x = ?n then 1 else 0)"
      by (simp add: count_held forest_ok_def comp_def)
  qed simp
  have "count (mset (addrs (fst (SetText text y ?n)))) x \<le> count (mset (addrs y)) x + (if x = ?n then 1 else 0)" for y x
  proof (cases y)
    case (Element a s t as ch)
    show ?thesis
    proof (cases "\<exists>b d w r. ch = CharData b d w # r")
      case True
      then show ?thesis using Element by (auto simp: addrs_simps)
    next
      case False
      then show ?thesis using Element SetText_no_leading [of ch _ a s t as ?n] by (auto simp: addrs_simps)
    qed
  qed auto
  then show "forest_ok (set_text e text h)" unfolding set_text_def by (rule bound)
  have "count (mset (addrs (fst (WriteCData text y ?n)))) x \<le> count (mset (addrs y)) x + (if x = ?n then 1 else 0)" for y x
    by (cases y) (simp_all add: WriteCData_def addrs_simps)
  then show "forest_ok (write_cdata e text h)" unfolding write_cdata_def by (rule bound)
qed

lemma InsertChild_count:
  "count (mset (addrs (InsertChild ex c e))) x \<le> count (mset (addrs e)) x + count (mset (addrs c)) x"
proof (cases e)
  case (Element n s t as ch)
  let ?s = "\<lambda>cs. sum_list (map (\<lambda>e. count (mset (addrs e)) x) cs)"
  show ?thesis
  proof (cases "Option.bind ex (\<lambda>a. child_index a ch)")
    case (Some i)
    have i: "child_index a cs = Some j \<Longrightarrow> j < length cs" for a cs j
      by (induction cs arbitrary: j) (auto split: if_splits)
    then have il: "i < length ch" using Some by (cases ex) auto
    then have "(take (i + 1) ch @ take (length ch - (i + 1)) (drop i ch))[i := c] =
        take i ch @ c # take (length ch - (i + 1)) (drop i ch)"
      by (simp add: list_update_append take_Suc_conv_app_nth)
    moreover have "?s (take k cs) \<le> ?s cs" for k cs
      by (metis append_take_drop_id le_add1 map_append sum_list_append)
    moreover have "?s ch = ?s (take i ch) + ?s (drop i ch)"
      by (metis append_take_drop_id map_append sum_list_append)
    ultimately show ?thesis using Some Element by (simp add: count_addrs_Element Let_def)
  qed (use Element in \<open>simp add: count_addrs_Element\<close>)
qed simp_all

lemma bind_with_ok:
  assumes "forest_ok h" and "bind_with put e t h = Some h'"
    and "\<And>c x y. count (mset (addrs (put c x))) y \<le> count (mset (addrs x)) y + count (mset (addrs c)) y"
  shows "forest_ok h'"
proof -
  let ?h = "set_free t h" and ?ts = "filter (\<lambda>x. addr x \<noteq> t) (trees (set_free t h))"
  obtain c where c: "find (\<lambda>x. addr x = t) (trees ?h) = Some c" "h' = ?h\<lparr>trees := map (upd e (put c)) ?ts\<rparr>"
    using assms(2) by (auto simp: bind_with_def Let_def split: option.splits if_splits)
  from c(1) have cin: "c \<in> set (trees ?h)" "addr c = t" by (auto simp: find_Some_iff)
  have ok: "forest_ok ?h" using set_free_held [OF assms(1)] forest_ok_held assms(1) by blast
  have drop: "c \<in> set cs \<Longrightarrow> sum_list (map (\<lambda>t. count (mset (addrs t)) x) (filter (\<lambda>x. addr x \<noteq> t) cs)) +
      count (mset (addrs c)) x \<le> sum_list (map (\<lambda>t. count (mset (addrs t)) x) cs)" for cs x
  proof (induction cs)
    case (Cons d cs)
    have "sum_list (map (\<lambda>t. count (mset (addrs t)) x) (filter (\<lambda>x. addr x \<noteq> t) cs)) \<le>
        sum_list (map (\<lambda>t. count (mset (addrs t)) x) cs)" by (induction cs) auto
    with Cons cin(2) show ?case by (cases "d = c") auto
  qed simp
  have "count (held h') x \<le> count (held ?h) x" for x
  proof -
    have "sum_list (map (\<lambda>t. count (mset (addrs t)) e) ?ts) \<le> 1"
      using drop [OF cin(1), of e] ok unfolding forest_ok_def count_held by (meson add_leD1 order_trans)
    from count_trees_upd [OF assms(3) this, of c x] drop [OF cin(1), of x] show ?thesis
      by (simp add: c(2) count_held comp_def)
  qed
  from forest_okI [OF ok this] show ?thesis by (simp add: c(2))
qed

lemma put_child_count:
  "count (mset (addrs (put_child i c x))) y \<le> count (mset (addrs x)) y + count (mset (addrs c)) y"
proof (cases x)
  case (Element n s t as ch)
  have "sum_list (map (\<lambda>c. count (mset (addrs c)) y) ch) =
      sum_list (map (\<lambda>c. count (mset (addrs c)) y) (take i ch)) +
      sum_list (map (\<lambda>c. count (mset (addrs c)) y) (drop i ch))"
    by (metis append_take_drop_id map_append sum_list_append)
  with Element show ?thesis by (simp add: put_child_def count_addrs_Element)
qed (simp_all add: put_child_def)

lemma addChild_count:
  "count (mset (addrs (addChild c x))) y \<le> count (mset (addrs x)) y + count (mset (addrs c)) y"
  by (cases x) (simp_all add: count_addrs_Element)

lemma set_root_ok:
  assumes "forest_ok h" and "set_root d e h = Some h'"
  shows "forest_ok h'"
proof -
  have free: "forest_ok (set_free e h)" using set_free_held [OF assms(1)] forest_ok_held assms(1) by blast
  then have removed: "forest_ok (snd (remove_child d r (set_free e h)))" for r
    using remove_child_held forest_ok_held remove_child_next by blast
  from assms(2) show ?thesis
    by (auto simp: set_root_def Let_def split: option.splits
        elim: bind_with_ok [OF free _ addChild_count] bind_with_ok [OF removed _ put_child_count])
qed

lemma Element_Copy_ok:
  assumes "forest_ok h" and "Element_Copy e h = Some h'"
  shows "forest_ok h'"
proof -
  obtain x c n where d: "dup x (next_addr h) = (c, n)" "h' = \<lparr>trees = trees h @ [c], next_addr = n\<rparr>"
    using assms(2) by (auto simp: Element_Copy_def split: option.splits prod.splits)
  have f: "set (addrs c) = {next_addr h..<n}" "distinct (addrs c)" "next_addr h < n"
    using dup_fresh [of "next_addr h" x] d(1) by auto
  have hd: "held h' = held h + mset (addrs c)" by (simp add: d(2) held_def)
  have "count (held h') y \<le> 1" for y
  proof (cases "y < next_addr h")
    case True
    then have "count (held h') y = count (held h) y" using f(1) by (simp add: hd)
    with assms(1) show ?thesis by (simp add: forest_ok_def)
  next
    case False
    then have "count (held h') y = count (mset (addrs c)) y"
      using assms(1) by (auto simp: hd forest_ok_def count_eq_zero_iff)
    with f(2) show ?thesis unfolding distinct_iff_count by simp
  qed
  with assms(1) f hd show ?thesis by (fastforce simp: forest_ok_def d(2))
qed

section \<open>Building\<close>

text \<open>
  What a program can do with the tokens it has, in any order: make new ones, free or bound to any
  element, move a token to another parent or out of its parent, set the root of a document, copy an
  element, and edit texts and attributes. Not among them are \<open>Document.Copy\<close>, indenting and reading.
\<close>

inductive builds :: "forest \<Rightarrow> forest \<Rightarrow> bool" where
  "builds h (snd (NewElement tag h))"
| "builds h (snd (CreateElement tag e h))"
| "builds h (snd (newCharData data ws parent h))"
| "builds h (snd (newComment comment parent h))"
| "builds h (snd (newDirective data parent h))"
| "builds h (snd (newProcInst target inst parent h))"
| "builds h (snd (remove_child e t h))"
| "AddChild e t h = Some h' \<Longrightarrow> builds h h'"
| "InsertChildAt e ex t h = Some h' \<Longrightarrow> builds h h'"
| "Element_Copy e h = Some h' \<Longrightarrow> builds h h'"
| "set_root d e h = Some h' \<Longrightarrow> builds h h'"
| "builds h (set_text e text h)"
| "builds h (write_cdata e text h)"
| "builds h (h\<lparr>trees := map (upd e (CreateAttr key val)) (trees h)\<rparr>)"
| "builds h (h\<lparr>trees := map (upd e (\<lambda>x. fst (RemoveAttr key x))) (trees h)\<rparr>)"

lemma edit_ok:
  assumes "forest_ok h" and "\<And>x y. count (mset (addrs (f x))) y \<le> count (mset (addrs x)) y"
  shows "forest_ok (h\<lparr>trees := map (upd e f) (trees h)\<rparr>)"
proof (rule forest_okI [OF assms(1)])
  fix y
  have "sum_list (map (\<lambda>t. count (mset (addrs t)) e) (trees h)) \<le> 1"
    using assms(1) by (simp add: forest_ok_def count_held)
  from count_trees_upd [of f y 0, OF _ this] assms(2)
  show "count (held (h\<lparr>trees := map (upd e f) (trees h)\<rparr>)) y \<le> count (held h) y"
    by (simp add: count_held comp_def)
qed simp

lemma addrs_attributes:
  "count (mset (addrs (CreateAttr key val x))) y = count (mset (addrs x)) y"
  "count (mset (addrs (fst (RemoveAttr key x)))) y = count (mset (addrs x)) y"
  by (cases x; simp add: CreateAttr_def Let_def count_addrs_Element split: prod.split)+

lemma constructors_ok:
  assumes "forest_ok h"
  shows "forest_ok (snd (newElement space stag parent h))" "forest_ok (snd (newCharData data ws parent h))"
    "forest_ok (snd (newComment data parent h))" "forest_ok (snd (newDirective data parent h))"
    "forest_ok (snd (newProcInst data inst parent h))"
  unfolding newElement_def newCharData_def newComment_def newDirective_def newProcInst_def
  by (rule new_token_ok [OF assms], simp add: tree_simps)+

lemma builds_ok: "builds h h' \<Longrightarrow> forest_ok h \<Longrightarrow> forest_ok h'"
proof (induction rule: builds.induct)
  case (8 e t h h')
  show ?case
    by (rule bind_with_ok [OF 8(2) 8(1) [unfolded AddChild_def] addChild_count])
next
  case (9 e ex t h h')
  show ?case
    by (rule bind_with_ok [OF 9(2) 9(1) [unfolded InsertChildAt_def] InsertChild_count])
next
  case (7 h e t)
  then show ?case using remove_child_held forest_ok_held remove_child_next by blast
next
  case (10 e h h')
  then show ?case using Element_Copy_ok by blast
next
  case (11 d e h h')
  then show ?case using set_root_ok by blast
qed (simp_all add: texts_ok NewElement_def CreateElement_def constructors_ok edit_ok addrs_attributes split: prod.split)

text \<open>
  C37: Trees stay trees under the operations of \<open>builds\<close>: from any forest in which every token occurs
  once, whatever sequence of them follows, every token still occurs once, so it has one parent at
  most, and the next new token is none of the old ones. The operations are the constructors, free and
  bound, \<open>AddChild\<close>, \<open>InsertChild\<close>, \<open>RemoveChild\<close>, \<open>SetRoot\<close>, the copy of an element, \<open>SetText\<close>, \<open>WriteCData\<close>,
  \<open>CreateAttr\<close> and \<open>RemoveAttr\<close>; a token is not moved below itself. \<open>Document.Copy\<close> is not one of them:
  of the copies of documents the property is false, because their children name another parent.
\<close>
theorem documents_stay_trees:
  assumes "builds\<^sup>*\<^sup>* h h'" and "forest_ok h"
  shows "distinct (map addr (forest_tokens h')) \<and> next_addr h' \<notin> addr ` set (forest_tokens h')"
proof -
  have ok: "forest_ok h'" using assms by (induction rule: rtranclp_induct) (auto intro: builds_ok)
  have m: "map addr (forest_tokens h') = concat (map addrs (trees h'))"
    by (simp add: forest_tokens_def addrs_def [abs_def] map_concat comp_def)
  have "distinct (map addr (forest_tokens h'))"
    using ok unfolding m distinct_iff_count by (simp add: forest_ok_def held_def)
  moreover have "next_addr h' \<notin> set (map addr (forest_tokens h'))"
    using ok unfolding m by (auto simp: forest_ok_def held_def)
  ultimately show ?thesis by simp
qed

text \<open>A document that is built, with an element that moves from one parent to another.\<close>

definition demo_forest :: forest where
  "demo_forest = \<lparr>trees = [Element 0 '''' ''a'' [] [Element 1 '''' ''b'' [] [], CharData 2 ''x'' False],
     Element 3 '''' ''c'' [] []], next_addr = 4\<rparr>"

theorem documents_stay_trees_witness:
  "\<exists>h'. AddChild 3 1 demo_forest = Some h' \<and> Parent 1 demo_forest = Some 0 \<and> Parent 1 h' = Some 3 \<and>
     distinct (map addr (forest_tokens h'))"
proof -
  let ?h = "\<lparr>trees = [Element 0 '''' ''a'' [] [CharData 2 ''x'' False],
     Element 3 '''' ''c'' [] [Element 1 '''' ''b'' [] []]], next_addr = 4\<rparr>"
  have a: "AddChild 3 1 demo_forest = Some ?h" by code_simp
  have "Parent 1 demo_forest = Some 0" "Parent 1 ?h = Some 3" by code_simp+
  moreover have "forest_ok demo_forest"
    by (auto simp: forest_ok_def held_def demo_forest_def tree_simps)
  ultimately show ?thesis
    using a documents_stay_trees [OF r_into_rtranclp [of builds, OF builds.intros(8) [OF a]]] by blast
qed

end
