(* ===== verification/Spec2Isabelle.thy ===== *)
theory Spec2Isabelle
  imports Commands Shutdown Answers Races Concurrent CleanupProps Migration EtreeStream EtreeProps EtreeBuild
begin

text \<open>
  A verification development for the Camunda engine wrapper.

  \<^bold>\<open>The program.\<close> The wrapper is an HTTP server in front of several Camunda engines ("shards").
  Clients know a deployment by a virtual id; a table relates it to the id that an engine gave
  (\<open>lib/vid\<close>). Every user belongs to one engine, which a second table and a cache know (\<open>lib/shards\<close>,
  \<open>lib/shards/cache\<close>). A request to an endpoint (\<open>lib/api\<close>) is answered by operations that ask the
  user's engine (\<open>lib/camunda\<close>) or, for deploying and removing, tie the engine, the relation, the
  incident service, process-io and notifications together (\<open>lib/controller\<close>). Documents are rewritten
  before they are deployed (\<open>lib/controller/bpmn.go\<close> over the XML library \<open>etree\<close>). Besides the server
  there are a client library (\<open>lib/client\<close>) and command line tools (\<open>lib/cleanup\<close>,
  \<open>lib/shardmigration\<close>, \<open>cmd\<close>).

  \<^bold>\<open>How the code is modelled.\<close> Every function and method is a HOL function of the same name (a method
  of a client, a tool or an endpoint has the part's name in front, as \<open>Client_Deploy\<close>,
  \<open>V2_GetDeployment\<close>). State is passed explicitly. A pair of a result and an error is a sum, \<open>Inl\<close> the
  error; \<open>None\<close> of an option is a panic, or a loop that does not end. What the code does not contain
  is a parameter, quantified in the theorems: the network, the clock, the decoders of XML, JSON
  and JWTs, the client of the incident service, \<open>url.Parse\<close>, the order in which \<open>range\<close> visits a
  map. Failures of the databases are a schedule in the state of the handle: each call can succeed,
  fail, or fail although it took effect, and rows can be lost on their way; the theorems hold for
  every schedule unless they say that nothing fails (\<open>healthy\<close>).

  \<^bold>\<open>The theories.\<close>
  \<^item> \<open>Prelude\<close>: error values, the option monad, collections of facts, lemmas on lists.
  \<^item> \<open>GoStrings\<close>, \<open>GoWeb\<close>, \<open>Sql\<close>: what the code uses of Go's libraries: strings and numbers; escaping,
    queries, JSON values and their decoding into structs, requests and replies; database handles
    with transactions. \<open>safe\<close> and \<open>keeps\<close> carry invariants of the tables through any calls.
  \<^item> \<open>Model\<close>, \<open>Auth\<close>: \<open>lib/model\<close> (one record per struct, decoded by its tags) and \<open>lib/auth\<close> (the tokens of
    users and the wrapper's own, with \<open>EnsureAccess\<close>).
  \<^item> \<open>Cache\<close>, \<open>Shards\<close>: \<open>lib/shards/cache\<close> and \<open>lib/shards\<close>. The locale \<open>cache_interface\<close> is the contract of
    the interface \<open>Cache\<close>; both caches are interpretations of it, and \<open>Shards\<close> uses the contract only.
  \<^item> \<open>Vid\<close>: \<open>lib/vid\<close>, the relation of virtual ids.
  \<^item> \<open>EtreeHelpers\<close>, \<open>QueueSpec\<close>, \<open>EtreeTree\<close>, \<open>EtreeIO\<close>, \<open>EtreeStream\<close>, \<open>EtreeRead\<close>, \<open>EtreePath\<close>, \<open>EtreeFind\<close>,
    \<open>EtreeBuild\<close>, \<open>EtreeProps\<close>: package \<open>etree\<close>: stacks and the ring buffer (an interpretation of the queue
    of \<open>QueueSpec\<close>), trees of tokens with addresses for pointers, reading and writing, the compiler of
    paths and the traversal, constructors and moves in forests of tokens. \<open>EtreeStream\<close> has the calls
    that writing makes on a buffered writer, the counting writer and reader, and the interface
    \<open>io.Writer\<close> as the locale \<open>writer\<close>.
  \<^item> \<open>TreeEdit\<close>, \<open>Bpmn\<close>: \<open>lib/controller/bpmn.go\<close>: prefixing scripts and numbering processes.
  \<^item> \<open>System\<close>: the state that the operations share (\<open>world\<close>: both databases, the cache, the access token,
    the environment, the requests that were sent) and the parameters (\<open>system\<close>); with
    \<open>lib/camunda/request.go\<close>, \<open>lib/notification\<close>, \<open>lib/processio\<close>. The locale \<open>world_preorder\<close> says how a
    property of steps (what may change) is proved for composed operations; \<open>engine_preorder\<close> extends it
    for requests to engines.
  \<^item> \<open>Camunda\<close>, \<open>Parameter\<close>, \<open>CamundaProps\<close>: \<open>lib/camunda\<close>, every operation of the client of the engines;
    access checks, tenants of lists, start parameters.
  \<^item> \<open>Controller\<close>, \<open>ControllerProps\<close>, \<open>Demo\<close>: \<open>lib/controller/controller.go\<close>, and a small running system for
    the witnesses.
  \<^item> \<open>Api\<close>, \<open>ApiV1\<close>, \<open>Frames\<close>, \<open>Router\<close>, \<open>Serve\<close>, \<open>ServeProps\<close>: \<open>lib/api\<close>: every handler, the registered
    patterns with the multiplexer of \<open>net/http\<close> and the cross-origin headers, the server as a whole
    (\<open>serve\<close>, \<open>ServeHTTP\<close>) and its runs (\<open>server_run\<close>), in which any requests follow each other while
    the surroundings change. \<open>Frames\<close> says per operation what it can change,
    \<open>Answers\<close> which codes an endpoint can answer.
  \<^item> \<open>Registration\<close>, \<open>Startup\<close>, \<open>Shutdown\<close>: the life of a process. \<open>Registration\<close> has \<open>GetRouter\<close> with the
    methods that reflection finds and the conflicts of patterns of \<open>net/http\<close>; \<open>Startup\<close> has \<open>lib.Wrapper\<close>:
    opening the databases, \<open>lib/metrics\<close>, \<open>api.Start\<close>, and the components wired into a \<open>system\<close> and a
    first \<open>world\<close>, so that runs of the server follow; \<open>Shutdown\<close> has \<open>main.go\<close> and the goroutines as a
    step relation, up to the end of the process. \<open>Commands\<close> has \<open>cmd/addshard\<close> and \<open>cmd/removeshard\<close>, and
    the life of the tables under processes and commands.
  \<^item> \<open>Concurrent\<close>, \<open>Races\<close>: what the sequential theories leave out. \<open>Concurrent\<close> runs the calls of any
    number of \<open>EnsureShardForUser\<close> and \<open>SetShardForUser\<close> requests in any order over the transactions of
    the database and the cache of the server; \<open>Races\<close> has two requests that deploy one virtual id.
  \<^item> \<open>Client\<close>, \<open>ClientProps\<close>: \<open>lib/client\<close>, and the client against the server.
  \<^item> \<open>Cleanup\<close>, \<open>CleanupProps\<close>, \<open>Migration\<close>, \<open>Configuration\<close>: the tools of \<open>lib/cleanup\<close> with
    \<open>cmd/cleanup\<close>, \<open>lib/shardmigration\<close>, and \<open>lib/configuration\<close>.

  \<^bold>\<open>What the theorems show.\<close>
  \<^item> The server over any run of requests that follow each other, each ending before the next begins: no
    virtual id gets two deployments (if no rows get lost on their way); users stay at their engine; only
    admins change the relation. At the endpoints that name one resource, a changing request follows an
    answer of the user's own engine that names the user as its owner; reading endpoints only read, and
    assign an engine to nobody but the user of the token.
  \<^item> The program over any sequence of starts, ends between requests, and commands: the tables keep their
    constraints, no virtual id gets two deployments, users stay at their engine; what a start leaves when
    it succeeds and when it fails; that the end of the process does not wait for requests.
  \<^item> Deploying and removing, whatever fails: a success has stored the id that the engine's answer gave; which
    relations can change; when deploying fails after the engine has taken the process, exactly the
    requests of its removal follow; and a relation is removed only after the engines confirmed.
  \<^item> The wrapper's own token: it is handed out as long as it lives, and else was issued just now.
  \<^item> Shards and cache: the answer is the committed one, assignments keep the engines balanced within
    one user, moves are all or nothing, the layered cache keeps its contract.
  \<^item> Requests beside each other: those of one user agree on the committed shard, none waits for ever, and
    one on its own is the sequential operation; what interleaving breaks (the balance, the cache after
    a move, two deployments of one virtual id) is shown by runs.
  \<^item> Answers: all endpoints but eight always answer, with one of five codes, or 501 at the two endpoints of
    diagrams when the engine's reply breaks off.
  \<^item> Documents: exactly the scripts are prefixed, exactly the ids of processes are changed; queries find
    each element once; reading rebuilds a tree; escaping is undone by the entities; indenting changes
    white space only; building keeps trees, but for the copies of documents, whose children name a
    parent that is not the copy; a writer that fails has received a front part of the text and the
    counter says how long it is.
  \<^item> Routing and clients: each pattern is reached by the paths that are made from it, with the values as
    given; redirects end; the client's messages and queries arrive as they were made.
  \<^item> Tools: the searches find exactly what is not linked; adding an engine ends and moves its tenants, or
    moves nobody when the engine does not answer all of its pages.
  \<^item> Defects that modelling showed are theorems too, as that \<open>remove-vid\<close> removes nothing, that an engine
    that cannot be reached leaves requests without an answer, or that a relation that arrives only in
    part is taken for the whole one.

  \<^bold>\<open>Bounds and fuel.\<close> The tree walk of \<open>etree\<close> and the ring buffer are total functions. The loop over
  the pages of an engine (\<open>load_tenants\<close>) is a partial function, proved to return for any positive
  batch as long as the offset fits into 64 bits, and not to return for a batch of zero. \<open>follow\<close> has
  the ten redirects of Go's client as its bound; one is enough (\<open>redirects_end\<close>). The buffer of
  \<open>bufio.Writer\<close> has 4096 bytes, its default; counters of bytes are 64 bit integers that wrap. \<open>camel_words\<close> counts
  the characters of a name, which is enough (\<open>camel_words_enough\<close>). Counts of users are compared with
  \<open>MaxInt\<close> as in the code; the sizes of columns are those of the schema.

  \<^bold>\<open>Not modelled.\<close> Sockets, the access log, logging and the format of the metrics (I/O); the parsing of
  flags (package \<open>flag\<close>); commands that run while the server does (they change the tables under its cache); the
  generated description of the API (\<open>docs\<close>, a parameter); the mutex of the token:
  the requests of \<open>server_run\<close> follow each other, and interleavings inside of two requests are covered for
  shards and for deploying only (\<open>RemoveShard\<close> and \<open>GetShardForUser\<close> are not among them);
  the primary key of the relation (a serial number that nothing reads), and the order of rows, which
  is the order of insertion; timeouts, which show as failures of the network; panics of \<open>url.Parse\<close> on
  an engine address that does not parse, in the texts of errors of \<open>lib/camunda\<close> (the tools have them);
  \<open>Parent\<close> pointers that disagree with the position in the tree, which \<open>Document.Copy\<close> makes (\<open>Copy\<close>
  names the stale one, and the steps of \<open>EtreeBuild\<close> leave it out); the limit of memory of
  \<open>strings.Repeat\<close>; where the body of a reply breaks off is only told for the diagrams, whose bytes are
  read as they are (\<open>body_error\<close>), and shows elsewhere as JSON that does not decode; the number of bytes that \<open>ReadFrom\<close> of
  \<open>etree\<close> returns, which depends on how far \<open>encoding/xml\<close> reads ahead; errors of closing a file (the code
  drops them); the method \<open>CONNECT\<close> of the multiplexer; white space and capitals beyond ASCII.
\<close>

end
